(* ===== verification/Prelude.thy ===== *)
theory Prelude
  imports Main "HOL-Library.Word"
begin

unbundle bit_operations_syntax

text \<open>
  The vocabulary shared by every component of the proxy: Go's machine integers and byte
  slices, Go errors (with wrapping, as \<^verbatim>\<open>fmt.Errorf("...: %w", err)\<close> builds them), the outcome
  of a Go call (a value, an error or a panic), byte sources and sinks standing for
  \<^verbatim>\<open>io.Reader\<close> and \<^verbatim>\<open>io.Writer\<close>, the fixed-width encodings of \<^verbatim>\<open>encoding/binary\<close> and
  \<^verbatim>\<open>strings.EqualFold\<close>. The locale \<open>stream_code\<close> is the contract of a self-delimiting
  encoding; the frame format, the API strings and the API packets are interpretations of it.
\<close>

section \<open>Definitions\<close>

subsection \<open>Machine integers, bytes and strings\<close>

type_synonym byte = "8 word"
type_synonym bytes = "byte list"
type_synonym u8 = "8 word"
type_synonym u32 = "32 word"
type_synonym i32 = "32 word"
type_synonym u64 = "64 word"
type_synonym i64 = "64 word"

text \<open>A Go string is an immutable byte sequence; \<^verbatim>\<open>[]byte(s)\<close> and \<^verbatim>\<open>string(b)\<close> copy it.\<close>

definition char_byte :: "char \<Rightarrow> byte" where
  "char_byte c = word_of_nat (of_char c)"

definition byte_char :: "byte \<Rightarrow> char" where
  "byte_char b = char_of (unat b)"

definition str_bytes :: "string \<Rightarrow> bytes" where
  "str_bytes s = map char_byte s"

definition bytes_str :: "bytes \<Rightarrow> string" where
  "bytes_str b = map byte_char b"

subsection \<open>Errors and outcomes\<close>

text \<open>Numbers as \<^verbatim>\<open>%v\<close> prints them.\<close>

fun show_nat :: "nat \<Rightarrow> string" where
  "show_nat n = (if n < 10 then [char_of (48 + n)] else show_nat (n div 10) @ [char_of (48 + n mod 10)])"

declare show_nat.simps [simp del]

definition show_int :: "int \<Rightarrow> string" where
  "show_int i = (if i < 0 then ''-'' @ show_nat (nat (- i)) else show_nat (nat i))"

text \<open>
  \<open>ErrorString\<close> is \<^verbatim>\<open>errors.New\<close>, \<open>Errorf1\<close> a formatted message with one number and nothing
  wrapped, \<open>Wrapf\<close> and \<open>Wrapf1\<close> are \<^verbatim>\<open>fmt.Errorf\<close> with a final \<^verbatim>\<open>%w\<close>, \<open>Recovered\<close> the error a
  deferred \<^verbatim>\<open>recover\<close> builds, and \<open>Extern\<close> an error that a library or the network reports.
\<close>

datatype go_error =
    EOF
  | ErrUnexpectedEOF
  | Canceled
  | DeadlineExceeded
  | ErrorString string
  | Errorf1 string int
  | Wrapf string go_error
  | Wrapf1 string int go_error
  | Recovered string string
  | Extern string

datatype 'a res = Ok 'a | Err go_error | Panic string

text \<open>How one turn of a goroutine's loop ends: go on, leave the loop, or a panic.\<close>

datatype turn = Continue | Leave | Crash string

text \<open>\<^verbatim>\<open>errors.Is\<close> walks the chain of wrapped errors.\<close>

fun errors_Is :: "go_error \<Rightarrow> go_error \<Rightarrow> bool" where
  "errors_Is (Wrapf m e) t = (Wrapf m e = t \<or> errors_Is e t)"
| "errors_Is (Wrapf1 m n e) t = (Wrapf1 m n e = t \<or> errors_Is e t)"
| "errors_Is e t = (e = t)"

subsection \<open>Byte sources and sinks\<close>

text \<open>
  An \<^verbatim>\<open>io.Reader\<close> delivers the bytes \<open>s_data\<close> and then fails with \<open>s_end\<close> for ever
  (\<^verbatim>\<open>io.EOF\<close> for a closed peer, any other error for a broken one).
\<close>

record stream =
  s_data :: bytes
  s_end :: go_error

text \<open>
  \<^verbatim>\<open>io.ReadFull\<close>: nothing to read succeeds at once; a source that ends before the first byte
  gives its own error, one that ends later gives \<^verbatim>\<open>io.ErrUnexpectedEOF\<close> instead of \<^verbatim>\<open>io.EOF\<close>.
\<close>

definition ReadFull :: "nat \<Rightarrow> stream \<Rightarrow> bytes res \<times> stream" where
  "ReadFull n s =
     (if n \<le> length (s_data s) then (Ok (take n (s_data s)), s\<lparr>s_data := drop n (s_data s)\<rparr>)
      else if s_data s \<noteq> [] \<and> s_end s = EOF then (Err ErrUnexpectedEOF, s\<lparr>s_data := []\<rparr>)
      else (Err (s_end s), s\<lparr>s_data := []\<rparr>))"

text \<open>
  An \<^verbatim>\<open>io.Writer\<close> accumulates the bytes it has accepted. The list \<open>k_faults\<close> scripts the
  environment: each write consumes one entry, \<open>None\<close> for a write that succeeds and
  \<open>Some (n, e)\<close> for one that accepts \<open>n\<close> bytes and then fails with \<open>e\<close>; once the script is
  used up every write succeeds.
\<close>

record sink =
  k_out :: bytes
  k_faults :: "(nat \<times> go_error) option list"

fun sink_Write :: "bytes \<Rightarrow> sink \<Rightarrow> go_error option \<times> sink" where
  "sink_Write p k =
     (case k_faults k of
        [] \<Rightarrow> (None, k\<lparr>k_out := k_out k @ p\<rparr>)
      | None # fs \<Rightarrow> (None, k\<lparr>k_out := k_out k @ p, k_faults := fs\<rparr>)
      | Some (n, e) # fs \<Rightarrow> (Some e, k\<lparr>k_out := k_out k @ take n p, k_faults := fs\<rparr>))"

subsection \<open>Fixed-width encodings\<close>

definition be32 :: "u32 \<Rightarrow> bytes" where
  "be32 v = [ucast (drop_bit 24 v), ucast (drop_bit 16 v), ucast (drop_bit 8 v), ucast v]"

definition le32 :: "u32 \<Rightarrow> bytes" where
  "le32 v = [ucast v, ucast (drop_bit 8 v), ucast (drop_bit 16 v), ucast (drop_bit 24 v)]"

fun from_be32 :: "bytes \<Rightarrow> u32" where
  "from_be32 [a, b, c, d] =
     push_bit 24 (ucast a) OR push_bit 16 (ucast b) OR push_bit 8 (ucast c) OR ucast d"
| "from_be32 _ = 0"

fun from_le32 :: "bytes \<Rightarrow> u32" where
  "from_le32 [a, b, c, d] =
     ucast a OR push_bit 8 (ucast b) OR push_bit 16 (ucast c) OR push_bit 24 (ucast d)"
| "from_le32 _ = 0"

text \<open>\<^verbatim>\<open>binary.Read(r, order, &v)\<close> for a \<^verbatim>\<open>uint32\<close>: a full read of four bytes, then the decoding.\<close>

definition binary_Read_be32 :: "stream \<Rightarrow> u32 res \<times> stream" where
  "binary_Read_be32 s =
     (case ReadFull 4 s of
        (Ok bs, s') \<Rightarrow> (Ok (from_be32 bs), s')
      | (Err e, s') \<Rightarrow> (Err e, s')
      | (Panic m, s') \<Rightarrow> (Panic m, s'))"

definition binary_Read_le32 :: "stream \<Rightarrow> u32 res \<times> stream" where
  "binary_Read_le32 s =
     (case ReadFull 4 s of
        (Ok bs, s') \<Rightarrow> (Ok (from_le32 bs), s')
      | (Err e, s') \<Rightarrow> (Err e, s')
      | (Panic m, s') \<Rightarrow> (Panic m, s'))"

text \<open>\<^verbatim>\<open>binary.BigEndian.PutUint32(b, v)\<close> overwrites the first four bytes and panics on a shorter slice.\<close>

definition PutUint32_be :: "bytes \<Rightarrow> u32 \<Rightarrow> bytes res" where
  "PutUint32_be b v =
     (if length b < 4 then Panic ''index out of range'' else Ok (be32 v @ drop 4 b))"

subsection \<open>Case-insensitive comparison\<close>

text \<open>
  \<^verbatim>\<open>strings.EqualFold\<close> compares byte by byte while both strings are ASCII. At the first
  non-ASCII byte on either side it continues with the Unicode tables of the standard library;
  that tail is the parameter \<open>uni\<close>, applied to the two remaining strings.
\<close>

definition is_upper :: "byte \<Rightarrow> bool" where
  "is_upper b = (65 \<le> b \<and> b \<le> 90)"

definition to_lower :: "byte \<Rightarrow> byte" where
  "to_lower b = (if is_upper b then b + 32 else b)"

fun EqualFold_bytes :: "(bytes \<Rightarrow> bytes \<Rightarrow> bool) \<Rightarrow> bytes \<Rightarrow> bytes \<Rightarrow> bool" where
  "EqualFold_bytes uni [] t = (t = [])"
| "EqualFold_bytes uni s [] = (s = [])"
| "EqualFold_bytes uni (x # s) (y # t) =
     (if 128 \<le> x OR y then uni (x # s) (y # t)
      else if x = y then EqualFold_bytes uni s t
      else (let lo = min x y; hi = max x y
            in if is_upper lo \<and> hi = lo + 32 then EqualFold_bytes uni s t else False))"

definition EqualFold :: "(bytes \<Rightarrow> bytes \<Rightarrow> bool) \<Rightarrow> string \<Rightarrow> string \<Rightarrow> bool" where
  "EqualFold uni s t = EqualFold_bytes uni (str_bytes s) (str_bytes t)"

subsection \<open>Reading a sequence of values\<close>

text \<open>Calling a decoder \<open>n\<close> times; the first error or panic ends the sequence.\<close>

fun read_many :: "(stream \<Rightarrow> 'a res \<times> stream) \<Rightarrow> nat \<Rightarrow> stream \<Rightarrow> 'a list res \<times> stream" where
  "read_many dec 0 s = (Ok [], s)"
| "read_many dec (Suc n) s =
     (case dec s of
        (Ok x, s') \<Rightarrow>
          (case read_many dec n s' of
             (Ok xs, s'') \<Rightarrow> (Ok (x # xs), s'')
           | (Err e, s'') \<Rightarrow> (Err e, s'')
           | (Panic m, s'') \<Rightarrow> (Panic m, s''))
      | (Err e, s') \<Rightarrow> (Err e, s')
      | (Panic m, s') \<Rightarrow> (Panic m, s'))"

section \<open>Lemmas\<close>

named_theorems wire_simps \<open>encodings, their lengths and their inverses\<close>

lemma byte_char_char_byte [simp]: "byte_char (char_byte c) = c"
  by (simp add: byte_char_def char_byte_def unat_of_nat)

lemma char_byte_byte_char [simp]: "char_byte (byte_char b) = b"
proof -
  have "unat b < 256"
    using unsigned_less [of b] by simp
  then show ?thesis
    by (simp add: byte_char_def char_byte_def)
qed

lemma bytes_str_str_bytes [simp]: "bytes_str (str_bytes s) = s"
  by (simp add: bytes_str_def str_bytes_def comp_def)

lemma str_bytes_bytes_str [simp]: "str_bytes (bytes_str b) = b"
  by (simp add: bytes_str_def str_bytes_def comp_def)

lemma length_str_bytes [wire_simps, simp]: "length (str_bytes s) = length s"
  by (simp add: str_bytes_def)

lemma str_bytes_inject [simp]: "str_bytes s = str_bytes t \<longleftrightarrow> s = t"
  by (metis bytes_str_str_bytes)

lemma length_be32 [wire_simps, simp]: "length (be32 v) = 4"
  by (simp add: be32_def)

lemma length_le32 [wire_simps, simp]: "length (le32 v) = 4"
  by (simp add: le32_def)

lemma byte_position_cases:
  obtains "(n::nat) < 8" | "8 \<le> n" "n < 16" | "16 \<le> n" "n < 24" | "24 \<le> n"
  by (meson not_less)

lemma from_be32_be32 [wire_simps, simp]: "from_be32 (be32 v) = v"
  unfolding be32_def from_be32.simps
proof (rule bit_eqI, goal_cases)
  case (1 n)
  then show ?case
    by (cases rule: byte_position_cases [of n]) (auto simp: bit_simps dest: bit_imp_le_length)
qed

lemma from_le32_le32 [wire_simps, simp]: "from_le32 (le32 v) = v"
  unfolding le32_def from_le32.simps
proof (rule bit_eqI, goal_cases)
  case (1 n)
  then show ?case
    by (cases rule: byte_position_cases [of n]) (auto simp: bit_simps dest: bit_imp_le_length)
qed

lemma unat_word_of_nat_32 [wire_simps]: "n < 2 ^ 32 \<Longrightarrow> unat (word_of_nat n :: u32) = n"
  by (simp add: unat_of_nat)

lemma length_4_cases:
  assumes "length bs = 4"
  obtains a b c d where "bs = [a, b, c, d]"
  using assms by (auto simp: numeral_eq_Suc length_Suc_conv)

subsection \<open>Byte sources\<close>

lemma ReadFull_exact [wire_simps]:
  "length bs = n \<Longrightarrow>
   ReadFull n \<lparr>s_data = bs @ rest, s_end = e\<rparr> = (Ok bs, \<lparr>s_data = rest, s_end = e\<rparr>)"
  by (simp add: ReadFull_def)

lemma ReadFull_no_panic [simp]: "ReadFull n s \<noteq> (Panic m, s')"
  by (simp add: ReadFull_def)

lemma ReadFull_Ok:
  "ReadFull n s = (Ok bs, s') \<Longrightarrow>
   length bs = n \<and> s_data s = bs @ s_data s' \<and> s_end s' = s_end s"
  by (auto simp: ReadFull_def split: if_splits)

lemma ReadFull_Err:
  "ReadFull n s = (Err e, s') \<Longrightarrow>
   length (s_data s) < n \<and> s_data s' = [] \<and> s_end s' = s_end s \<and>
   e = (if s_data s \<noteq> [] \<and> s_end s = EOF then ErrUnexpectedEOF else s_end s)"
  by (auto simp: ReadFull_def split: if_splits)

lemma binary_Read_be32_exact [wire_simps]:
  "binary_Read_be32 \<lparr>s_data = be32 v @ rest, s_end = e\<rparr> = (Ok v, \<lparr>s_data = rest, s_end = e\<rparr>)"
  by (simp add: binary_Read_be32_def wire_simps)

lemma binary_Read_le32_exact [wire_simps]:
  "binary_Read_le32 \<lparr>s_data = le32 v @ rest, s_end = e\<rparr> = (Ok v, \<lparr>s_data = rest, s_end = e\<rparr>)"
  by (simp add: binary_Read_le32_def wire_simps)

lemma binary_Read_no_panic [simp]:
  "binary_Read_be32 s \<noteq> (Panic m, s')" "binary_Read_le32 s \<noteq> (Panic m, s')"
  by (auto simp: binary_Read_be32_def binary_Read_le32_def split: prod.splits res.splits)

subsection \<open>Byte sinks\<close>

lemma sink_Write_clean [wire_simps]:
  "k_faults k = [] \<Longrightarrow> sink_Write p k = (None, k\<lparr>k_out := k_out k @ p\<rparr>)"
  by simp

lemma sink_Write_prefix:
  "sink_Write p k = (r, k') \<Longrightarrow>
   \<exists>q t. p = q @ t \<and> k_out k' = k_out k @ q \<and> (r = None \<longrightarrow> t = [])"
  by (auto split: list.splits option.splits intro: exI [of _ "drop _ p"]
      intro!: append_take_drop_id [symmetric])

declare sink_Write.simps [simp del]

subsection \<open>Self-delimiting encodings\<close>

text \<open>
  The contract between an encoder and a decoder that share a byte stream: decoding what was
  encoded gives the value back and leaves exactly the bytes that follow it. A client may then
  write any number of values one after the other and read them back in order.
\<close>

locale stream_code =
  fixes enc :: "'a \<Rightarrow> bytes"
    and dec :: "stream \<Rightarrow> 'a res \<times> stream"
    and ok :: "'a \<Rightarrow> bool"
  assumes dec_enc: "ok x \<Longrightarrow>
    dec \<lparr>s_data = enc x @ rest, s_end = e\<rparr> = (Ok x, \<lparr>s_data = rest, s_end = e\<rparr>)"
begin

lemma read_many_enc:
  "list_all ok xs \<Longrightarrow>
   read_many dec (length xs) \<lparr>s_data = concat (map enc xs) @ rest, s_end = e\<rparr>
     = (Ok xs, \<lparr>s_data = rest, s_end = e\<rparr>)"
  by (induction xs) (simp_all add: dec_enc)

lemma enc_unique:
  assumes "ok x" "ok y" "enc x @ r = enc y @ r'"
  shows "x = y \<and> r = r'"
proof -
  have "dec \<lparr>s_data = enc x @ r, s_end = EOF\<rparr> = dec \<lparr>s_data = enc y @ r', s_end = EOF\<rparr>"
    by (simp add: assms(3))
  with assms(1,2) show ?thesis
    by (simp add: dec_enc)
qed

lemma concat_enc_inject:
  "list_all ok xs \<Longrightarrow> list_all ok ys \<Longrightarrow> length xs = length ys \<Longrightarrow>
   concat (map enc xs) @ r = concat (map enc ys) @ r' \<Longrightarrow> xs = ys \<and> r = r'"
proof (induction xs arbitrary: ys)
  case (Cons x xs)
  then obtain y zs where ys: "ys = y # zs"
    by (cases ys) auto
  with Cons.prems have "x = y \<and> concat (map enc xs) @ r = concat (map enc zs) @ r'"
    using enc_unique [of x y "concat (map enc xs) @ r"] by simp
  with Cons ys show ?case
    by simp
qed simp

end

subsection \<open>Case-insensitive comparison\<close>

lemma byte_high_bit: "128 \<le> (x::byte) \<longleftrightarrow> bit x 7"
proof -
  have "unat x < 256" using unsigned_less [of x] by simp
  then have div: "unat x div 128 = (if 128 \<le> unat x then 1 else 0)"
    by (auto simp: div_nat_eqI)
  have "bit x 7 = bit (unat x) 7"
    by (simp add: bit_unsigned_iff)
  also have "\<dots> = odd (unat x div 128)" by (simp add: bit_iff_odd)
  also have "\<dots> = (128 \<le> unat x)" using div by simp
  finally show ?thesis by (simp add: word_le_nat_alt)
qed

lemma byte_or_ascii: "128 \<le> (x OR y :: byte) \<longleftrightarrow> 128 \<le> x \<or> 128 \<le> y"
  by (simp add: byte_high_bit bit_or_iff)

lemma is_upper_unat: "is_upper b \<longleftrightarrow> 65 \<le> unat b \<and> unat b \<le> 90"
  by (simp add: is_upper_def word_le_nat_alt)

lemma unat_add_32: "is_upper b \<Longrightarrow> unat (b + 32) = unat b + 32"
  by (simp add: is_upper_unat unat_word_ariths)

lemma unat_to_lower: "unat (to_lower b) = (if is_upper b then unat b + 32 else unat b)"
  by (simp add: to_lower_def unat_add_32)

lemma fold_step:
  "(x = y \<or> is_upper (min x y) \<and> max x y = min x y + 32) \<longleftrightarrow> to_lower x = to_lower y"
proof -
  have eq: "max x y = min x y + 32 \<longleftrightarrow> max (unat x) (unat y) = min (unat x) (unat y) + 32"
    if "is_upper (min x y)"
    using unat_add_32 [OF that]
    by (auto simp: word_unat_eq_iff min_def max_def word_le_nat_alt split: if_splits)
  have "to_lower x = to_lower y \<longleftrightarrow> unat (to_lower x) = unat (to_lower y)"
    by (simp add: word_unat_eq_iff)
  also have "\<dots> \<longleftrightarrow> unat x = unat y \<or> is_upper (min x y) \<and>
      max (unat x) (unat y) = min (unat x) (unat y) + 32"
    unfolding unat_to_lower
    by (auto simp: is_upper_unat min_def max_def word_le_nat_alt split: if_splits)
  finally show ?thesis
    using eq by (auto simp: word_unat_eq_iff)
qed

lemma EqualFold_bytes_ascii:
  "list_all (\<lambda>b. b < 128) s \<Longrightarrow> list_all (\<lambda>b. b < 128) t \<Longrightarrow>
   EqualFold_bytes uni s t \<longleftrightarrow> map to_lower s = map to_lower t"
proof (induction uni s t rule: EqualFold_bytes.induct)
  case (3 uni x s y t)
  then show ?case
    using fold_step [of x y]
    by (auto simp: Let_def byte_or_ascii not_le)
qed auto
lemma EqualFold_ascii:
  assumes "list_all (\<lambda>b. b < 128) (str_bytes s)" "list_all (\<lambda>b. b < 128) (str_bytes t)"
  shows "EqualFold uni s t \<longleftrightarrow> map to_lower (str_bytes s) = map to_lower (str_bytes t)"
  using assms by (simp add: EqualFold_def EqualFold_bytes_ascii)

end
