(* ===== verification/Minecraft.thy ===== *)
theory Minecraft
  imports Prelude Complex_Main
begin

text \<open>
  The vocabulary of the libraries the proxy is built on (gophertunnel, snappy), as far as the
  proxy names it. Packets are a datatype with one constructor per packet type the proxy builds or
  inspects, carrying the fields it reads or writes; every other packet is \<open>OtherPacket\<close> with its
  identifier and contents. Field types the proxy only copies are opaque byte strings. What the
  libraries compute is a parameter: the record \<open>mclib\<close> bundles those functions, and \<open>proto\<close> is
  the interface \<^verbatim>\<open>minecraft.Protocol\<close>. Floating point values are rationals (finite values only).
\<close>

section \<open>Definitions\<close>

type_synonym opaque = bytes
type_synonym f32 = rat
type_synonym vec3 = "f32 \<times> f32 \<times> f32"
type_synonym vec2 = "f32 \<times> f32"
type_synonym uuid = bytes

subsection \<open>Named constants\<close>

text \<open>Constants of the library that the proxy compares or sends, distinct from each other.\<close>

datatype dimension = DimensionOverworld | DimensionNether | DimensionEnd | DimensionOther i32
datatype mob_effect_op = MobEffectAdd | MobEffectRemove | MobEffectOther u8
datatype player_list_action = PlayerListActionAdd | PlayerListActionRemove | PlayerListActionOther u8
datatype boss_event_type = BossEventHide | BossEventOther u32
datatype play_status = PlayStatusPlayerSpawn | PlayStatusOther i32
datatype level_event = LevelEventStopRaining | LevelEventStopThunderstorm | LevelEventOther i32
datatype player_action = PlayerActionDimensionChangeDone | PlayerActionOther i32
datatype move_mode = MoveModeReset | MoveModeOther u8
datatype entity_flag = EntityDataFlagNoAI | EntityDataFlagBreathing | EntityDataFlagHasGravity
datatype easing = EasingTypeLinear | EasingTypeOutExpo | EasingTypeInExpo | EasingTypeInOutExpo

subsection \<open>Camera instructions\<close>

type_synonym rgba = "u8 \<times> u8 \<times> u8 \<times> u8"

record fade_time =
  FadeInDuration :: f32
  WaitDuration :: f32
  FadeOutDuration :: f32

record camera_set =
  cs_Preset :: u32
  cs_Ease :: "f32 \<times> easing"
  cs_Position :: vec3
  cs_Rotation :: vec2

record camera_instruction =
  ci_Set :: "camera_set option"
  ci_Clear :: "bool option"
  ci_Fade :: "(fade_time \<times> rgba) option"

subsection \<open>Game data\<close>

record item_entry =
  it_Name :: string
  it_RuntimeID :: int

record start_game =
  sg_Difficulty :: i32
  sg_WorldName :: string
  sg_WorldSeed :: i64
  sg_PlayerGameMode :: i32
  sg_BaseGameVersion :: string
  sg_PlayerPosition :: vec3
  sg_Pitch :: f32
  sg_Yaw :: f32
  sg_Dimension :: dimension
  sg_WorldSpawn :: opaque
  sg_EditorWorldType :: opaque
  sg_CreatedInEditor :: bool
  sg_ExportedFromEditor :: bool
  sg_PersonaDisabled :: bool
  sg_CustomSkinsDisabled :: bool
  sg_GameRules :: opaque
  sg_Time :: i64
  sg_ServerBlockStateChecksum :: u64
  sg_Blocks :: opaque
  sg_PlayerMovementSettings :: opaque
  sg_WorldGameMode :: i32
  sg_Hardcore :: bool
  sg_ServerAuthoritativeInventory :: bool
  sg_PlayerPermissions :: opaque
  sg_ChatRestrictionLevel :: opaque
  sg_DisablePlayerInteractions :: bool
  sg_ClientSideGeneration :: bool
  sg_Experiments :: opaque
  sg_UseBlockNetworkIDHashes :: bool

record game_data =
  gd_Difficulty :: i32
  gd_WorldName :: string
  gd_WorldSeed :: i64
  gd_EntityUniqueID :: i64
  gd_EntityRuntimeID :: u64
  gd_PlayerGameMode :: i32
  gd_BaseGameVersion :: string
  gd_PlayerPosition :: vec3
  gd_Pitch :: f32
  gd_Yaw :: f32
  gd_Dimension :: dimension
  gd_WorldSpawn :: opaque
  gd_EditorWorldType :: opaque
  gd_CreatedInEditor :: bool
  gd_ExportedFromEditor :: bool
  gd_PersonaDisabled :: bool
  gd_CustomSkinsDisabled :: bool
  gd_GameRules :: opaque
  gd_Time :: i64
  gd_ServerBlockStateChecksum :: u64
  gd_CustomBlocks :: opaque
  gd_PlayerMovementSettings :: opaque
  gd_WorldGameMode :: i32
  gd_Hardcore :: bool
  gd_ServerAuthoritativeInventory :: bool
  gd_PlayerPermissions :: opaque
  gd_ChatRestrictionLevel :: opaque
  gd_DisablePlayerInteractions :: bool
  gd_ClientSideGeneration :: bool
  gd_Experiments :: opaque
  gd_UseBlockNetworkIDHashes :: bool
  gd_Items :: "item_entry list"
  gd_ChunkRadius :: i32

definition zero_game_data :: game_data where
  "zero_game_data = \<lparr>gd_Difficulty = 0, gd_WorldName = [], gd_WorldSeed = 0, gd_EntityUniqueID = 0,
     gd_EntityRuntimeID = 0, gd_PlayerGameMode = 0, gd_BaseGameVersion = [],
     gd_PlayerPosition = (0, 0, 0), gd_Pitch = 0, gd_Yaw = 0, gd_Dimension = DimensionOverworld,
     gd_WorldSpawn = [], gd_EditorWorldType = [], gd_CreatedInEditor = False,
     gd_ExportedFromEditor = False, gd_PersonaDisabled = False, gd_CustomSkinsDisabled = False,
     gd_GameRules = [], gd_Time = 0, gd_ServerBlockStateChecksum = 0, gd_CustomBlocks = [],
     gd_PlayerMovementSettings = [], gd_WorldGameMode = 0, gd_Hardcore = False,
     gd_ServerAuthoritativeInventory = False, gd_PlayerPermissions = [],
     gd_ChatRestrictionLevel = [], gd_DisablePlayerInteractions = False,
     gd_ClientSideGeneration = False, gd_Experiments = [], gd_UseBlockNetworkIDHashes = False,
     gd_Items = [], gd_ChunkRadius = 0\<rparr>"

subsection \<open>Packets\<close>

datatype packet =
    ConnectionRequest string bytes bytes i32 bytes
  | ConnectionResponse u64 i64
  | Flush
  | Latency i64 i64
  | Transfer string
  | UpdateCache bytes
  | StartGame start_game
  | ItemRegistry "item_entry list"
  | ChunkRadiusUpdated i32
  | PlayStatus play_status
  | RequestChunkRadius i32
  | ClientCacheStatus bool
  | SetLocalPlayerAsInitialised u64
  | AddActor i64
  | AddItemActor i64
  | AddPainting i64
  | AddPlayer i64
  | BossEvent i64 boss_event_type
  | MobEffect u64 mob_effect_op i32
  | PlayerList player_list_action "uuid list"
  | RemoveActor i64
  | RemoveObjective string
  | SetDisplayObjective string
  | Disconnect string
  | SetActorData u64 "entity_flag list"
  | LevelChunk dimension "i32 \<times> i32" u32 bytes
  | MovePlayer u64 vec3 f32 f32 move_mode
  | LevelEvent level_event i32
  | SetDifficulty u32
  | SetPlayerGameType i32
  | GameRulesChanged opaque
  | CameraPresets "string list"
  | CameraInstruction camera_instruction
  | ChangeDimension dimension vec3
  | StopSound bool
  | PlayerAction player_action
  | OtherPacket u32 bytes

text \<open>What \<^verbatim>\<open>Conn.ReadPacket\<close> returns as \<^verbatim>\<open>any\<close>: a decoded packet or a raw payload.\<close>

datatype any = Pk packet | Raw bytes

subsection \<open>Protocols and the library\<close>

text \<open>
  The interface \<^verbatim>\<open>protocol.IO\<close>: each method takes the field and the buffer. A writer appends the
  field to the buffer and leaves it alone; a reader replaces it by what it takes off the buffer, or
  panics.
\<close>

record io =
  io_String :: "string \<Rightarrow> bytes \<Rightarrow> string res \<times> bytes"
  io_ByteSlice :: "bytes \<Rightarrow> bytes \<Rightarrow> bytes res \<times> bytes"
  io_Int32 :: "i32 \<Rightarrow> bytes \<Rightarrow> i32 res \<times> bytes"
  io_Int64 :: "i64 \<Rightarrow> bytes \<Rightarrow> i64 res \<times> bytes"
  io_Varuint64 :: "u64 \<Rightarrow> bytes \<Rightarrow> u64 res \<times> bytes"
  io_Varint64 :: "i64 \<Rightarrow> bytes \<Rightarrow> i64 res \<times> bytes"

record proto =
  proto_ID :: i32
  proto_Packets :: "bool \<Rightarrow> u32 \<rightharpoonup> packet"
  proto_NewWriter :: "i32 \<Rightarrow> io"
  proto_NewReader :: "i32 \<Rightarrow> bool \<Rightarrow> io"
  proto_ConvertToLatest :: "packet \<Rightarrow> packet list"

text \<open>A packet header: the identifier and the two sub-client numbers.\<close>

record header =
  h_PacketID :: u32
  h_SenderSubClient :: u8
  h_TargetSubClient :: u8

definition zero_header :: header where
  "zero_header = \<lparr>h_PacketID = 0, h_SenderSubClient = 0, h_TargetSubClient = 0\<rparr>"

record mclib =
  mc_IDStartGame :: u32
  mc_IDItemRegistry :: u32
  mc_IDChunkRadiusUpdated :: u32
  mc_IDPlayStatus :: u32
  mc_ID :: "packet \<Rightarrow> u32"
  mc_Marshal :: "io \<Rightarrow> packet \<Rightarrow> bytes \<Rightarrow> packet res \<times> bytes"
  mc_HeaderWrite :: "header \<Rightarrow> bytes"
  mc_HeaderRead :: "header \<Rightarrow> bytes \<Rightarrow> unit res \<times> header \<times> bytes"
  mc_DefaultProtocol :: proto
  snappy_Encode :: "bytes \<Rightarrow> bytes"
  snappy_Decode :: "bytes \<Rightarrow> bytes res"

end
