(* ===== verification/Server_Packet.thy ===== *)
theory Server_Packet
  imports Minecraft
begin

text \<open>
  The packets that the proxy and the downstream servers exchange besides the vanilla protocol
  (\<^verbatim>\<open>server/packet\<close>): identifiers, the field order of each \<^verbatim>\<open>Marshal\<close> method over the
  library's \<^verbatim>\<open>protocol.IO\<close>, and the factories registered with the library. The same \<^verbatim>\<open>Marshal\<close>
  writes and reads, depending on the \<open>io\<close> it is given; \<open>io_codec\<close> states what the library
  documents of a writer and a reader that belong together.
\<close>

section \<open>Definitions\<close>

subsection \<open>Identifiers\<close>

definition IDConnectionRequest :: u32 where "IDConnectionRequest = 0 + 500"
definition IDConnectionResponse :: u32 where "IDConnectionResponse = 1 + 500"
definition IDFlush :: u32 where "IDFlush = 2 + 500"
definition IDLatency :: u32 where "IDLatency = 3 + 500"
definition IDTransfer :: u32 where "IDTransfer = 4 + 500"
definition IDUpdateCache :: u32 where "IDUpdateCache = 5 + 500"

definition ConnectionRequest_ID :: u32 where "ConnectionRequest_ID = IDConnectionRequest"
definition ConnectionResponse_ID :: u32 where "ConnectionResponse_ID = IDConnectionResponse"
definition Flush_ID :: u32 where "Flush_ID = IDFlush"
definition Latency_ID :: u32 where "Latency_ID = IDLatency"
definition Transfer_ID :: u32 where "Transfer_ID = IDTransfer"
definition UpdateCache_ID :: u32 where "UpdateCache_ID = IDUpdateCache"

text \<open>\<^verbatim>\<open>ID\<close> of any packet; that of a vanilla packet is the library's.\<close>

definition pk_ID :: "mclib \<Rightarrow> packet \<Rightarrow> u32" where
  "pk_ID L pk =
     (case pk of
        ConnectionRequest _ _ _ _ _ \<Rightarrow> ConnectionRequest_ID
      | ConnectionResponse _ _ \<Rightarrow> ConnectionResponse_ID
      | Flush \<Rightarrow> Flush_ID
      | Latency _ _ \<Rightarrow> Latency_ID
      | Transfer _ \<Rightarrow> Transfer_ID
      | UpdateCache _ \<Rightarrow> UpdateCache_ID
      | _ \<Rightarrow> mc_ID L pk)"

subsection \<open>Marshalling\<close>

text \<open>One IO call after the other; a panic of the reader ends the sequence.\<close>

definition io_then :: "'a res \<times> bytes \<Rightarrow> ('a \<Rightarrow> bytes \<Rightarrow> 'b res \<times> bytes) \<Rightarrow> 'b res \<times> bytes" where
  "io_then rb f =
     (case rb of
        (Ok x, buf) \<Rightarrow> f x buf
      | (Err e, buf) \<Rightarrow> (Err e, buf)
      | (Panic m, buf) \<Rightarrow> (Panic m, buf))"

definition ConnectionRequest_Marshal ::
  "io \<Rightarrow> string \<Rightarrow> bytes \<Rightarrow> bytes \<Rightarrow> i32 \<Rightarrow> bytes \<Rightarrow> bytes \<Rightarrow> packet res \<times> bytes" where
  "ConnectionRequest_Marshal io addr cd idd pid cache buf =
     io_then (io_String io addr buf) (\<lambda>addr buf.
     io_then (io_ByteSlice io cd buf) (\<lambda>cd buf.
     io_then (io_ByteSlice io idd buf) (\<lambda>idd buf.
     io_then (io_Int32 io pid buf) (\<lambda>pid buf.
     io_then (io_ByteSlice io cache buf) (\<lambda>cache buf.
       (Ok (ConnectionRequest addr cd idd pid cache), buf))))))"

definition ConnectionResponse_Marshal :: "io \<Rightarrow> u64 \<Rightarrow> i64 \<Rightarrow> bytes \<Rightarrow> packet res \<times> bytes" where
  "ConnectionResponse_Marshal io rid uid buf =
     io_then (io_Varuint64 io rid buf) (\<lambda>rid buf.
     io_then (io_Varint64 io uid buf) (\<lambda>uid buf.
       (Ok (ConnectionResponse rid uid), buf)))"

definition Flush_Marshal :: "io \<Rightarrow> bytes \<Rightarrow> packet res \<times> bytes" where
  "Flush_Marshal io buf = (Ok Flush, buf)"

definition Latency_Marshal :: "io \<Rightarrow> i64 \<Rightarrow> i64 \<Rightarrow> bytes \<Rightarrow> packet res \<times> bytes" where
  "Latency_Marshal io lat ts buf =
     io_then (io_Int64 io lat buf) (\<lambda>lat buf.
     io_then (io_Int64 io ts buf) (\<lambda>ts buf.
       (Ok (Latency lat ts), buf)))"

definition Transfer_Marshal :: "io \<Rightarrow> string \<Rightarrow> bytes \<Rightarrow> packet res \<times> bytes" where
  "Transfer_Marshal io addr buf =
     io_then (io_String io addr buf) (\<lambda>addr buf. (Ok (Transfer addr), buf))"

definition UpdateCache_Marshal :: "io \<Rightarrow> bytes \<Rightarrow> bytes \<Rightarrow> packet res \<times> bytes" where
  "UpdateCache_Marshal io cache buf =
     io_then (io_ByteSlice io cache buf) (\<lambda>cache buf. (Ok (UpdateCache cache), buf))"

definition Marshal :: "mclib \<Rightarrow> io \<Rightarrow> packet \<Rightarrow> bytes \<Rightarrow> packet res \<times> bytes" where
  "Marshal L io pk buf =
     (case pk of
        ConnectionRequest addr cd idd pid cache \<Rightarrow> ConnectionRequest_Marshal io addr cd idd pid cache buf
      | ConnectionResponse rid uid \<Rightarrow> ConnectionResponse_Marshal io rid uid buf
      | Flush \<Rightarrow> Flush_Marshal io buf
      | Latency lat ts \<Rightarrow> Latency_Marshal io lat ts buf
      | Transfer addr \<Rightarrow> Transfer_Marshal io addr buf
      | UpdateCache cache \<Rightarrow> UpdateCache_Marshal io cache buf
      | _ \<Rightarrow> mc_Marshal L io pk buf)"

subsection \<open>Registered factories\<close>

text \<open>The packets registered for the two directions, as the zero values the factories return.\<close>

definition registered_from_client :: "u32 \<rightharpoonup> packet" where
  "registered_from_client =
     [IDConnectionRequest \<mapsto> ConnectionRequest [] [] [] 0 [], IDLatency \<mapsto> Latency 0 0]"

definition registered_from_server :: "u32 \<rightharpoonup> packet" where
  "registered_from_server =
     [IDConnectionResponse \<mapsto> ConnectionResponse 0 0, IDFlush \<mapsto> Flush, IDLatency \<mapsto> Latency 0 0,
      IDTransfer \<mapsto> Transfer [], IDUpdateCache \<mapsto> UpdateCache []]"

subsection \<open>Documented behaviour of the library\<close>

text \<open>A writer method and a reader method agree on the values that satisfy \<open>P\<close>.\<close>

definition field_codec ::
  "('a \<Rightarrow> bool) \<Rightarrow> ('a \<Rightarrow> bytes \<Rightarrow> 'a res \<times> bytes) \<Rightarrow> ('a \<Rightarrow> bytes \<Rightarrow> 'a res \<times> bytes) \<Rightarrow> bool" where
  "field_codec P wr rd \<longleftrightarrow>
     (\<forall>x. P x \<longrightarrow> (\<exists>e. (\<forall>buf. wr x buf = (Ok x, buf @ e)) \<and> (\<forall>y rest. rd y (e @ rest) = (Ok x, rest))))"

definition io_codec :: "io \<Rightarrow> io \<Rightarrow> bool" where
  "io_codec w r \<longleftrightarrow>
     field_codec (\<lambda>s. length s < 2 ^ 31) (io_String w) (io_String r) \<and>
     field_codec (\<lambda>s. length s < 2 ^ 31) (io_ByteSlice w) (io_ByteSlice r) \<and>
     field_codec (\<lambda>_. True) (io_Int32 w) (io_Int32 r) \<and>
     field_codec (\<lambda>_. True) (io_Int64 w) (io_Int64 r) \<and>
     field_codec (\<lambda>_. True) (io_Varuint64 w) (io_Varuint64 r) \<and>
     field_codec (\<lambda>_. True) (io_Varint64 w) (io_Varint64 r)"

subsection \<open>Specification\<close>

text \<open>The packets of this package, with fields that fit their length prefixes.\<close>

fun spectrum_packet :: "packet \<Rightarrow> bool" where
  "spectrum_packet (ConnectionRequest addr cd idd pid cache) =
     (length addr < 2 ^ 31 \<and> length cd < 2 ^ 31 \<and> length idd < 2 ^ 31 \<and> length cache < 2 ^ 31)"
| "spectrum_packet (ConnectionResponse _ _) = True"
| "spectrum_packet Flush = True"
| "spectrum_packet (Latency _ _) = True"
| "spectrum_packet (Transfer addr) = (length addr < 2 ^ 31)"
| "spectrum_packet (UpdateCache cache) = (length cache < 2 ^ 31)"
| "spectrum_packet _ = False"

text \<open>A packet that a server may send or a client may send, with the factory registered for it.\<close>

definition factory_of :: "packet \<Rightarrow> packet option" where
  "factory_of pk =
     (case pk of
        ConnectionRequest _ _ _ _ _ \<Rightarrow> registered_from_client IDConnectionRequest
      | ConnectionResponse _ _ \<Rightarrow> registered_from_server IDConnectionResponse
      | Flush \<Rightarrow> registered_from_server IDFlush
      | Latency _ _ \<Rightarrow> registered_from_server IDLatency
      | Transfer _ \<Rightarrow> registered_from_server IDTransfer
      | UpdateCache _ \<Rightarrow> registered_from_server IDUpdateCache
      | _ \<Rightarrow> None)"

section \<open>Lemmas\<close>

lemmas spectrum_id_defs = IDConnectionRequest_def IDConnectionResponse_def IDFlush_def
  IDLatency_def IDTransfer_def IDUpdateCache_def

lemmas spectrum_marshal_defs = ConnectionRequest_Marshal_def ConnectionResponse_Marshal_def
  Flush_Marshal_def Latency_Marshal_def Transfer_Marshal_def UpdateCache_Marshal_def

lemma io_then_simps [simp]:
  "io_then (Ok x, buf) f = f x buf"
  "io_then (Err e, buf) g = (Err e, buf)"
  "io_then (Panic m, buf) h = (Panic m, buf)"
  by (simp_all add: io_then_def)

lemma pk_ID_simps [simp]:
  "pk_ID L (ConnectionRequest a b c d e) = IDConnectionRequest"
  "pk_ID L (ConnectionResponse r u) = IDConnectionResponse"
  "pk_ID L Flush = IDFlush"
  "pk_ID L (Latency l t) = IDLatency"
  "pk_ID L (Transfer s) = IDTransfer"
  "pk_ID L (UpdateCache bs) = IDUpdateCache"
  "pk_ID L (StartGame sg) = mc_ID L (StartGame sg)"
  "pk_ID L (ItemRegistry its) = mc_ID L (ItemRegistry its)"
  "pk_ID L (ChunkRadiusUpdated rad) = mc_ID L (ChunkRadiusUpdated rad)"
  "pk_ID L (PlayStatus st) = mc_ID L (PlayStatus st)"
  by (simp_all add: pk_ID_def ConnectionRequest_ID_def ConnectionResponse_ID_def Flush_ID_def Latency_ID_def Transfer_ID_def
      UpdateCache_ID_def)

lemma registered_IDs:
  "registered_from_server i = Some pk \<Longrightarrow> pk_ID L pk = i"
  "registered_from_client i = Some pk \<Longrightarrow> pk_ID L pk = i"
  by (auto simp: registered_from_server_def registered_from_client_def split: if_splits)

lemma field_codecE:
  assumes "field_codec P wr rd" "P x"
  obtains e where "\<And>buf. wr x buf = (Ok x, buf @ e)" "\<And>y rest. rd y (e @ rest) = (Ok x, rest)"
  using assms unfolding field_codec_def by metis

lemma Marshal_ConnectionRequest_roundtrip:
  assumes "io_codec w r" "spectrum_packet (ConnectionRequest addr cd idd pid cache)"
  shows "\<exists>e. (\<forall>buf. ConnectionRequest_Marshal w addr cd idd pid cache buf
        = (Ok (ConnectionRequest addr cd idd pid cache), buf @ e)) \<and>
    (\<forall>rest. ConnectionRequest_Marshal r a b c d f (e @ rest)
        = (Ok (ConnectionRequest addr cd idd pid cache), rest))"
proof -
  have S: "field_codec (\<lambda>s. length s < 2 ^ 31) (io_String w) (io_String r)"
    and B: "field_codec (\<lambda>s. length s < 2 ^ 31) (io_ByteSlice w) (io_ByteSlice r)"
    and I: "field_codec (\<lambda>_. True) (io_Int32 w) (io_Int32 r)"
    using assms(1) by (simp_all add: io_codec_def)
  obtain e1 where 1: "\<And>buf. io_String w addr buf = (Ok addr, buf @ e1)"
    "\<And>y rest. io_String r y (e1 @ rest) = (Ok addr, rest)"
    using field_codecE [OF S, of addr] assms(2) by auto
  obtain e2 where 2: "\<And>buf. io_ByteSlice w cd buf = (Ok cd, buf @ e2)"
    "\<And>y rest. io_ByteSlice r y (e2 @ rest) = (Ok cd, rest)"
    using field_codecE [OF B, of cd] assms(2) by auto
  obtain e3 where 3: "\<And>buf. io_ByteSlice w idd buf = (Ok idd, buf @ e3)"
    "\<And>y rest. io_ByteSlice r y (e3 @ rest) = (Ok idd, rest)"
    using field_codecE [OF B, of idd] assms(2) by auto
  obtain e4 where 4: "\<And>buf. io_Int32 w pid buf = (Ok pid, buf @ e4)"
    "\<And>y rest. io_Int32 r y (e4 @ rest) = (Ok pid, rest)"
    using field_codecE [OF I, of pid] by auto
  obtain e5 where 5: "\<And>buf. io_ByteSlice w cache buf = (Ok cache, buf @ e5)"
    "\<And>y rest. io_ByteSlice r y (e5 @ rest) = (Ok cache, rest)"
    using field_codecE [OF B, of cache] assms(2) by auto
  show ?thesis
    by (rule exI [of _ "e1 @ e2 @ e3 @ e4 @ e5"])
       (simp add: ConnectionRequest_Marshal_def 1 2 3 4 5)
qed

lemma pair_codec:
  assumes "field_codec P w1 r1" "P x" "field_codec Q w2 r2" "Q y"
  obtains e where "\<And>buf. io_then (w1 x buf) (\<lambda>x buf. io_then (w2 y buf) (\<lambda>y buf. (Ok (f x y), buf)))
      = (Ok (f x y), buf @ e)"
    "\<And>x' y' rest. io_then (r1 x' (e @ rest)) (\<lambda>x buf. io_then (r2 y' buf) (\<lambda>y buf. (Ok (f x y), buf)))
      = (Ok (f x y), rest)"
proof -
  obtain e1 where "\<And>buf. w1 x buf = (Ok x, buf @ e1)" "\<And>y rest. r1 y (e1 @ rest) = (Ok x, rest)"
    using field_codecE [OF assms(1,2)] by metis
  moreover obtain e2 where "\<And>buf. w2 y buf = (Ok y, buf @ e2)" "\<And>z rest. r2 z (e2 @ rest) = (Ok y, rest)"
    using field_codecE [OF assms(3,4)] by metis
  ultimately show thesis
    by (intro that [of "e1 @ e2"]) simp_all
qed

lemma single_codec:
  assumes "field_codec P w1 r1" "P x"
  obtains e where "\<And>buf. io_then (w1 x buf) (\<lambda>x buf. (Ok (f x), buf)) = (Ok (f x), buf @ e)"
    "\<And>x' rest. io_then (r1 x' (e @ rest)) (\<lambda>x buf. (Ok (f x), buf)) = (Ok (f x), rest)"
  using field_codecE [OF assms] by (metis io_then_simps(1))

lemma Marshal_roundtrip:
  assumes "io_codec w r" "spectrum_packet pk" "factory_of pk = Some zero"
  shows "\<exists>e. (\<forall>buf. Marshal L w pk buf = (Ok pk, buf @ e)) \<and>
    (\<forall>rest. Marshal L r zero (e @ rest) = (Ok pk, rest))"
proof (cases pk)
  case (ConnectionRequest addr cd idd pid cache)
  then show ?thesis
    using assms Marshal_ConnectionRequest_roundtrip [OF assms(1), of addr cd idd pid cache "[]" "[]" "[]" 0 "[]"]
    by (auto simp: Marshal_def factory_of_def registered_from_client_def spectrum_id_defs)
next
  case (ConnectionResponse rid uid)
  obtain e where "\<And>buf. ConnectionResponse_Marshal w rid uid buf = (Ok pk, buf @ e)"
    "\<And>a b rest. ConnectionResponse_Marshal r a b (e @ rest) = (Ok pk, rest)"
    using pair_codec [of "\<lambda>_. True" "io_Varuint64 w" "io_Varuint64 r" rid "\<lambda>_. True" "io_Varint64 w"
        "io_Varint64 r" uid ConnectionResponse] assms(1) ConnectionResponse
    by (auto simp: ConnectionResponse_Marshal_def io_codec_def)
  with assms ConnectionResponse show ?thesis
    by (auto simp: Marshal_def factory_of_def registered_from_server_def spectrum_id_defs)
next
  case Flush
  with assms show ?thesis
    by (auto simp: Marshal_def factory_of_def registered_from_server_def spectrum_id_defs Flush_Marshal_def)
next
  case (Latency lat ts)
  obtain e where "\<And>buf. Latency_Marshal w lat ts buf = (Ok pk, buf @ e)"
    "\<And>a b rest. Latency_Marshal r a b (e @ rest) = (Ok pk, rest)"
    using pair_codec [of "\<lambda>_. True" "io_Int64 w" "io_Int64 r" lat "\<lambda>_. True" "io_Int64 w"
        "io_Int64 r" ts Latency] assms(1) Latency
    by (auto simp: Latency_Marshal_def io_codec_def)
  with assms Latency show ?thesis
    by (auto simp: Marshal_def factory_of_def registered_from_server_def spectrum_id_defs)
next
  case (Transfer addr)
  obtain e where "\<And>buf. Transfer_Marshal w addr buf = (Ok pk, buf @ e)"
    "\<And>a rest. Transfer_Marshal r a (e @ rest) = (Ok pk, rest)"
    using single_codec [of "\<lambda>s. length s < 2 ^ 31" "io_String w" "io_String r" addr Transfer] assms(1,2) Transfer
    by (auto simp: Transfer_Marshal_def io_codec_def)
  with assms Transfer show ?thesis
    by (auto simp: Marshal_def factory_of_def registered_from_server_def spectrum_id_defs)
next
  case (UpdateCache cache)
  obtain e where "\<And>buf. UpdateCache_Marshal w cache buf = (Ok pk, buf @ e)"
    "\<And>a rest. UpdateCache_Marshal r a (e @ rest) = (Ok pk, rest)"
    using single_codec [of "\<lambda>s. length s < 2 ^ 31" "io_ByteSlice w" "io_ByteSlice r" cache UpdateCache]
      assms(1,2) UpdateCache
    by (auto simp: UpdateCache_Marshal_def io_codec_def)
  with assms UpdateCache show ?thesis
    by (auto simp: Marshal_def factory_of_def registered_from_server_def spectrum_id_defs)
qed (use assms in \<open>simp_all add: factory_of_def\<close>)

end
