(* ===== verification/Framing.thy ===== *)
theory Framing
  imports Prelude
begin

text \<open>
  The frame format of \<^verbatim>\<open>protocol/reader.go\<close> and \<^verbatim>\<open>protocol/writer.go\<close>, used by the API service
  and by the connections to downstream servers: a payload is preceded by its length as a
  big-endian \<^verbatim>\<open>uint32\<close>. The writer keeps two reusable header slices; both of its operations run
  under its mutex, so one call is one step.
\<close>

section \<open>Definitions\<close>

subsection \<open>Reader\<close>

text \<open>A \<^verbatim>\<open>Reader\<close> holds nothing but its source.\<close>

definition NewReader :: "stream \<Rightarrow> stream" where
  "NewReader r = r"

definition Reader_ReadPacket :: "stream \<Rightarrow> bytes res \<times> stream" where
  "Reader_ReadPacket s =
     (case binary_Read_be32 s of
        (Err e, s1) \<Rightarrow> (Err (Wrapf ''failed to read packet length'' e), s1)
      | (Panic m, s1) \<Rightarrow> (Panic m, s1)
      | (Ok len, s1) \<Rightarrow>
          (case ReadFull (unat len) s1 of
             (Err e, s2) \<Rightarrow> (Err (Wrapf ''failed to read packet data'' e), s2)
           | (Panic m, s2) \<Rightarrow> (Panic m, s2)
           | (Ok pk, s2) \<Rightarrow> (Ok pk, s2)))"

subsection \<open>Writer\<close>

record writer =
  w_w :: sink
  w_p :: bytes
  w_pwf :: bytes

definition NewWriter :: "sink \<Rightarrow> writer" where
  "NewWriter k = \<lparr>w_w = k, w_p = replicate 4 0, w_pwf = replicate 5 0\<rparr>"

text \<open>Two consecutive writes to the sink, the second only if the first succeeded.\<close>

definition write_two :: "bytes \<Rightarrow> bytes \<Rightarrow> writer \<Rightarrow> unit res \<times> writer" where
  "write_two hd_bytes data w =
     (case sink_Write hd_bytes (w_w w) of
        (Some e, k) \<Rightarrow> (Err e, w\<lparr>w_w := k\<rparr>)
      | (None, k) \<Rightarrow>
          (case sink_Write data k of
             (Some e, k') \<Rightarrow> (Err e, w\<lparr>w_w := k'\<rparr>)
           | (None, k') \<Rightarrow> (Ok (), w\<lparr>w_w := k'\<rparr>)))"

definition Writer_Write :: "bytes \<Rightarrow> writer \<Rightarrow> unit res \<times> writer" where
  "Writer_Write data w =
     (case PutUint32_be (w_p w) (word_of_nat (length data)) of
        Ok p \<Rightarrow> write_two p data (w\<lparr>w_p := p\<rparr>)
      | Err e \<Rightarrow> (Err e, w)
      | Panic m \<Rightarrow> (Panic m, w))"

definition Writer_WriteWithFlags :: "byte \<Rightarrow> bytes \<Rightarrow> writer \<Rightarrow> unit res \<times> writer" where
  "Writer_WriteWithFlags flags data w =
     (case PutUint32_be (w_pwf w) (word_of_nat (length data + 1)) of
        Ok q \<Rightarrow>
          (if 4 < length q
           then (let q' = q[4 := flags] in write_two q' data (w\<lparr>w_pwf := q'\<rparr>))
           else (Panic ''index out of range'', w\<lparr>w_pwf := q\<rparr>))
      | Err e \<Rightarrow> (Err e, w)
      | Panic m \<Rightarrow> (Panic m, w))"

subsection \<open>Specification of the wire format\<close>

text \<open>The bytes of one frame, as the protocol documents them.\<close>

definition frame :: "bytes \<Rightarrow> bytes" where
  "frame data = be32 (word_of_nat (length data)) @ data"

text \<open>The header slices keep the lengths \<^verbatim>\<open>NewWriter\<close> gave them.\<close>

definition writer_wf :: "writer \<Rightarrow> bool" where
  "writer_wf w \<longleftrightarrow> length (w_p w) = 4 \<and> length (w_pwf w) = 5"

text \<open>A run of writes; the first error ends it.\<close>

fun write_all :: "bytes list \<Rightarrow> writer \<Rightarrow> unit res \<times> writer" where
  "write_all [] w = (Ok (), w)"
| "write_all (d # ds) w =
     (case Writer_Write d w of
        (Ok u, w') \<Rightarrow> write_all ds w'
      | (Err e, w') \<Rightarrow> (Err e, w')
      | (Panic m, w') \<Rightarrow> (Panic m, w'))"

section \<open>Lemmas\<close>

lemma length_frame [wire_simps, simp]: "length (frame d) = 4 + length d"
  by (simp add: frame_def)

lemma writer_wf_NewWriter [simp]: "writer_wf (NewWriter k)"
  by (simp add: writer_wf_def NewWriter_def)

lemma write_two_frames [simp]:
  "w_p (snd (write_two h d w)) = w_p w" "w_pwf (snd (write_two h d w)) = w_pwf w"
  by (simp_all add: write_two_def split: prod.splits option.splits)

lemma write_two_prefix:
  assumes "write_two h d w = (r, w')"
  obtains q t where "h @ d = q @ t" "k_out (w_w w') = k_out (w_w w) @ q" "r = Ok () \<longrightarrow> t = []"
    "\<And>m. r \<noteq> Panic m"
proof -
  obtain r1 k1 where 1: "sink_Write h (w_w w) = (r1, k1)" by fastforce
  obtain r2 k2 where 2: "sink_Write d k1 = (r2, k2)" by fastforce
  from sink_Write_prefix [OF 1] obtain q1 t1 where
    q1: "h = q1 @ t1" "k_out k1 = k_out (w_w w) @ q1" "r1 = None \<longrightarrow> t1 = []" by blast
  from sink_Write_prefix [OF 2] obtain q2 t2 where
    q2: "d = q2 @ t2" "k_out k2 = k_out k1 @ q2" "r2 = None \<longrightarrow> t2 = []" by blast
  show thesis
  proof (cases r1)
    case None
    then show ?thesis
      using assms 1 2 q1 q2 that [of "q1 @ q2" t2]
      by (auto simp: write_two_def split: option.splits)
  next
    case (Some e)
    then show ?thesis
      using assms 1 q1 that [of q1 "t1 @ d"] by (auto simp: write_two_def)
  qed
qed

lemma PutUint32_be_wf [wire_simps]:
  "length b = 4 \<Longrightarrow> PutUint32_be b v = Ok (be32 v)"
  "length b = 5 \<Longrightarrow> PutUint32_be b v = Ok (be32 v @ [b ! 4])"
  by (auto simp: PutUint32_be_def numeral_eq_Suc length_Suc_conv)

lemma Writer_Write_wf [wire_simps]:
  "writer_wf w \<Longrightarrow>
   Writer_Write d w = (let h = be32 (word_of_nat (length d)) in write_two h d (w\<lparr>w_p := h\<rparr>))"
  by (simp add: Writer_Write_def writer_wf_def wire_simps Let_def)

lemma Writer_WriteWithFlags_wf [wire_simps]:
  "writer_wf w \<Longrightarrow>
   Writer_WriteWithFlags f d w =
     (let h = be32 (word_of_nat (length d + 1)) @ [f] in write_two h d (w\<lparr>w_pwf := h\<rparr>))"
  by (simp add: Writer_WriteWithFlags_def writer_wf_def PutUint32_be_wf Let_def list_update_append)

lemma writer_wf_Write [simp]:
  assumes "writer_wf w"
  shows "writer_wf (snd (Writer_Write d w))" "writer_wf (snd (Writer_WriteWithFlags f d w))"
  using assms
  by (simp_all add: Writer_Write_wf Writer_WriteWithFlags_wf Let_def, simp_all add: writer_wf_def)

text \<open>On a sink without faults both operations append exactly one frame.\<close>

lemma Writer_Write_clean:
  assumes "writer_wf w" "k_faults (w_w w) = []" "Writer_Write d w = (r, w')"
  shows "r = Ok () \<and> w_w w' = (w_w w)\<lparr>k_out := k_out (w_w w) @ frame d\<rparr> \<and> writer_wf w'"
  using assms writer_wf_Write(1) [OF assms(1), of d]
  by (auto simp: Writer_Write_wf Let_def write_two_def sink_Write_clean frame_def)

lemma Writer_WriteWithFlags_clean:
  assumes "writer_wf w" "k_faults (w_w w) = []" "Writer_WriteWithFlags f d w = (r, w')"
  shows "r = Ok () \<and> w_w w' = (w_w w)\<lparr>k_out := k_out (w_w w) @ frame (f # d)\<rparr> \<and> writer_wf w'"
  using assms writer_wf_Write(2) [OF assms(1), of f d]
  by (auto simp: Writer_WriteWithFlags_wf Let_def write_two_def sink_Write_clean frame_def)

lemma write_all_clean:
  "writer_wf w \<Longrightarrow> k_faults (w_w w) = [] \<Longrightarrow>
   \<exists>w'. write_all ds w = (Ok (), w') \<and> k_out (w_w w') = k_out (w_w w) @ concat (map frame ds)"
proof (induction ds arbitrary: w)
  case (Cons d ds)
  obtain r w1 where w1: "Writer_Write d w = (r, w1)" by fastforce
  from Writer_Write_clean [OF Cons.prems w1] Cons.IH [of w1] Cons.prems w1 show ?case
    by auto
qed simp

text \<open>The frame format is a self-delimiting code for payloads below 4 GiB.\<close>

interpretation frames: stream_code frame Reader_ReadPacket "\<lambda>d. length d < 2 ^ 32"
  by unfold_locales (simp add: Reader_ReadPacket_def frame_def wire_simps)

lemma Reader_ReadPacket_short:
  assumes "length (s_data s) < 4"
  shows "Reader_ReadPacket s =
    (Err (Wrapf ''failed to read packet length''
       (if s_data s \<noteq> [] \<and> s_end s = EOF then ErrUnexpectedEOF else s_end s)), s\<lparr>s_data := []\<rparr>)"
  using assms by (simp add: Reader_ReadPacket_def binary_Read_be32_def ReadFull_def)

lemma Reader_ReadPacket_header:
  assumes "4 \<le> length (s_data s)"
  defines "n \<equiv> unat (from_be32 (take 4 (s_data s)))" and "body \<equiv> drop 4 (s_data s)"
  shows "Reader_ReadPacket s =
    (if n \<le> length body then (Ok (take n body), s\<lparr>s_data := drop n body\<rparr>)
     else (Err (Wrapf ''failed to read packet data''
       (if body \<noteq> [] \<and> s_end s = EOF then ErrUnexpectedEOF else s_end s)), s\<lparr>s_data := []\<rparr>))"
  using assms by (simp add: Reader_ReadPacket_def binary_Read_be32_def ReadFull_def)

lemma Reader_ReadPacket_no_panic [simp]: "Reader_ReadPacket s \<noteq> (Panic m, s')"
  by (cases "length (s_data s) < 4") (simp_all add: Reader_ReadPacket_short Reader_ReadPacket_header)

text \<open>Every successful read consumes at least the four bytes of the header.\<close>

lemma Reader_ReadPacket_consumes:
  "Reader_ReadPacket s = (Ok pk, s') \<Longrightarrow>
   length (s_data s) = 4 + length pk + length (s_data s') \<and> s_end s' = s_end s"
  by (cases "length (s_data s) < 4")
     (auto simp: Reader_ReadPacket_short Reader_ReadPacket_header split: if_splits)

lemma Reader_ReadPacket_Err_drains:
  "Reader_ReadPacket s = (Err err, s') \<Longrightarrow> s_data s' = [] \<and> s_end s' = s_end s"
  by (cases "length (s_data s) < 4")
     (auto simp: Reader_ReadPacket_short Reader_ReadPacket_header split: if_splits)

section \<open>Properties\<close>

text \<open>
  C14. Whatever payloads below 4 GiB are written one after the other through a fresh writer
  over a sink without faults, every write succeeds, and a reader on the resulting bytes returns
  exactly those payloads, in order, and stops exactly at the bytes that follow them.
\<close>

theorem frames_roundtrip:
  assumes "list_all (\<lambda>d. length d < 2 ^ 32) ds"
  shows "\<exists>w. write_all ds (NewWriter \<lparr>k_out = [], k_faults = []\<rparr>) = (Ok (), w) \<and>
    read_many Reader_ReadPacket (length ds) \<lparr>s_data = k_out (w_w w) @ rest, s_end = e\<rparr>
      = (Ok ds, \<lparr>s_data = rest, s_end = e\<rparr>)"
proof -
  let ?w = "NewWriter \<lparr>k_out = [], k_faults = []\<rparr>"
  obtain w where "write_all ds ?w = (Ok (), w)" "k_out (w_w w) = concat (map frame ds)"
    using write_all_clean [of ?w ds] by (auto simp: NewWriter_def writer_wf_def)
  with frames.read_many_enc [OF assms, of rest e] show ?thesis
    by auto
qed

theorem frames_roundtrip_witness:
  "\<exists>w. write_all [[1, 2, 3], [], [255]] (NewWriter \<lparr>k_out = [], k_faults = []\<rparr>) = (Ok (), w) \<and>
    read_many Reader_ReadPacket 3 \<lparr>s_data = k_out (w_w w) @ [9], s_end = EOF\<rparr>
      = (Ok [[1, 2, 3], [], [255]], \<lparr>s_data = [9], s_end = EOF\<rparr>)"
  using frames_roundtrip [of "[[1, 2, 3], [], [255]]" "[9]" EOF] by (simp add: numeral_3_eq_3)

text \<open>
  C27. Under any script of write faults, \<^verbatim>\<open>Write\<close> never panics, always delivers a prefix of the
  frame and nothing else, delivers the whole frame when it reports success, and keeps the header
  slices at their sizes, whatever stale contents they had.
\<close>

theorem Write_delivers_prefix:
  assumes "writer_wf w" "Writer_Write d w = (r, w')"
  shows "(\<exists>q t. frame d = q @ t \<and> k_out (w_w w') = k_out (w_w w) @ q \<and> (r = Ok () \<longrightarrow> t = []))
    \<and> (\<forall>m. r \<noteq> Panic m) \<and> writer_wf w'"
proof -
  have "writer_wf w'"
    using writer_wf_Write(1) [OF assms(1), of d] assms(2) by simp
  moreover have "write_two (be32 (word_of_nat (length d))) d
      (w\<lparr>w_p := be32 (word_of_nat (length d))\<rparr>) = (r, w')"
    using assms by (simp add: Writer_Write_wf Let_def)
  then obtain q t where "be32 (word_of_nat (length d)) @ d = q @ t"
    "k_out (w_w w') = k_out (w_w w) @ q" "r = Ok () \<longrightarrow> t = []" "\<And>m. r \<noteq> Panic m"
    by (rule write_two_prefix) auto
  ultimately show ?thesis
    by (auto simp: frame_def)
qed

theorem Write_delivers_prefix_witness:
  "\<exists>w'. Writer_Write [7, 8] \<lparr>w_w = \<lparr>k_out = [], k_faults = [None, Some (1, EOF)]\<rparr>,
       w_p = [9, 9, 9, 9], w_pwf = [1, 2, 3, 4, 5]\<rparr> = (Err EOF, w') \<and>
     k_out (w_w w') = [0, 0, 0, 2, 7] \<and> writer_wf w'"
proof -
  let ?w = "\<lparr>w_w = \<lparr>k_out = [], k_faults = [None, Some (1, EOF)]\<rparr>, w_p = [9, 9, 9, 9],
     w_pwf = [1, 2, 3, 4, 5]\<rparr>"
  have wf: "writer_wf ?w" by (simp add: writer_wf_def)
  obtain r w' where w': "Writer_Write [7, 8] ?w = (r, w')" by fastforce
  from w' wf have "r = Err EOF" "k_out (w_w w') = [0, 0, 0, 2, 7]"
    by (auto simp: Writer_Write_wf Let_def write_two_def sink_Write.simps be32_def)
  moreover have "writer_wf w'" using Write_delivers_prefix [OF wf w'] by blast
  ultimately show ?thesis using w' by blast
qed



text \<open>
  The length field is the payload length modulo $2^{32}$: of a longer payload the reader
  returns only a prefix and is left in the middle of the payload, so that the remaining payload
  bytes are taken for the next frame.
\<close>

lemma long_payload_desynchronises:
  assumes "2 ^ 32 \<le> length d"
  shows "Reader_ReadPacket \<lparr>s_data = frame d @ rest, s_end = e\<rparr> =
      (Ok (take (length d mod 2 ^ 32) d), \<lparr>s_data = drop (length d mod 2 ^ 32) d @ rest, s_end = e\<rparr>)
    \<and> drop (length d mod 2 ^ 32) d \<noteq> []"
proof -
  have "length d mod 2 ^ 32 < length d"
    using assms by (meson mod_less_divisor order_less_le_trans zero_less_numeral zero_less_power)
  then show ?thesis
    by (simp add: Reader_ReadPacket_header frame_def unat_of_nat)
qed

lemma long_payload_desynchronises_witness:
  "Reader_ReadPacket \<lparr>s_data = frame (replicate (2 ^ 32) 7), s_end = EOF\<rparr> =
    (Ok [], \<lparr>s_data = replicate (2 ^ 32) 7, s_end = EOF\<rparr>)"
proof -
  have "2 ^ 32 \<le> length (replicate (2 ^ 32) (7::byte))"
    unfolding length_replicate by (rule order_refl)
  from long_payload_desynchronises [OF this, of "[]" EOF] show ?thesis
    unfolding length_replicate mod_self by simp
qed

text \<open>
  On a source that ends with \<^verbatim>\<open>io.EOF\<close>, a failed \<^verbatim>\<open>ReadPacket\<close> has consumed everything, and
  its error matches \<^verbatim>\<open>io.EOF\<close> exactly when the source ended between two frames or right after
  a frame header: every other truncation is reported as an unexpected end.
\<close>

lemma ReadPacket_EOF_exact:
  assumes "s_end s = EOF" "Reader_ReadPacket s = (Err err, s')"
  shows "s_data s' = [] \<and> (errors_Is err EOF \<longleftrightarrow> s_data s = [] \<or> length (s_data s) = 4)"
proof (cases "length (s_data s) < 4")
  case True
  with assms show ?thesis
    by (auto simp: Reader_ReadPacket_short split: if_splits)
next
  case False
  with assms show ?thesis
    by (auto simp: Reader_ReadPacket_header split: if_splits)
qed

lemma ReadPacket_EOF_exact_witness:
  "\<exists>err s'. Reader_ReadPacket \<lparr>s_data = [0, 0, 0, 3, 1], s_end = EOF\<rparr> = (Err err, s') \<and>
    \<not> errors_Is err EOF \<and> s_data s' = []"
proof -
  have "Reader_ReadPacket \<lparr>s_data = [0, 0, 0, 3, 1], s_end = EOF\<rparr> =
    (Err (Wrapf ''failed to read packet data'' ErrUnexpectedEOF), \<lparr>s_data = [], s_end = EOF\<rparr>)"
    by (simp add: Reader_ReadPacket_def binary_Read_be32_def ReadFull_def)
  from ReadPacket_EOF_exact [OF _ this] this show ?thesis by fastforce
qed

end
