(* ===== verification/Server_Conn.thy ===== *)
theory Server_Conn
  imports Server_Packet Framing "HOL-Library.Sublist"
begin

text \<open>
  The connection to a downstream server (\<^verbatim>\<open>server/conn.go\<close>): packet encoding with optional
  compression, batches, the connection sequence with its deferred packets, and closing. A
  \<^verbatim>\<open>Conn\<close> is the record \<open>conn\<close>; a channel that is only ever closed is a flag, a cancelled context
  is its cause. The function stored by \<^verbatim>\<open>OnConnect\<close> belongs to the session: it is a value of type
  \<open>'cb\<close>, and \<open>run :: 'cb \<Rightarrow> \<dots>\<close> executes it on the connection and on everything outside
  it (\<open>'w glob_scheme\<close>). The outside contains the header pool, shared by all connections. The
  buffers of \<^verbatim>\<open>bufferPool\<close> and \<^verbatim>\<open>batchPool\<close> are reset before every \<^verbatim>\<open>Put\<close>, so a \<^verbatim>\<open>Get\<close> is an
  empty buffer.
\<close>

section \<open>Definitions\<close>

subsection \<open>Constants and state\<close>

definition flagPacketDecode :: byte where "flagPacketDecode = push_bit 0 1"
definition flagPacketCompressed :: byte where "flagPacketCompressed = push_bit 1 1"
definition flagPacketIsBatch :: byte where "flagPacketIsBatch = push_bit 2 1"
definition compressionThreshold :: nat where "compressionThreshold = 256"

text \<open>What the connection asks of the client's \<^verbatim>\<open>minecraft.Conn\<close>; JSON encoding may fail.\<close>

record client_info =
  ci_ClientData :: "bytes res"
  ci_IdentityData :: "bytes res"
  ci_RemoteAddr :: string
  ci_CacheEnabled :: bool
  ci_Proto :: proto

record 'cb conn =
  c_ctx :: "go_error option"
  c_closed :: bool
  c_client :: client_info
  c_reader :: stream
  c_writer :: writer
  c_runtimeID :: u64
  c_uniqueID :: i64
  c_syncProtocol :: bool
  c_cache :: bytes
  c_gameData :: game_data
  c_shieldID :: i32
  c_protocol :: proto
  c_pool :: "u32 \<rightharpoonup> packet"
  c_deferred :: "any list"
  c_expectedIds :: "u32 list"
  c_onConnect :: "'cb option"
  c_connected :: bool
  c_spawned :: bool
  c_once :: bool

text \<open>The pool of packet headers, shared by every connection of the process.\<close>

record glob =
  headerPool :: "header list"

definition headerPool_Get :: "'w glob_scheme \<Rightarrow> header \<times> 'w glob_scheme" where
  "headerPool_Get g =
     (case headerPool g of [] \<Rightarrow> (zero_header, g) | h # hs \<Rightarrow> (h, g\<lparr>headerPool := hs\<rparr>))"

definition headerPool_Put :: "header \<Rightarrow> 'w glob_scheme \<Rightarrow> 'w glob_scheme" where
  "headerPool_Put h g = g\<lparr>headerPool := h # headerPool g\<rparr>"

definition expect :: "u32 list \<Rightarrow> 'cb conn \<Rightarrow> 'cb conn" where
  "expect ids c = c\<lparr>c_expectedIds := ids\<rparr>"

definition deferPacket :: "any \<Rightarrow> 'cb conn \<Rightarrow> 'cb conn" where
  "deferPacket pk c = c\<lparr>c_deferred := c_deferred c @ [pk]\<rparr>"

definition NewConn ::
  "mclib \<Rightarrow> stream \<times> sink \<Rightarrow> client_info \<Rightarrow> bool \<Rightarrow> bytes \<Rightarrow> 'cb conn" where
  "NewConn L io client sync cache =
     (let proto = (if sync then ci_Proto client else mc_DefaultProtocol L)
      in expect [IDConnectionResponse]
        \<lparr>c_ctx = None, c_closed = False, c_client = client,
         c_reader = fst io, c_writer = NewWriter (snd io),
         c_runtimeID = 0, c_uniqueID = 0, c_syncProtocol = sync, c_cache = cache,
         c_gameData = zero_game_data, c_shieldID = 0, c_protocol = proto,
         c_pool = proto_Packets proto False, c_deferred = [], c_expectedIds = [],
         c_onConnect = None, c_connected = False, c_spawned = False, c_once = False\<rparr>)"

subsection \<open>Writing\<close>

text \<open>A frame with the given flags, compressed above the threshold.\<close>

definition write_compressing ::
  "mclib \<Rightarrow> byte \<Rightarrow> bytes \<Rightarrow> 'cb conn \<Rightarrow> unit res \<times> 'cb conn" where
  "write_compressing L flags b c =
     (let (r, w) =
        (if compressionThreshold < length b
         then Writer_WriteWithFlags (flagPacketCompressed OR flags) (snappy_Encode L b) (c_writer c)
         else Writer_WriteWithFlags flags b (c_writer c))
      in (r, c\<lparr>c_writer := w\<rparr>))"

text \<open>The batch buffer: every payload after its length in four little-endian bytes.\<close>

fun batch_buffer :: "bytes list \<Rightarrow> bytes" where
  "batch_buffer [] = []"
| "batch_buffer (p # ps) = le32 (word_of_nat (length p)) @ p @ batch_buffer ps"

definition WriteBatch :: "mclib \<Rightarrow> bytes list \<Rightarrow> 'cb conn \<Rightarrow> unit res \<times> 'cb conn" where
  "WriteBatch L payloads c =
     (case c_ctx c of
        Some e \<Rightarrow> (Err e, c)
      | None \<Rightarrow>
          (if payloads = [] then (Ok (), c)
           else write_compressing L flagPacketIsBatch (batch_buffer payloads) c))"

definition WritePacket ::
  "mclib \<Rightarrow> packet \<Rightarrow> 'w glob_scheme \<times> 'cb conn \<Rightarrow> unit res \<times> 'w glob_scheme \<times> 'cb conn" where
  "WritePacket L pk gc =
     (let (g, c) = gc in
      case c_ctx c of
        Some e \<Rightarrow> (Err e, g, c)
      | None \<Rightarrow>
          (let (h, g1) = headerPool_Get g;
               h' = h\<lparr>h_PacketID := pk_ID L pk\<rparr>;
               g2 = headerPool_Put h' g1
           in case Marshal L (proto_NewWriter (c_protocol c) (c_shieldID c)) pk (mc_HeaderWrite L h') of
                (Ok _, b) \<Rightarrow> (let (r, c1) = write_compressing L 0 b c in (r, g2, c1))
              | (Err e, b) \<Rightarrow> (Err e, g2, c)
              | (Panic m, b) \<Rightarrow> (Panic m, g2, c)))"

definition Conn_Write :: "mclib \<Rightarrow> bytes \<Rightarrow> 'cb conn \<Rightarrow> (nat \<times> unit res) \<times> 'cb conn" where
  "Conn_Write L p c = (let (r, c1) = write_compressing L 0 p c in ((length p, r), c1))"

definition DoConnect ::
  "mclib \<Rightarrow> 'w glob_scheme \<times> 'cb conn \<Rightarrow> unit res \<times> 'w glob_scheme \<times> 'cb conn" where
  "DoConnect L gc =
     (let (g, c) = gc in
      case c_ctx c of
        Some e \<Rightarrow> (Err e, g, c)
      | None \<Rightarrow>
          (case ci_ClientData (c_client c) of
             Err e \<Rightarrow> (Err e, g, c)
           | Panic m \<Rightarrow> (Panic m, g, c)
           | Ok clientData \<Rightarrow>
               (case ci_IdentityData (c_client c) of
                  Err e \<Rightarrow> (Err e, g, c)
                | Panic m \<Rightarrow> (Panic m, g, c)
                | Ok identityData \<Rightarrow>
                    WritePacket L (ConnectionRequest (ci_RemoteAddr (c_client c)) clientData
                      identityData (proto_ID (c_protocol c)) (c_cache c)) (g, c))))"

definition OnConnect :: "'cb \<Rightarrow> 'cb conn \<Rightarrow> 'cb conn" where
  "OnConnect f c = c\<lparr>c_onConnect := Some f\<rparr>"

text \<open>
  \<^verbatim>\<open>WaitConnect\<close> selects among the ready channels: the list of its possible results, empty while
  it blocks. \<open>None\<close> is success; \<open>ctx\<close> is the cause of the caller's context, if it is done.
\<close>

definition WaitConnect :: "go_error option \<Rightarrow> 'cb conn \<Rightarrow> go_error option list" where
  "WaitConnect ctx c =
     (case c_ctx c of Some e \<Rightarrow> [Some e] | None \<Rightarrow> []) @
     (case ctx of Some e \<Rightarrow> [Some e] | None \<Rightarrow> []) @
     (if c_connected c then [None] else [])"

definition DoSpawn ::
  "mclib \<Rightarrow> 'w glob_scheme \<times> 'cb conn \<Rightarrow> unit res \<times> 'w glob_scheme \<times> 'cb conn" where
  "DoSpawn L gc =
     (let (g, c) = gc in
      case c_ctx c of
        Some e \<Rightarrow> (Err e, g, c)
      | None \<Rightarrow>
          (if c_spawned c then (Panic ''close of closed channel'', g, c)
           else (case WritePacket L (ClientCacheStatus (ci_CacheEnabled (c_client c)))
                        (g, c\<lparr>c_spawned := True\<rparr>) of
                   (Ok _, g1, c1) \<Rightarrow>
                     WritePacket L (SetLocalPlayerAsInitialised (c_runtimeID c1)) (g1, c1)
                 | r \<Rightarrow> r)))"

subsection \<open>Accessors\<close>

definition Conn_GameData :: "'cb conn \<Rightarrow> game_data" where
  "Conn_GameData c = c_gameData c"

definition Conn_ShieldID :: "'cb conn \<Rightarrow> i32" where
  "Conn_ShieldID c = c_shieldID c"

text \<open>Of a context only its cause is visible.\<close>

definition Conn_Context :: "'cb conn \<Rightarrow> go_error option" where
  "Conn_Context c = c_ctx c"

subsection \<open>Closing\<close>

definition CloseWithError ::
  "('cb \<Rightarrow> go_error option \<Rightarrow> 'w glob_scheme \<times> 'cb conn \<Rightarrow> unit res \<times> 'w glob_scheme \<times> 'cb conn) \<Rightarrow>
   go_error \<Rightarrow> 'w glob_scheme \<times> 'cb conn \<Rightarrow> unit res \<times> 'w glob_scheme \<times> 'cb conn" where
  "CloseWithError run err gc =
     (let (g, c) = gc in
      if c_once c then (Ok (), g, c)
      else
        (let finish = (\<lambda>g1 c1. (Ok (), g1, c1\<lparr>c_ctx := (case c_ctx c1 of None \<Rightarrow> Some err | Some e \<Rightarrow> Some e),
                                             c_closed := True\<rparr>));
             c0 = c\<lparr>c_once := True\<rparr>
         in if c_connected c then finish g c0
            else (case c_onConnect c of
                    None \<Rightarrow> finish g c0
                  | Some f \<Rightarrow>
                      (case run f (Some err) (g, c0) of
                         (Panic m, g1, c1) \<Rightarrow> (Panic m, g1, c1)
                       | (_, g1, c1) \<Rightarrow> finish g1 c1))))"

definition Conn_Close ::
  "('cb \<Rightarrow> go_error option \<Rightarrow> 'w glob_scheme \<times> 'cb conn \<Rightarrow> unit res \<times> 'w glob_scheme \<times> 'cb conn) \<Rightarrow>
   'w glob_scheme \<times> 'cb conn \<Rightarrow> unit res \<times> 'w glob_scheme \<times> 'cb conn" where
  "Conn_Close run gc = CloseWithError run (ErrorString ''closed by application'') gc"

subsection \<open>Reading\<close>

text \<open>
  \<^verbatim>\<open>read\<close>: a frame, its flag byte (indexing an empty frame panics, before the deferred recovery is
  installed), decompression, and, if the flag asks for it, header and packet, with panics of the
  decoder recovered.
\<close>

definition decode_server_packet ::
  "mclib \<Rightarrow> bytes \<Rightarrow> 'w glob_scheme \<times> 'cb conn \<Rightarrow> any res \<times> 'w glob_scheme \<times> 'cb conn" where
  "decode_server_packet L decompressed gc =
     (let (g, c) = gc; (h, g1) = headerPool_Get g in
      case mc_HeaderRead L h decompressed of
        (Err e, h', _) \<Rightarrow> (Err e, headerPool_Put h' g1, c)
      | (Panic m, h', _) \<Rightarrow> (Err (Recovered (''panic while decoding packet '' @ show_int (uint (h_PacketID h'))) m), headerPool_Put h' g1, c)
      | (Ok _, h', b) \<Rightarrow>
          (case c_pool c (h_PacketID h') of
             None \<Rightarrow> (Err (Errorf1 ''unknown packet ID '' (uint (h_PacketID h'))), headerPool_Put h' g1, c)
           | Some pk \<Rightarrow>
               (case Marshal L (proto_NewReader (c_protocol c) (c_shieldID c) False) pk b of
                  (Ok pk', _) \<Rightarrow> (Ok (Pk pk'), headerPool_Put h' g1, c)
                | (Err e, _) \<Rightarrow> (Err e, headerPool_Put h' g1, c)
                | (Panic m, _) \<Rightarrow>
                    (Err (Recovered (''panic while decoding packet '' @ show_int (uint (h_PacketID h'))) m), headerPool_Put h' g1, c))))"

definition read ::
  "mclib \<Rightarrow> 'w glob_scheme \<times> 'cb conn \<Rightarrow> any res \<times> 'w glob_scheme \<times> 'cb conn" where
  "read L gc =
     (let (g, c) = gc in
      case Reader_ReadPacket (c_reader c) of
        (Err e, rd) \<Rightarrow> (Err e, g, c\<lparr>c_reader := rd\<rparr>)
      | (Panic m, rd) \<Rightarrow> (Panic m, g, c\<lparr>c_reader := rd\<rparr>)
      | (Ok [], rd) \<Rightarrow> (Panic ''index out of range'', g, c\<lparr>c_reader := rd\<rparr>)
      | (Ok (flags # body), rd) \<Rightarrow>
          (let c1 = c\<lparr>c_reader := rd\<rparr>;
               isDecodeNeeded = (flags AND flagPacketDecode \<noteq> 0);
               isCompressed = (flags AND flagPacketCompressed \<noteq> 0)
           in case (if isCompressed then snappy_Decode L body else Ok body) of
                Err e \<Rightarrow> (Err e, g, c1)
              | Panic m \<Rightarrow> (Panic m, g, c1)
              | Ok decompressed \<Rightarrow>
                  (if isDecodeNeeded then decode_server_packet L decompressed (g, c1)
                   else (Ok (Raw decompressed), g, c1))))"

subsection \<open>The connection sequence\<close>

definition handleConnectionResponse ::
  "u64 \<Rightarrow> i64 \<Rightarrow> mclib \<Rightarrow> 'w glob_scheme \<times> 'cb conn \<Rightarrow> unit res \<times> 'w glob_scheme \<times> 'cb conn" where
  "handleConnectionResponse rid uid L gc =
     (let (g, c) = gc
      in (Ok (), g, (expect [mc_IDStartGame L] c)\<lparr>c_runtimeID := rid, c_uniqueID := uid\<rparr>))"

definition startgame_data :: "start_game \<Rightarrow> i64 \<Rightarrow> u64 \<Rightarrow> game_data" where
  "startgame_data pk uniqueID runtimeID =
     \<lparr>gd_Difficulty = sg_Difficulty pk,
      gd_WorldName = sg_WorldName pk,
      gd_WorldSeed = sg_WorldSeed pk,
      gd_EntityUniqueID = uniqueID,
      gd_EntityRuntimeID = runtimeID,
      gd_PlayerGameMode = sg_PlayerGameMode pk,
      gd_BaseGameVersion = sg_BaseGameVersion pk,
      gd_PlayerPosition = sg_PlayerPosition pk,
      gd_Pitch = sg_Pitch pk,
      gd_Yaw = sg_Yaw pk,
      gd_Dimension = sg_Dimension pk,
      gd_WorldSpawn = sg_WorldSpawn pk,
      gd_EditorWorldType = sg_EditorWorldType pk,
      gd_CreatedInEditor = sg_CreatedInEditor pk,
      gd_ExportedFromEditor = sg_ExportedFromEditor pk,
      gd_PersonaDisabled = sg_PersonaDisabled pk,
      gd_CustomSkinsDisabled = sg_CustomSkinsDisabled pk,
      gd_GameRules = sg_GameRules pk,
      gd_Time = sg_Time pk,
      gd_ServerBlockStateChecksum = sg_ServerBlockStateChecksum pk,
      gd_CustomBlocks = sg_Blocks pk,
      gd_PlayerMovementSettings = sg_PlayerMovementSettings pk,
      gd_WorldGameMode = sg_WorldGameMode pk,
      gd_Hardcore = sg_Hardcore pk,
      gd_ServerAuthoritativeInventory = sg_ServerAuthoritativeInventory pk,
      gd_PlayerPermissions = sg_PlayerPermissions pk,
      gd_ChatRestrictionLevel = sg_ChatRestrictionLevel pk,
      gd_DisablePlayerInteractions = sg_DisablePlayerInteractions pk,
      gd_ClientSideGeneration = sg_ClientSideGeneration pk,
      gd_Experiments = sg_Experiments pk,
      gd_UseBlockNetworkIDHashes = sg_UseBlockNetworkIDHashes pk,
      gd_Items = [],
      gd_ChunkRadius = 0\<rparr>"

definition handleStartGame ::
  "start_game \<Rightarrow> mclib \<Rightarrow> 'w glob_scheme \<times> 'cb conn \<Rightarrow> unit res \<times> 'w glob_scheme \<times> 'cb conn" where
  "handleStartGame pk L gc =
     (let (g, c) = gc in
      if 776 \<le> sint (proto_ID (c_protocol c))
      then (let c1 = expect [mc_IDItemRegistry L] c
            in (Ok (), g, c1\<lparr>c_gameData := startgame_data pk (c_uniqueID c1) (c_runtimeID c1)\<rparr>))
      else (case WritePacket L (RequestChunkRadius 16) (g, expect [mc_IDChunkRadiusUpdated L] c) of
              (Ok _, g1, c1) \<Rightarrow> (Ok (), g1, c1\<lparr>c_gameData := startgame_data pk (c_uniqueID c1) (c_runtimeID c1)\<rparr>)
            | r \<Rightarrow> r))"

text \<open>The loop has no break: the last shield of the registry wins.\<close>

definition find_shield :: "item_entry list \<Rightarrow> i32 \<Rightarrow> i32" where
  "find_shield items old =
     fold (\<lambda>item acc. if it_Name item = ''minecraft:shield'' then word_of_int (it_RuntimeID item) else acc)
       items old"

definition handleItemRegistry ::
  "item_entry list \<Rightarrow> mclib \<Rightarrow> 'w glob_scheme \<times> 'cb conn \<Rightarrow> unit res \<times> 'w glob_scheme \<times> 'cb conn" where
  "handleItemRegistry items L gc =
     (let (g, c) = gc;
          c1 = expect [mc_IDChunkRadiusUpdated L] c;
          c2 = c1\<lparr>c_gameData := (c_gameData c1)\<lparr>gd_Items := items\<rparr>,
                  c_shieldID := find_shield items (c_shieldID c1)\<rparr>
      in case WritePacket L (RequestChunkRadius 16) (g, c2) of
           (Ok _, g1, c3) \<Rightarrow> (Ok (), g1, c3)
         | r \<Rightarrow> r)"

definition handleChunkRadiusUpdated ::
  "i32 \<Rightarrow> mclib \<Rightarrow> 'w glob_scheme \<times> 'cb conn \<Rightarrow> unit res \<times> 'w glob_scheme \<times> 'cb conn" where
  "handleChunkRadiusUpdated radius L gc =
     (let (g, c) = gc;
          c1 = expect [mc_IDPlayStatus L] (deferPacket (Pk (ChunkRadiusUpdated radius)) c)
      in (Ok (), g, c1\<lparr>c_gameData := (c_gameData c1)\<lparr>gd_ChunkRadius := radius\<rparr>\<rparr>))"

text \<open>\<^verbatim>\<open>handlePlayStatus\<close> closes the channel \<^verbatim>\<open>connected\<close> and leaves the expected identifiers alone.\<close>

definition handlePlayStatus ::
  "('cb \<Rightarrow> go_error option \<Rightarrow> 'w glob_scheme \<times> 'cb conn \<Rightarrow> unit res \<times> 'w glob_scheme \<times> 'cb conn) \<Rightarrow>
   play_status \<Rightarrow> mclib \<Rightarrow> 'w glob_scheme \<times> 'cb conn \<Rightarrow> unit res \<times> 'w glob_scheme \<times> 'cb conn" where
  "handlePlayStatus run st L gc =
     (let (g, c) = gc; c1 = deferPacket (Pk (PlayStatus st)) c in
      if c_connected c1 then (Panic ''close of closed channel'', g, c1)
      else (let c2 = c1\<lparr>c_connected := True\<rparr> in
            case c_onConnect c2 of
              None \<Rightarrow> (Ok (), g, c2)
            | Some f \<Rightarrow>
                (case run f None (g, c2) of
                   (Panic m, g1, c3) \<Rightarrow> (Panic m, g1, c3)
                 | (_, g1, c3) \<Rightarrow> (Ok (), g1, c3))))"

text \<open>The body of the loop of \<^verbatim>\<open>handlePacket\<close> for one converted packet.\<close>

definition handle_expected ::
  "('cb \<Rightarrow> go_error option \<Rightarrow> 'w glob_scheme \<times> 'cb conn \<Rightarrow> unit res \<times> 'w glob_scheme \<times> 'cb conn) \<Rightarrow>
   mclib \<Rightarrow> packet \<Rightarrow> 'w glob_scheme \<times> 'cb conn \<Rightarrow> unit res \<times> 'w glob_scheme \<times> 'cb conn" where
  "handle_expected run L pk gc =
     (let (g, c) = gc in
      if pk_ID L pk \<notin> set (c_expectedIds c) then (Ok (), g, deferPacket (Pk pk) c)
      else (case pk of
              ConnectionResponse rid uid \<Rightarrow> handleConnectionResponse rid uid L (g, c)
            | StartGame sg \<Rightarrow> handleStartGame sg L (g, c)
            | ItemRegistry items \<Rightarrow> handleItemRegistry items L (g, c)
            | ChunkRadiusUpdated radius \<Rightarrow> handleChunkRadiusUpdated radius L (g, c)
            | PlayStatus st \<Rightarrow> handlePlayStatus run st L (g, c)
            | _ \<Rightarrow> (Ok (), g, deferPacket (Pk pk) c)))"

fun handle_all ::
  "('cb \<Rightarrow> go_error option \<Rightarrow> 'w glob_scheme \<times> 'cb conn \<Rightarrow> unit res \<times> 'w glob_scheme \<times> 'cb conn) \<Rightarrow>
   mclib \<Rightarrow> packet list \<Rightarrow> 'w glob_scheme \<times> 'cb conn \<Rightarrow> unit res \<times> 'w glob_scheme \<times> 'cb conn" where
  "handle_all run L [] gc = (Ok (), gc)"
| "handle_all run L (pk # pks) gc =
     (case handle_expected run L pk gc of
        (Ok _, gc1) \<Rightarrow> handle_all run L pks gc1
      | (Err e, gc1) \<Rightarrow> (Err e, gc1)
      | (Panic m, gc1) \<Rightarrow> (Panic m, gc1))"

definition handlePacket ::
  "('cb \<Rightarrow> go_error option \<Rightarrow> 'w glob_scheme \<times> 'cb conn \<Rightarrow> unit res \<times> 'w glob_scheme \<times> 'cb conn) \<Rightarrow>
   mclib \<Rightarrow> packet \<Rightarrow> 'w glob_scheme \<times> 'cb conn \<Rightarrow> unit res \<times> 'w glob_scheme \<times> 'cb conn" where
  "handlePacket run L p gc =
     handle_all run L
       (if c_syncProtocol (snd gc) then proto_ConvertToLatest (c_protocol (snd gc)) p else [p]) gc"

subsection \<open>ReadPacket\<close>

text \<open>
  One pass through \<^verbatim>\<open>ReadPacket\<close>: \<open>Inl\<close> what it returns, or \<open>Inr\<close> the state in which it calls itself
  again, after a packet of the connection sequence. When the context is done and the channel
  \<^verbatim>\<open>spawned\<close> is closed, the select statement picks either case: \<open>pick\<close> is its choice.
\<close>

definition ReadPacket_pass ::
  "('cb \<Rightarrow> go_error option \<Rightarrow> 'w glob_scheme \<times> 'cb conn \<Rightarrow> unit res \<times> 'w glob_scheme \<times> 'cb conn) \<Rightarrow>
   mclib \<Rightarrow> bool \<Rightarrow> 'w glob_scheme \<times> 'cb conn \<Rightarrow>
   (any res \<times> 'w glob_scheme \<times> 'cb conn) + ('w glob_scheme \<times> 'cb conn)" where
  "ReadPacket_pass run L pick gc =
     (let (g, c) = gc in
      if c_ctx c \<noteq> None \<and> (\<not> c_spawned c \<or> pick) then Inl (Err (the (c_ctx c)), g, c)
      else if c_spawned c then
        (case c_deferred c of
           pk # rest \<Rightarrow> Inl (Ok pk, g, c\<lparr>c_deferred := rest\<rparr>)
         | [] \<Rightarrow> Inl (read L (g, c)))
      else
        (case read L (g, c) of
           (Ok (Pk pk), g1, c1) \<Rightarrow>
             (case handlePacket run L pk (g1, c1) of
                (Ok _, gc2) \<Rightarrow> Inr gc2
              | (Err e, g2, c2) \<Rightarrow>
                  Inl (Err (Wrapf1 ''failed to handle packet '' (uint (pk_ID L pk)) e), g2, c2)
              | (Panic m, g2, c2) \<Rightarrow> Inl (Panic m, g2, c2))
         | (Ok (Raw b), g1, c1) \<Rightarrow> Inr (g1, deferPacket (Raw b) c1)
         | r \<Rightarrow> Inl r))"

text \<open>The recursion; the fuel bounds its depth, and \<open>None\<close> means that it ran out.\<close>

fun ReadPacket ::
  "('cb \<Rightarrow> go_error option \<Rightarrow> 'w glob_scheme \<times> 'cb conn \<Rightarrow> unit res \<times> 'w glob_scheme \<times> 'cb conn) \<Rightarrow>
   mclib \<Rightarrow> bool \<Rightarrow> nat \<Rightarrow> 'w glob_scheme \<times> 'cb conn \<Rightarrow>
   (any res \<times> 'w glob_scheme \<times> 'cb conn) option" where
  "ReadPacket run L pick 0 gc = None"
| "ReadPacket run L pick (Suc fuel) gc =
     (case ReadPacket_pass run L pick gc of
        Inl r \<Rightarrow> Some r
      | Inr gc1 \<Rightarrow> ReadPacket run L pick fuel gc1)"

declare ReadPacket.simps(2) [simp del]

subsection \<open>Specification of the connection sequence\<close>

text \<open>
  The sequence as the protocol describes it: connection response, start game, item registry (for
  protocols from 776 on), chunk radius, play status. Everything else that arrives meanwhile, and
  the last two, are kept for the session in order of arrival.
\<close>

datatype phase = AwaitResponse | AwaitStartGame | AwaitItemRegistry | AwaitChunkRadius | AwaitPlayStatus | Connected

text \<open>The phases in their order.\<close>

fun phase_rank :: "phase \<Rightarrow> nat" where
  "phase_rank AwaitResponse = 0"
| "phase_rank AwaitStartGame = 1"
| "phase_rank AwaitItemRegistry = 2"
| "phase_rank AwaitChunkRadius = 3"
| "phase_rank AwaitPlayStatus = 4"
| "phase_rank Connected = 5"

lemma phase_rank_inj: "phase_rank p = phase_rank q \<Longrightarrow> p = q"
  by (cases p; cases q) simp_all

instantiation phase :: linorder
begin

definition less_eq_phase :: "phase \<Rightarrow> phase \<Rightarrow> bool" where
  "less_eq_phase p q \<longleftrightarrow> phase_rank p \<le> phase_rank q"

definition less_phase :: "phase \<Rightarrow> phase \<Rightarrow> bool" where
  "less_phase p q \<longleftrightarrow> phase_rank p < phase_rank q"

instance
  by standard (auto simp: less_eq_phase_def less_phase_def intro: phase_rank_inj)

end

record seq_state =
  q_phase :: phase
  q_deferred :: "any list"
  q_runtimeID :: u64
  q_uniqueID :: i64
  q_gameData :: game_data
  q_shieldID :: i32

fun seq_step :: "bool \<Rightarrow> any \<Rightarrow> seq_state \<Rightarrow> seq_state" where
  "seq_step modern (Raw b) q = q\<lparr>q_deferred := q_deferred q @ [Raw b]\<rparr>"
| "seq_step modern (Pk pk) q =
     (let keep = q\<lparr>q_deferred := q_deferred q @ [Pk pk]\<rparr> in
      case q_phase q of
        AwaitResponse \<Rightarrow>
          (case pk of
             ConnectionResponse rid uid \<Rightarrow>
               q\<lparr>q_phase := AwaitStartGame, q_runtimeID := rid, q_uniqueID := uid\<rparr>
           | _ \<Rightarrow> keep)
      | AwaitStartGame \<Rightarrow>
          (case pk of
             StartGame sg \<Rightarrow>
               q\<lparr>q_phase := (if modern then AwaitItemRegistry else AwaitChunkRadius),
                 q_gameData := startgame_data sg (q_uniqueID q) (q_runtimeID q)\<rparr>
           | _ \<Rightarrow> keep)
      | AwaitItemRegistry \<Rightarrow>
          (case pk of
             ItemRegistry items \<Rightarrow>
               q\<lparr>q_phase := AwaitChunkRadius, q_gameData := (q_gameData q)\<lparr>gd_Items := items\<rparr>,
                 q_shieldID := find_shield items (q_shieldID q)\<rparr>
           | _ \<Rightarrow> keep)
      | AwaitChunkRadius \<Rightarrow>
          (case pk of
             ChunkRadiusUpdated rad \<Rightarrow>
               keep\<lparr>q_phase := AwaitPlayStatus, q_gameData := (q_gameData q)\<lparr>gd_ChunkRadius := rad\<rparr>\<rparr>
           | _ \<Rightarrow> keep)
      | AwaitPlayStatus \<Rightarrow>
          (case pk of PlayStatus st \<Rightarrow> keep\<lparr>q_phase := Connected\<rparr> | _ \<Rightarrow> keep)
      | Connected \<Rightarrow> keep)"

definition seq_init :: seq_state where
  "seq_init = \<lparr>q_phase = AwaitResponse, q_deferred = [], q_runtimeID = 0, q_uniqueID = 0,
     q_gameData = zero_game_data, q_shieldID = 0\<rparr>"

text \<open>The phase that the expected identifiers of a connection stand for.\<close>

definition conn_phase :: "mclib \<Rightarrow> 'cb conn \<Rightarrow> phase" where
  "conn_phase L c =
     (if c_connected c then Connected
      else if c_expectedIds c = [IDConnectionResponse] then AwaitResponse
      else if c_expectedIds c = [mc_IDStartGame L] then AwaitStartGame
      else if c_expectedIds c = [mc_IDItemRegistry L] then AwaitItemRegistry
      else if c_expectedIds c = [mc_IDChunkRadiusUpdated L] then AwaitChunkRadius
      else AwaitPlayStatus)"

definition conn_seq :: "mclib \<Rightarrow> 'cb conn \<Rightarrow> seq_state" where
  "conn_seq L c = \<lparr>q_phase = conn_phase L c, q_deferred = c_deferred c, q_runtimeID = c_runtimeID c,
     q_uniqueID = c_uniqueID c, q_gameData = c_gameData c, q_shieldID = c_shieldID c\<rparr>"

definition conn_modern :: "'cb conn \<Rightarrow> bool" where
  "conn_modern c \<longleftrightarrow> 776 \<le> sint (proto_ID (c_protocol c))"

text \<open>The expected identifiers are always those of some phase.\<close>

definition conn_inv :: "mclib \<Rightarrow> 'cb conn \<Rightarrow> bool" where
  "conn_inv L c \<longleftrightarrow>
     c_expectedIds c \<in> {[IDConnectionResponse], [mc_IDStartGame L], [mc_IDItemRegistry L],
       [mc_IDChunkRadiusUpdated L], [mc_IDPlayStatus L]} \<and>
     (c_connected c \<longrightarrow> c_expectedIds c = [mc_IDPlayStatus L])"

text \<open>
  What the library documents of packet identifiers: the constants are the identifiers of their
  packet types, and differ from each other and from the proxy's own.
\<close>

definition ids_ok :: "mclib \<Rightarrow> bool" where
  "ids_ok L \<longleftrightarrow>
     (\<forall>sg. mc_ID L (StartGame sg) = mc_IDStartGame L) \<and>
     (\<forall>items. mc_ID L (ItemRegistry items) = mc_IDItemRegistry L) \<and>
     (\<forall>rad. mc_ID L (ChunkRadiusUpdated rad) = mc_IDChunkRadiusUpdated L) \<and>
     (\<forall>st. mc_ID L (PlayStatus st) = mc_IDPlayStatus L) \<and>
     distinct [IDConnectionResponse, mc_IDStartGame L, mc_IDItemRegistry L,
       mc_IDChunkRadiusUpdated L, mc_IDPlayStatus L]"

text \<open>
  The connection sequence driven by \<^verbatim>\<open>ReadPacket\<close>: any number of its turns before the spawn,
  with the list of what was received (after conversion to the latest protocol).
\<close>

inductive conn_run ::
  "('cb \<Rightarrow> go_error option \<Rightarrow> 'w glob_scheme \<times> 'cb conn \<Rightarrow> unit res \<times> 'w glob_scheme \<times> 'cb conn) \<Rightarrow>
   mclib \<Rightarrow> 'cb conn \<Rightarrow> any list \<Rightarrow> 'w glob_scheme \<times> 'cb conn \<Rightarrow> bool"
  for run L c0 where
  start: "conn_run run L c0 [] (g, c0)"
| packet: "conn_run run L c0 xs (g, c) \<Longrightarrow> \<not> c_spawned c \<Longrightarrow> read L (g, c) = (Ok (Pk p), g1, c1) \<Longrightarrow>
    handlePacket run L p (g1, c1) = (Ok u, gc2) \<Longrightarrow>
    conn_run run L c0
      (xs @ map Pk (if c_syncProtocol c then proto_ConvertToLatest (c_protocol c) p else [p])) gc2"
| raw: "conn_run run L c0 xs (g, c) \<Longrightarrow> \<not> c_spawned c \<Longrightarrow> read L (g, c) = (Ok (Raw b), g1, c1) \<Longrightarrow>
    conn_run run L c0 (xs @ [Raw b]) (g1, deferPacket (Raw b) c1)"

text \<open>A callback may write to the connection and spawn it; it changes nothing else of it.\<close>

definition spawn_frame :: "'cb conn \<Rightarrow> 'cb conn \<Rightarrow> bool" where
  "spawn_frame c c' \<longleftrightarrow>
     (\<exists>w sp. c' = c\<lparr>c_writer := w, c_spawned := sp\<rparr> \<and> (c_spawned c \<longrightarrow> sp))"

section \<open>Lemmas\<close>

lemma flag_values [simp]:
  "flagPacketDecode = 1" "flagPacketCompressed = 2" "flagPacketIsBatch = 4"
  by (simp_all add: flagPacketDecode_def flagPacketCompressed_def flagPacketIsBatch_def)

subsection \<open>The recursion of ReadPacket\<close>

lemma ReadPacket_Suc [simp]:
  "ReadPacket run L pick (Suc fuel) (g, c) =
     (if c_ctx c \<noteq> None \<and> (\<not> c_spawned c \<or> pick) then Some (Err (the (c_ctx c)), g, c)
      else if c_spawned c then
        (case c_deferred c of
           pk # rest \<Rightarrow> Some (Ok pk, g, c\<lparr>c_deferred := rest\<rparr>)
         | [] \<Rightarrow> Some (read L (g, c)))
      else
        (case read L (g, c) of
           (Ok (Pk pk), g1, c1) \<Rightarrow>
             (case handlePacket run L pk (g1, c1) of
                (Ok _, gc2) \<Rightarrow> ReadPacket run L pick fuel gc2
              | (Err e, g2, c2) \<Rightarrow>
                  Some (Err (Wrapf1 ''failed to handle packet '' (uint (pk_ID L pk)) e), g2, c2)
              | (Panic m, g2, c2) \<Rightarrow> Some (Panic m, g2, c2))
         | (Ok (Raw b), g1, c1) \<Rightarrow> ReadPacket run L pick fuel (g1, deferPacket (Raw b) c1)
         | r \<Rightarrow> Some r))"
  by (cases "read L (g, c)"; cases "fst (read L (g, c))")
     (auto simp: ReadPacket.simps(2) ReadPacket_pass_def split: list.split any.split res.split prod.split)

text \<open>What every pass keeps between its first and its last state, the whole keeps.\<close>

lemma ReadPacket_passes:
  assumes "ReadPacket run L pick fuel gc = Some (r, gc')"
    and "\<And>gc r gc'. ReadPacket_pass run L pick gc = Inl (r, gc') \<Longrightarrow> R gc gc'"
    and "\<And>gc gc'. ReadPacket_pass run L pick gc = Inr gc' \<Longrightarrow> R gc gc'"
    and "\<And>x y z. R x y \<Longrightarrow> R y z \<Longrightarrow> R x z"
  shows "R gc gc'"
  using assms(1)
proof (induction fuel arbitrary: gc)
  case (Suc fuel)
  show ?case
  proof (cases "ReadPacket_pass run L pick gc")
    case (Inl x)
    with Suc.prems assms(2) [of gc r gc'] show ?thesis by (simp add: ReadPacket.simps(2))
  next
    case (Inr gc1)
    with Suc.prems Suc.IH [of gc1] assms(3) [OF Inr] assms(4) show ?thesis by (simp add: ReadPacket.simps(2))
  qed
qed simp

subsection \<open>What each operation leaves alone\<close>

lemma spawn_frame_refl [simp]: "spawn_frame c c"
  unfolding spawn_frame_def by (rule exI [of _ "c_writer c"], rule exI [of _ "c_spawned c"]) simp

lemma spawn_frameD:
  assumes "spawn_frame c c'"
  shows "c_reader c' = c_reader c" "c_connected c' = c_connected c" "c_deferred c' = c_deferred c"
    "c_expectedIds c' = c_expectedIds c" "c_gameData c' = c_gameData c"
    "c_runtimeID c' = c_runtimeID c" "c_uniqueID c' = c_uniqueID c" "c_protocol c' = c_protocol c"
    "c_syncProtocol c' = c_syncProtocol c" "c_shieldID c' = c_shieldID c" "c_ctx c' = c_ctx c"
    "c_onConnect c' = c_onConnect c" "c_once c' = c_once c" "c_closed c' = c_closed c"
    "c_client c' = c_client c" "c_pool c' = c_pool c" "c_cache c' = c_cache c"
  using assms by (auto simp: spawn_frame_def)

lemma spawn_frame_trans: "spawn_frame a b \<Longrightarrow> spawn_frame b c \<Longrightarrow> spawn_frame a c"
  unfolding spawn_frame_def by (elim exE conjE) (simp, blast)

lemma write_compressing_frame:
  "write_compressing L f b c = (r, c') \<Longrightarrow> \<exists>w. c' = c\<lparr>c_writer := w\<rparr>"
  by (auto simp: write_compressing_def split: if_splits prod.splits)

lemma WritePacket_frame:
  assumes "WritePacket L pk (g, c) = (r, g', c')"
  shows "\<exists>w. c' = c\<lparr>c_writer := w\<rparr>"
proof -
  have "\<exists>w. c = c\<lparr>c_writer := w\<rparr>" by (rule exI [of _ "c_writer c"]) simp
  with assms show ?thesis
    by (auto simp: WritePacket_def Let_def split: option.splits prod.splits res.splits
        dest: write_compressing_frame)
qed

lemma WritePacket_spawn_frame: "WritePacket L pk (g, c) = (r, g', c') \<Longrightarrow> spawn_frame c c'"
  unfolding spawn_frame_def by (drule WritePacket_frame) (force intro: exI [of _ "c_spawned c"])

lemma DoSpawn_frame:
  assumes "DoSpawn L (g, c) = (r, g', c')"
  shows "spawn_frame c c'"
proof (cases "c_ctx c = None \<and> \<not> c_spawned c")
  case True
  obtain r1 g1 c1 where w: "WritePacket L (ClientCacheStatus (ci_CacheEnabled (c_client c)))
      (g, c\<lparr>c_spawned := True\<rparr>) = (r1, g1, c1)" by (metis prod.exhaust)
  have "spawn_frame c (c\<lparr>c_spawned := True\<rparr>)"
    unfolding spawn_frame_def by (rule exI [of _ "c_writer c"], rule exI [of _ True]) simp
  with WritePacket_spawn_frame [OF w] have 1: "spawn_frame c c1"
    by (blast intro: spawn_frame_trans)
  from True w assms 1 show ?thesis
    by (auto simp: DoSpawn_def split: res.splits dest!: WritePacket_spawn_frame intro: spawn_frame_trans)
qed (use assms in \<open>auto simp: DoSpawn_def split: option.splits\<close>)

lemma decode_server_packet_frame:
  "decode_server_packet L b (g, c) = (r, g', c') \<Longrightarrow> c' = c \<and> (\<forall>m. r \<noteq> Panic m)"
  by (auto simp: decode_server_packet_def Let_def split: prod.splits res.splits option.splits)

lemma read_frame:
  assumes "read L (g, c) = (r, g', c')"
  shows "c' = c\<lparr>c_reader := snd (Reader_ReadPacket (c_reader c))\<rparr>"
  using assms
  by (auto simp: read_def Let_def split: prod.splits res.splits list.splits if_splits
      dest: decode_server_packet_frame)

lemma read_consumes:
  assumes "read L (g, c) = (Ok x, g', c')"
  shows "length (s_data (c_reader c')) < length (s_data (c_reader c))"
proof -
  obtain p rd where "Reader_ReadPacket (c_reader c) = (Ok p, rd)"
    using assms by (auto simp: read_def split: prod.splits res.splits)
  with Reader_ReadPacket_consumes [OF this] read_frame [OF assms] show ?thesis
    by simp
qed

subsection \<open>The connection sequence refines its specification\<close>

lemmas conn_upd_defs = expect_def deferPacket_def

lemma ids_ok_distinct:
  assumes "ids_ok L"
  shows "IDConnectionResponse \<noteq> mc_IDStartGame L" "IDConnectionResponse \<noteq> mc_IDItemRegistry L"
    "IDConnectionResponse \<noteq> mc_IDChunkRadiusUpdated L" "IDConnectionResponse \<noteq> mc_IDPlayStatus L"
    "mc_IDStartGame L \<noteq> mc_IDItemRegistry L" "mc_IDStartGame L \<noteq> mc_IDChunkRadiusUpdated L"
    "mc_IDStartGame L \<noteq> mc_IDPlayStatus L" "mc_IDItemRegistry L \<noteq> mc_IDChunkRadiusUpdated L"
    "mc_IDItemRegistry L \<noteq> mc_IDPlayStatus L" "mc_IDChunkRadiusUpdated L \<noteq> mc_IDPlayStatus L"
  using assms by (auto simp: ids_ok_def)

lemma ids_ok_IDs:
  assumes "ids_ok L"
  shows "mc_ID L (StartGame sg) = mc_IDStartGame L" "mc_ID L (ItemRegistry items) = mc_IDItemRegistry L"
    "mc_ID L (ChunkRadiusUpdated rad) = mc_IDChunkRadiusUpdated L"
    "mc_ID L (PlayStatus st) = mc_IDPlayStatus L"
  using assms by (auto simp: ids_ok_def)

lemma conn_inv_cases:
  assumes "conn_inv L c" "ids_ok L"
  obtains "conn_phase L c = AwaitResponse" "\<not> c_connected c" "c_expectedIds c = [IDConnectionResponse]"
  | "conn_phase L c = AwaitStartGame" "\<not> c_connected c" "c_expectedIds c = [mc_IDStartGame L]"
  | "conn_phase L c = AwaitItemRegistry" "\<not> c_connected c" "c_expectedIds c = [mc_IDItemRegistry L]"
  | "conn_phase L c = AwaitChunkRadius" "\<not> c_connected c" "c_expectedIds c = [mc_IDChunkRadiusUpdated L]"
  | "conn_phase L c = AwaitPlayStatus" "\<not> c_connected c" "c_expectedIds c = [mc_IDPlayStatus L]"
  | "conn_phase L c = Connected" "c_connected c" "c_expectedIds c = [mc_IDPlayStatus L]"
  using assms ids_ok_distinct [OF assms(2)]
  by (auto simp: conn_inv_def conn_phase_def)

text \<open>The effect of each handler on success.\<close>

lemma handleStartGame_effect:
  assumes "handleStartGame sg L (g, c) = (Ok u, g', c')"
  shows "\<exists>w. c' = c\<lparr>c_expectedIds := [if conn_modern c then mc_IDItemRegistry L
      else mc_IDChunkRadiusUpdated L], c_writer := w,
      c_gameData := startgame_data sg (c_uniqueID c) (c_runtimeID c)\<rparr>"
proof (cases "conn_modern c")
  case True
  with assms show ?thesis
    by (intro exI [of _ "c_writer c"], cases c) (auto simp: handleStartGame_def conn_modern_def conn_upd_defs)
next
  case False
  with assms show ?thesis
    by (auto simp: handleStartGame_def conn_modern_def conn_upd_defs split: prod.splits res.splits
        dest!: WritePacket_frame)
qed

lemma handleItemRegistry_effect:
  assumes "handleItemRegistry items L (g, c) = (Ok u, g', c')"
  shows "\<exists>w. c' = c\<lparr>c_expectedIds := [mc_IDChunkRadiusUpdated L],
      c_gameData := (c_gameData c)\<lparr>gd_Items := items\<rparr>, c_shieldID := find_shield items (c_shieldID c),
      c_writer := w\<rparr>"
  using assms
  by (auto simp: handleItemRegistry_def conn_upd_defs split: prod.splits res.splits dest!: WritePacket_frame)

lemma packet_kind_cases:
  obtains rid uid where "pk = ConnectionResponse rid uid" | sg where "pk = StartGame sg"
  | items where "pk = ItemRegistry items" | rad where "pk = ChunkRadiusUpdated rad"
  | st where "pk = PlayStatus st"
  | "\<forall>rid uid. pk \<noteq> ConnectionResponse rid uid" "\<forall>sg. pk \<noteq> StartGame sg"
    "\<forall>items. pk \<noteq> ItemRegistry items" "\<forall>rad. pk \<noteq> ChunkRadiusUpdated rad"
    "\<forall>st. pk \<noteq> PlayStatus st"
  by blast

lemma handle_expected_other:
  assumes "\<forall>rid uid. pk \<noteq> ConnectionResponse rid uid" "\<forall>sg. pk \<noteq> StartGame sg"
    "\<forall>items. pk \<noteq> ItemRegistry items" "\<forall>rad. pk \<noteq> ChunkRadiusUpdated rad"
    "\<forall>st. pk \<noteq> PlayStatus st"
  shows "handle_expected run L pk (g, c) = (Ok (), g, deferPacket (Pk pk) c)"
    and "seq_step m (Pk pk) q = q\<lparr>q_deferred := q_deferred q @ [Pk pk]\<rparr>"
proof -
  show "handle_expected run L pk (g, c) = (Ok (), g, deferPacket (Pk pk) c)"
    using assms by (cases pk) (simp_all add: handle_expected_def)
  show "seq_step m (Pk pk) q = q\<lparr>q_deferred := q_deferred q @ [Pk pk]\<rparr>"
    using assms by (simp add: Let_def split: phase.split packet.split)
qed

lemma conn_seq_defer [simp]:
  "conn_seq L (deferPacket x c) = (conn_seq L c)\<lparr>q_deferred := q_deferred (conn_seq L c) @ [x]\<rparr>"
  by (simp add: conn_seq_def deferPacket_def conn_phase_def)

lemma conn_inv_defer [simp]: "conn_inv L (deferPacket x c) = conn_inv L c"
  by (simp add: conn_inv_def deferPacket_def)

declare seq_step.simps(2) [simp del]

text \<open>The sequence never goes back, and stays connected.\<close>

lemma phase_le_Connected [simp]: "p \<le> Connected" "Connected \<le> p \<longleftrightarrow> p = Connected"
  by (cases p; simp add: less_eq_phase_def)+

lemma seq_step_mono: "q_phase q \<le> q_phase (seq_step m x q)"
proof (cases x)
  case (Pk pk)
  then show ?thesis
    by (cases "q_phase q"; cases pk) (simp_all add: seq_step.simps(2) Let_def less_eq_phase_def)
qed simp

lemma seq_fold_mono: "q_phase q \<le> q_phase (fold (seq_step m) xs q)"
  by (induction xs arbitrary: q) (auto intro: order_trans seq_step_mono)

text \<open>
  The contract of a connect callback: of the connection it may only change what a spawn
  changes. The session's transfer callback is the provider.
\<close>

locale connect_callback =
  fixes run :: "'cb \<Rightarrow> go_error option \<Rightarrow> 'w glob_scheme \<times> 'cb conn \<Rightarrow> unit res \<times> 'w glob_scheme \<times> 'cb conn"
  assumes run_frame: "run f e (g, c) = (r, g', c') \<Longrightarrow> spawn_frame c c'"
begin

lemma handlePlayStatus_effect:
  assumes "handlePlayStatus run st L (g, c) = (Ok u, g', c')"
  shows "\<not> c_connected c \<and>
    spawn_frame (c\<lparr>c_deferred := c_deferred c @ [Pk (PlayStatus st)], c_connected := True\<rparr>) c'"
  using assms
  by (auto simp: handlePlayStatus_def conn_upd_defs Let_def split: if_splits option.splits prod.splits res.splits
      dest!: run_frame)

lemma handle_expected_reader:
  assumes "handle_expected run L pk (g, c) = (r, g', c')"
  shows "c_reader c' = c_reader c \<and> c_syncProtocol c' = c_syncProtocol c \<and> c_protocol c' = c_protocol c"
proof (cases rule: packet_kind_cases [of pk])
  case (5 st)
  with assms show ?thesis
    by (auto simp: handle_expected_def handlePlayStatus_def conn_upd_defs Let_def
        split: if_splits prod.splits res.splits option.splits dest!: run_frame
        simp: spawn_frame_def)
next
  case 6
  with assms show ?thesis by (simp add: handle_expected_other) (auto simp: deferPacket_def)
qed (use assms in \<open>auto simp: handle_expected_def handleConnectionResponse_def handleStartGame_def
      handleItemRegistry_def handleChunkRadiusUpdated_def conn_upd_defs Let_def
      split: if_splits prod.splits res.splits dest!: WritePacket_frame\<close>)

lemma handle_all_reader:
  "handle_all run L pks (g, c) = (r, g', c') \<Longrightarrow>
   c_reader c' = c_reader c \<and> c_syncProtocol c' = c_syncProtocol c \<and> c_protocol c' = c_protocol c"
proof (induction pks arbitrary: g c)
  case (Cons pk pks)
  obtain r1 g1 c1 where 1: "handle_expected run L pk (g, c) = (r1, g1, c1)" by (metis prod.exhaust)
  from handle_expected_reader [OF 1] Cons.prems 1 Cons.IH [of g1 c1] show ?case
    by (cases r1) auto
qed simp

text \<open>One converted packet: the concrete step and the specified step agree.\<close>

lemma handle_expected_refines:
  assumes ids: "ids_ok L" and inv: "conn_inv L c"
    and step: "handle_expected run L pk (g, c) = (Ok u, g', c')"
  shows "conn_seq L c' = seq_step (conn_modern c) (Pk pk) (conn_seq L c) \<and> conn_inv L c'"
proof -
  note d = ids_ok_distinct [OF ids] ids_ok_distinct [OF ids, symmetric] ids_ok_IDs [OF ids]
  note defs = handle_expected_def conn_seq_def conn_phase_def conn_inv_def seq_step.simps
  show ?thesis
  proof (cases rule: packet_kind_cases [of pk])
    case (1 rid uid)
    with step inv show ?thesis
      by (cases rule: conn_inv_cases [OF inv ids])
         (auto simp: defs d handleConnectionResponse_def conn_upd_defs)
  next
    case (2 sg)
    with step inv show ?thesis
      by (cases rule: conn_inv_cases [OF inv ids])
         (auto simp: defs d conn_upd_defs split: if_splits dest!: handleStartGame_effect)
  next
    case (3 items)
    with step inv show ?thesis
      by (cases rule: conn_inv_cases [OF inv ids])
         (auto simp: defs d conn_upd_defs dest!: handleItemRegistry_effect)
  next
    case (4 rad)
    with step inv show ?thesis
      by (cases rule: conn_inv_cases [OF inv ids])
         (auto simp: defs d conn_upd_defs handleChunkRadiusUpdated_def)
  next
    case (5 st)
    with step inv show ?thesis
      by (cases rule: conn_inv_cases [OF inv ids])
         (auto simp: defs d conn_upd_defs spawn_frame_def dest!: handlePlayStatus_effect)
  next
    case 6
    with step inv show ?thesis by (auto simp: handle_expected_other)
  qed
qed

lemma handle_all_refines:
  assumes "ids_ok L"
  shows "conn_inv L c \<Longrightarrow> handle_all run L pks (g, c) = (Ok u, g', c') \<Longrightarrow>
    conn_seq L c' = fold (seq_step (conn_modern c)) (map Pk pks) (conn_seq L c) \<and> conn_inv L c' \<and>
    conn_modern c' = conn_modern c"
proof (induction pks arbitrary: g c)
  case (Cons pk pks)
  obtain r1 g1 c1 where 1: "handle_expected run L pk (g, c) = (r1, g1, c1)" by (metis prod.exhaust)
  with Cons.prems obtain v where "r1 = Ok v" by (cases r1) auto
  with 1 handle_expected_refines [OF assms Cons.prems(1)] handle_expected_reader [OF 1]
    Cons.prems(2) Cons.IH [of c1 g1] show ?case
    by (auto simp: conn_modern_def)
qed simp

lemma conn_run_refines:
  assumes "ids_ok L" "conn_inv L c0"
  shows "conn_run run L c0 xs gc \<Longrightarrow>
    conn_seq L (snd gc) = fold (seq_step (conn_modern c0)) xs (conn_seq L c0) \<and> conn_inv L (snd gc) \<and>
    conn_modern (snd gc) = conn_modern c0"
proof (induction rule: conn_run.induct)
  case (start g)
  with assms show ?case by simp
next
  case (packet xs g c p g1 c1 u gc2)
  have c1: "conn_seq L c1 = conn_seq L c" "conn_inv L c1 = conn_inv L c" "conn_modern c1 = conn_modern c"
    "c_syncProtocol c1 = c_syncProtocol c" "c_protocol c1 = c_protocol c"
    using read_frame [OF packet.hyps(3)]
    by (simp_all add: conn_seq_def conn_phase_def conn_inv_def conn_modern_def)
  obtain g2 c2 where gc2: "gc2 = (g2, c2)" by fastforce
  from packet.hyps(4) packet.IH handle_all_refines [OF assms(1), of c1 _ g1 u g2 c2] show ?case
    by (simp add: handlePacket_def gc2 c1 split: if_splits)
next
  case (raw xs g c b g1 c1)
  have c1: "conn_seq L c1 = conn_seq L c" "conn_inv L c1 = conn_inv L c" "conn_modern c1 = conn_modern c"
    using read_frame [OF raw.hyps(3)]
    by (simp_all add: conn_seq_def conn_phase_def conn_inv_def conn_modern_def)
  have "conn_modern (deferPacket (Raw b) c1) = conn_modern c1"
    by (simp add: conn_modern_def deferPacket_def)
  with raw.IH show ?case by (simp add: c1)
qed

text \<open>Enough fuel: one unit more than the bytes still to be read.\<close>

lemma ReadPacket_returns:
  "length (s_data (c_reader c)) < fuel \<Longrightarrow> \<exists>r. ReadPacket run L pick fuel (g, c) = Some r"
proof (induction fuel arbitrary: g c)
  case (Suc fuel)
  obtain r1 g1 c1 where 1: "read L (g, c) = (r1, g1, c1)" by (metis prod.exhaust)
  show ?case
  proof (cases r1)
    case (Ok x)
    with 1 Suc.prems read_consumes [of L g c x g1 c1] have len: "length (s_data (c_reader c1)) < fuel" by simp
    show ?thesis
    proof (cases x)
      case (Pk pk)
      obtain r2 g2 c2 where 2: "handlePacket run L pk (g1, c1) = (r2, g2, c2)" by (metis prod.exhaust)
      then have "c_reader c2 = c_reader c1"
        unfolding handlePacket_def using handle_all_reader by blast
      with len Suc.IH [of c2 g2] 1 2 Ok Pk show ?thesis
        by (cases r2) (auto split: list.splits)
    next
      case (Raw b)
      with len Suc.IH [of "deferPacket (Raw b) c1" g1] 1 Ok show ?thesis
        by (auto simp: deferPacket_def split: list.splits)
    qed
  qed (use 1 in \<open>auto split: list.splits\<close>)
qed simp

end

subsection \<open>Order of the connection sequence\<close>

lemma snoc_in_shuffles_single: "ys @ [x] \<in> shuffles [x] ys"
  by (induction ys) (auto simp: Cons_in_shuffles_iff)

lemma shuffles_snoc_left: "xs \<in> shuffles ys zs \<Longrightarrow> xs @ [x] \<in> shuffles (ys @ [x]) zs"
proof (induction ys zs arbitrary: xs rule: shuffles.induct)
  case (1 ys)
  then show ?case by (simp add: snoc_in_shuffles_single)
next
  case (3 y ys z zs)
  then consider xs' where "xs = y # xs'" "xs' \<in> shuffles ys (z # zs)"
    | xs' where "xs = z # xs'" "xs' \<in> shuffles (y # ys) zs" by auto
  then show ?case
    using 3 by cases (auto intro: Cons_in_shuffles_leftI Cons_in_shuffles_rightI)
qed simp

lemma shuffles_snoc_right: "xs \<in> shuffles ys zs \<Longrightarrow> xs @ [x] \<in> shuffles ys (zs @ [x])"
  using shuffles_snoc_left [of xs zs ys x] by (simp add: shuffles_commutes)

text \<open>
  The invariant of the specified sequence: which packets have been consumed, that everything else
  is deferred in order of arrival, and what the game data is made of.
\<close>

definition seq_consumed :: "phase \<Rightarrow> u64 \<Rightarrow> i64 \<Rightarrow> start_game \<Rightarrow> item_entry list \<Rightarrow> bool \<Rightarrow> any list" where
  "seq_consumed ph rid uid sg items modern =
     (case ph of
        AwaitResponse \<Rightarrow> []
      | AwaitStartGame \<Rightarrow> [Pk (ConnectionResponse rid uid)]
      | AwaitItemRegistry \<Rightarrow> [Pk (ConnectionResponse rid uid), Pk (StartGame sg)]
      | _ \<Rightarrow> [Pk (ConnectionResponse rid uid), Pk (StartGame sg)] @
             (if modern then [Pk (ItemRegistry items)] else []))"

definition seq_kept :: "phase \<Rightarrow> i32 \<Rightarrow> play_status \<Rightarrow> any list" where
  "seq_kept ph rad st =
     (case ph of
        AwaitPlayStatus \<Rightarrow> [Pk (ChunkRadiusUpdated rad)]
      | Connected \<Rightarrow> [Pk (ChunkRadiusUpdated rad), Pk (PlayStatus st)]
      | _ \<Rightarrow> [])"

definition seq_data :: "phase \<Rightarrow> bool \<Rightarrow> start_game \<Rightarrow> item_entry list \<Rightarrow> i32 \<Rightarrow> u64 \<Rightarrow> i64 \<Rightarrow> game_data \<Rightarrow> bool" where
  "seq_data ph modern sg items rad rid uid d \<longleftrightarrow>
     (let d1 = startgame_data sg uid rid; d2 = (if modern then d1\<lparr>gd_Items := items\<rparr> else d1) in
      case ph of
        AwaitResponse \<Rightarrow> True | AwaitStartGame \<Rightarrow> True
      | AwaitItemRegistry \<Rightarrow> modern \<and> d = d1
      | AwaitChunkRadius \<Rightarrow> d = d2
      | _ \<Rightarrow> d = d2\<lparr>gd_ChunkRadius := rad\<rparr>)"

definition seq_inv :: "bool \<Rightarrow> any list \<Rightarrow> seq_state \<Rightarrow> bool" where
  "seq_inv modern xs q \<longleftrightarrow>
     (\<exists>sg items rad st.
        xs \<in> shuffles (q_deferred q)
               (seq_consumed (q_phase q) (q_runtimeID q) (q_uniqueID q) sg items modern) \<and>
        subseq (seq_consumed (q_phase q) (q_runtimeID q) (q_uniqueID q) sg items modern @
               seq_kept (q_phase q) rad st) xs \<and>
        seq_data (q_phase q) modern sg items rad (q_runtimeID q) (q_uniqueID q) (q_gameData q))"

lemma seq_invI:
  assumes "xs \<in> shuffles (q_deferred q) (seq_consumed (q_phase q) (q_runtimeID q) (q_uniqueID q) sg items modern)"
    "subseq (seq_consumed (q_phase q) (q_runtimeID q) (q_uniqueID q) sg items modern @ seq_kept (q_phase q) rad st) xs"
    "seq_data (q_phase q) modern sg items rad (q_runtimeID q) (q_uniqueID q) (q_gameData q)"
  shows "seq_inv modern xs q"
  using assms unfolding seq_inv_def by blast

lemma seq_invE:
  assumes "seq_inv modern xs q"
  obtains sg items rad st where
    "xs \<in> shuffles (q_deferred q) (seq_consumed (q_phase q) (q_runtimeID q) (q_uniqueID q) sg items modern)"
    "subseq (seq_consumed (q_phase q) (q_runtimeID q) (q_uniqueID q) sg items modern @ seq_kept (q_phase q) rad st) xs"
    "seq_data (q_phase q) modern sg items rad (q_runtimeID q) (q_uniqueID q) (q_gameData q)"
  using assms unfolding seq_inv_def by blast

lemmas seq_parts = seq_consumed_def seq_kept_def seq_data_def Let_def

lemma subseq_snoc_same: "subseq ys xs \<Longrightarrow> subseq (ys @ [x]) (xs @ [x])"
  by (simp add: list_emb_append_mono)

lemma subseq_snoc: "subseq ys xs \<Longrightarrow> subseq ys (xs @ [x])"
  by (simp add: list_emb_append2 subseq_rev_drop_many)

text \<open>A packet that the sequence does not consume.\<close>

lemma seq_inv_keep:
  assumes "seq_inv modern xs q"
  shows "seq_inv modern (xs @ [x]) (q\<lparr>q_deferred := q_deferred q @ [x]\<rparr>)"
  using assms by (rule seq_invE) (rule seq_invI, auto intro: shuffles_snoc_left subseq_snoc)

lemma seq_inv_step:
  assumes inv: "seq_inv modern xs q"
  shows "seq_inv modern (xs @ [x]) (seq_step modern x q)"
proof (cases x)
  case (Raw b)
  with seq_inv_keep [OF inv] show ?thesis by simp
next
  case (Pk pk)
  from inv obtain sg items rad st where h:
    "xs \<in> shuffles (q_deferred q) (seq_consumed (q_phase q) (q_runtimeID q) (q_uniqueID q) sg items modern)"
    "subseq (seq_consumed (q_phase q) (q_runtimeID q) (q_uniqueID q) sg items modern @ seq_kept (q_phase q) rad st) xs"
    "seq_data (q_phase q) modern sg items rad (q_runtimeID q) (q_uniqueID q) (q_gameData q)"
    by (rule seq_invE)
  note right = shuffles_snoc_right [OF h(1), of x] subseq_snoc_same [OF h(2), of x]
  note left = shuffles_snoc_left [OF h(1), of x] subseq_snoc_same [OF h(2), of x]
  note keep = seq_inv_keep [OF inv, of x]
  show ?thesis
  proof (cases rule: packet_kind_cases [of pk])
    case (1 rid uid)
    with h right keep Pk show ?thesis
      by (cases "q_phase q")
         (auto simp: seq_step.simps seq_parts intro!: seq_invI [of _ _ undefined undefined])
  next
    case (2 sg')
    with h right keep Pk show ?thesis
      by (cases "q_phase q")
         (auto simp: seq_step.simps seq_parts intro!: seq_invI [of _ _ sg' undefined])
  next
    case (3 items')
    with h right keep Pk show ?thesis
      by (cases "q_phase q")
         (auto simp: seq_step.simps seq_parts intro!: seq_invI [of _ _ sg items'])
  next
    case (4 rad')
    with h left keep Pk show ?thesis
      by (cases "q_phase q")
         (auto simp: seq_step.simps seq_parts intro!: seq_invI [of _ _ sg items _ rad'])
  next
    case (5 st')
    with h left keep Pk show ?thesis
      by (cases "q_phase q")
         (auto simp: seq_step.simps seq_parts intro!: seq_invI [of _ _ sg items _ rad st'])
  next
    case 6
    with Pk keep show ?thesis by (simp add: handle_expected_other(2))
  qed
qed

lemma seq_inv_fold: "seq_inv modern xs q \<Longrightarrow> seq_inv modern (xs @ ys) (fold (seq_step modern) ys q)"
proof (induction ys arbitrary: xs q)
  case (Cons y ys)
  from Cons.IH [OF seq_inv_step [OF Cons.prems, of y]] show ?case by simp
qed simp

lemma seq_inv_init: "seq_inv modern [] seq_init"
  by (auto simp: seq_init_def seq_parts intro!: seq_invI)

end
