(* ===== verification/Server_Wire.thy ===== *)
theory Server_Wire
  imports Server_Conn
begin

text \<open>
  What travels over a connection to a downstream server. The specification is the other side: how
  a server frames a packet that the proxy reads, and how it takes apart what the proxy wrote
  (\<open>server_payload\<close>, and the batch items after their little-endian lengths). The laws of the
  libraries involved (packet headers, snappy, field codecs) are named predicates, and
  \<open>demo_lib\<close> is one library that satisfies them.
\<close>

section \<open>Definitions\<close>

subsection \<open>Documented behaviour of the libraries\<close>

text \<open>A header survives the trip if it fits its bit fields; the old contents are overwritten.\<close>

definition header_ok :: "header \<Rightarrow> bool" where
  "header_ok h \<longleftrightarrow> h_PacketID h < 1024 \<and> h_SenderSubClient h < 4 \<and> h_TargetSubClient h < 4"

definition header_codec :: "mclib \<Rightarrow> bool" where
  "header_codec L \<longleftrightarrow>
     (\<forall>h0 h rest. header_ok h \<longrightarrow> mc_HeaderRead L h0 (mc_HeaderWrite L h @ rest) = (Ok (), h, rest))"

text \<open>Snappy blocks below 4 GiB, and the documented bound on the encoded length.\<close>

definition snappy_codec :: "mclib \<Rightarrow> bool" where
  "snappy_codec L \<longleftrightarrow>
     (\<forall>b. length b < 2 ^ 32 \<longrightarrow> snappy_Decode L (snappy_Encode L b) = Ok b) \<and>
     (\<forall>b. length (snappy_Encode L b) \<le> 32 + length b + length b div 6)"

subsection \<open>The other side of the connection\<close>

text \<open>The frame by which a server sends a packet to be decoded.\<close>

definition server_body :: "mclib \<Rightarrow> io \<Rightarrow> header \<Rightarrow> packet \<Rightarrow> bytes" where
  "server_body L w h pk = snd (Marshal L w pk (mc_HeaderWrite L h))"

definition server_frame :: "mclib \<Rightarrow> bool \<Rightarrow> bytes \<Rightarrow> bytes" where
  "server_frame L compressed b =
     frame (if compressed then 3 # snappy_Encode L b else 1 # b)"

text \<open>How a server takes apart the payload of a frame: whether it is a batch, and its contents.\<close>

fun server_payload :: "mclib \<Rightarrow> bytes \<Rightarrow> (bool \<times> bytes) res" where
  "server_payload L [] = Err EOF"
| "server_payload L (flags # body) =
     (case (if flags AND 2 \<noteq> 0 then snappy_Decode L body else Ok body) of
        Ok b \<Rightarrow> Ok (flags AND 4 \<noteq> 0, b)
      | Err e \<Rightarrow> Err e
      | Panic m \<Rightarrow> Panic m)"

definition server_receive :: "mclib \<Rightarrow> stream \<Rightarrow> (bool \<times> bytes) res \<times> stream" where
  "server_receive L s =
     (case Reader_ReadPacket s of
        (Ok p, s') \<Rightarrow> (server_payload L p, s')
      | (Err e, s') \<Rightarrow> (Err e, s')
      | (Panic m, s') \<Rightarrow> (Panic m, s'))"

text \<open>One item of a batch: its length in little-endian order, then its bytes.\<close>

definition batch_item :: "bytes \<Rightarrow> bytes" where
  "batch_item p = le32 (word_of_nat (length p)) @ p"

definition read_batch_item :: "stream \<Rightarrow> bytes res \<times> stream" where
  "read_batch_item s =
     (case binary_Read_le32 s of
        (Ok n, s') \<Rightarrow> ReadFull (unat n) s'
      | (Err e, s') \<Rightarrow> (Err e, s')
      | (Panic m, s') \<Rightarrow> (Panic m, s'))"

subsection \<open>A library that satisfies the laws\<close>

definition demo_take :: "nat \<Rightarrow> bytes \<Rightarrow> bytes res \<times> bytes" where
  "demo_take n b = (if n \<le> length b then (Ok (take n b), drop n b) else (Panic ''EOF'', b))"

definition demo_w32 :: "i32 \<Rightarrow> bytes \<Rightarrow> i32 res \<times> bytes" where
  "demo_w32 v b = (Ok v, b @ le32 v)"

definition demo_r32 :: "i32 \<Rightarrow> bytes \<Rightarrow> i32 res \<times> bytes" where
  "demo_r32 v b = io_then (demo_take 4 b) (\<lambda>x b. (Ok (from_le32 x), b))"

definition demo_w64 :: "i64 \<Rightarrow> bytes \<Rightarrow> i64 res \<times> bytes" where
  "demo_w64 v b = (Ok v, b @ le32 (ucast v) @ le32 (ucast (drop_bit 32 v)))"

definition demo_r64 :: "i64 \<Rightarrow> bytes \<Rightarrow> i64 res \<times> bytes" where
  "demo_r64 v b = io_then (demo_r32 0 b) (\<lambda>lo b. io_then (demo_r32 0 b) (\<lambda>hi b.
     (Ok (ucast lo OR push_bit 32 (ucast hi)), b)))"

definition demo_wbytes :: "bytes \<Rightarrow> bytes \<Rightarrow> bytes res \<times> bytes" where
  "demo_wbytes s b = (Ok s, b @ le32 (word_of_nat (length s)) @ s)"

definition demo_rbytes :: "bytes \<Rightarrow> bytes \<Rightarrow> bytes res \<times> bytes" where
  "demo_rbytes s b = io_then (demo_r32 0 b) (\<lambda>n b. demo_take (unat n) b)"

definition demo_writer :: io where
  "demo_writer = \<lparr>io_String = \<lambda>s b. (Ok s, b @ le32 (word_of_nat (length s)) @ str_bytes s),
     io_ByteSlice = demo_wbytes, io_Int32 = demo_w32, io_Int64 = demo_w64,
     io_Varuint64 = demo_w64, io_Varint64 = demo_w64\<rparr>"

definition demo_reader :: io where
  "demo_reader = \<lparr>io_String = \<lambda>s b. io_then (demo_rbytes [] b) (\<lambda>x b. (Ok (bytes_str x), b)),
     io_ByteSlice = demo_rbytes, io_Int32 = demo_r32, io_Int64 = demo_r64,
     io_Varuint64 = demo_r64, io_Varint64 = demo_r64\<rparr>"

definition demo_start_game :: start_game where
  "demo_start_game = \<lparr>sg_Difficulty = 2, sg_WorldName = ''w'', sg_WorldSeed = 7,
     sg_PlayerGameMode = 1, sg_BaseGameVersion = ''*'', sg_PlayerPosition = (8, 64, -20), sg_Pitch = 0,
     sg_Yaw = 90, sg_Dimension = DimensionOverworld, sg_WorldSpawn = [], sg_EditorWorldType = [],
     sg_CreatedInEditor = False, sg_ExportedFromEditor = False, sg_PersonaDisabled = False,
     sg_CustomSkinsDisabled = False, sg_GameRules = [1], sg_Time = 0, sg_ServerBlockStateChecksum = 0,
     sg_Blocks = [], sg_PlayerMovementSettings = [], sg_WorldGameMode = 0, sg_Hardcore = False,
     sg_ServerAuthoritativeInventory = True, sg_PlayerPermissions = [], sg_ChatRestrictionLevel = [],
     sg_DisablePlayerInteractions = False, sg_ClientSideGeneration = False, sg_Experiments = [],
     sg_UseBlockNetworkIDHashes = True\<rparr>"

text \<open>Vanilla packets carry no bytes here: the factory returns the one instance there is.\<close>

fun demo_ID :: "packet \<Rightarrow> u32" where
  "demo_ID (StartGame _) = 11"
| "demo_ID (ItemRegistry _) = 162"
| "demo_ID (ChunkRadiusUpdated _) = 70"
| "demo_ID (PlayStatus _) = 2"
| "demo_ID (RequestChunkRadius _) = 69"
| "demo_ID (OtherPacket i _) = i"
| "demo_ID _ = 300"

definition demo_pool :: "u32 \<rightharpoonup> packet" where
  "demo_pool = registered_from_server ++
     [11 \<mapsto> StartGame demo_start_game, 162 \<mapsto> ItemRegistry [\<lparr>it_Name = ''minecraft:shield'', it_RuntimeID = 355\<rparr>],
      70 \<mapsto> ChunkRadiusUpdated 8, 2 \<mapsto> PlayStatus PlayStatusPlayerSpawn, 9 \<mapsto> OtherPacket 9 []]"

definition demo_proto :: proto where
  "demo_proto = \<lparr>proto_ID = 800, proto_Packets = \<lambda>_. demo_pool, proto_NewWriter = \<lambda>_. demo_writer,
     proto_NewReader = \<lambda>_ _. demo_reader, proto_ConvertToLatest = \<lambda>p. [p]\<rparr>"

definition demo_HeaderRead :: "header \<Rightarrow> bytes \<Rightarrow> unit res \<times> header \<times> bytes" where
  "demo_HeaderRead h b =
     (case demo_r32 0 b of
        (Ok i, s # t # b') \<Rightarrow>
          (Ok (), \<lparr>h_PacketID = i, h_SenderSubClient = s, h_TargetSubClient = t\<rparr>, b')
      | (_, b') \<Rightarrow> (Err EOF, h, b'))"

definition demo_lib :: mclib where
  "demo_lib = \<lparr>mc_IDStartGame = 11, mc_IDItemRegistry = 162, mc_IDChunkRadiusUpdated = 70,
     mc_IDPlayStatus = 2, mc_ID = demo_ID, mc_Marshal = \<lambda>io pk b. (Ok pk, b),
     mc_HeaderWrite = \<lambda>h. le32 (h_PacketID h) @ [h_SenderSubClient h, h_TargetSubClient h],
     mc_HeaderRead = demo_HeaderRead, mc_DefaultProtocol = demo_proto,
     snappy_Encode = \<lambda>b. 255 # b, snappy_Decode = \<lambda>b. if b = [] then Err EOF else Ok (tl b)\<rparr>"

definition demo_client_info :: client_info where
  "demo_client_info = \<lparr>ci_ClientData = Ok [1], ci_IdentityData = Ok [2], ci_RemoteAddr = ''10.0.0.1'',
     ci_CacheEnabled = False, ci_Proto = demo_proto\<rparr>"

definition demo_conn :: "bytes \<Rightarrow> 'cb conn" where
  "demo_conn input = NewConn demo_lib (\<lparr>s_data = input, s_end = EOF\<rparr>, \<lparr>k_out = [], k_faults = []\<rparr>)
     demo_client_info False []"

section \<open>Lemmas\<close>

subsection \<open>The demonstration library satisfies the laws\<close>

lemma demo_take_exact: "length x = n \<Longrightarrow> demo_take n (x @ rest) = (Ok x, rest)"
  by (simp add: demo_take_def)

lemma demo_r32_le32: "demo_r32 y (le32 v @ rest) = (Ok v, rest)"
  by (simp add: demo_r32_def demo_take_exact)

lemma word64_halves: "ucast (ucast v :: u32) OR push_bit 32 (ucast (ucast (drop_bit 32 v) :: u32)) = (v :: u64)"
proof (rule bit_eqI, goal_cases)
  case (1 n)
  then show ?case
    by (cases "n < 32") (auto simp: bit_simps)
qed

lemma demo_r64_w64: "demo_r64 y (le32 (ucast v) @ le32 (ucast (drop_bit 32 v)) @ rest) = (Ok v, rest)"
  by (simp add: demo_r64_def demo_r32_le32 word64_halves)

lemma demo_rbytes_exact:
  "length s < 2 ^ 32 \<Longrightarrow> demo_rbytes y (le32 (word_of_nat (length s)) @ s @ rest) = (Ok s, rest)"
  by (simp add: demo_rbytes_def demo_r32_le32 demo_take_exact unat_word_of_nat_32)

lemma demo_io_codec: "io_codec demo_writer demo_reader"
proof -
  have 1: "field_codec (\<lambda>_. True) demo_w32 demo_r32"
    by (auto simp: field_codec_def demo_w32_def intro!: exI [of _ "le32 _"] demo_r32_le32)
  have 2: "field_codec (\<lambda>_. True) demo_w64 demo_r64"
    by (auto simp: field_codec_def demo_w64_def demo_r64_w64
        intro!: exI [of _ "le32 (ucast _) @ le32 (ucast (drop_bit 32 _))"])
  have 3: "field_codec (\<lambda>s. length s < 2 ^ 31) demo_wbytes demo_rbytes"
    unfolding field_codec_def
  proof (intro allI impI)
    fix s :: bytes assume "length s < 2 ^ 31"
    then show "\<exists>e. (\<forall>buf. demo_wbytes s buf = (Ok s, buf @ e)) \<and> (\<forall>y rest. demo_rbytes y (e @ rest) = (Ok s, rest))"
      using demo_rbytes_exact [of s]
      by (intro exI [of _ "le32 (word_of_nat (length s)) @ s"]) (simp add: demo_wbytes_def)
  qed
  have 4: "field_codec (\<lambda>s. length s < 2 ^ 31) (io_String demo_writer) (io_String demo_reader)"
    unfolding field_codec_def
  proof (intro allI impI)
    fix s :: string assume "length s < 2 ^ 31"
    then show "\<exists>e. (\<forall>buf. io_String demo_writer s buf = (Ok s, buf @ e)) \<and>
        (\<forall>y rest. io_String demo_reader y (e @ rest) = (Ok s, rest))"
      using demo_rbytes_exact [of "str_bytes s"]
      by (intro exI [of _ "le32 (word_of_nat (length s)) @ str_bytes s"])
         (simp add: demo_writer_def demo_reader_def)
  qed
  from 1 2 3 4 show ?thesis
    by (simp add: io_codec_def demo_writer_def demo_reader_def)
qed

lemma demo_header_codec: "header_codec demo_lib"
  by (simp add: header_codec_def demo_lib_def demo_HeaderRead_def demo_r32_le32)

lemma demo_snappy_codec: "snappy_codec demo_lib"
  by (simp add: snappy_codec_def demo_lib_def)

lemma demo_conn_simps:
  "c_ctx (demo_conn i) = None" "writer_wf (c_writer (demo_conn i))"
  "w_w (c_writer (demo_conn i)) = \<lparr>k_out = [], k_faults = []\<rparr>"
  "c_reader (demo_conn i) = \<lparr>s_data = i, s_end = EOF\<rparr>" "c_pool (demo_conn i) = demo_pool"
  "c_protocol (demo_conn i) = demo_proto" "c_shieldID (demo_conn i) = 0"
  by (simp_all add: demo_conn_def NewConn_def expect_def demo_lib_def demo_proto_def Let_def)
     (simp add: NewWriter_def)

lemma demo_ids_ok: "ids_ok demo_lib"
  by (simp add: ids_ok_def demo_lib_def IDConnectionResponse_def)

subsection \<open>What the proxy writes\<close>

interpretation batch_items: stream_code batch_item read_batch_item "\<lambda>p. length p < 2 ^ 32"
  by unfold_locales (simp add: read_batch_item_def batch_item_def wire_simps)

lemma batch_buffer_items: "batch_buffer ps = concat (map batch_item ps)"
  by (induction ps) (simp_all add: batch_item_def)

lemma snappy_codec_length:
  assumes "snappy_codec L" "length b < 2 ^ 31"
  shows "length (snappy_Encode L b) + 1 < 2 ^ 32"
proof -
  have "length (snappy_Encode L b) \<le> 32 + length b + length b div 6"
    using assms(1) by (simp add: snappy_codec_def)
  moreover have "length b div 6 \<le> 2 ^ 31 div 6" using assms(2) by (intro div_le_mono) simp
  ultimately show ?thesis using assms(2) by simp
qed

lemma flag_bits:
  "(2 OR f) AND 2 \<noteq> (0::byte)" "f \<in> {0, 4} \<Longrightarrow> f AND 2 = (0::byte)"
  "f \<in> {0, 4} \<Longrightarrow> ((2 OR f) AND 4 = 0) = (f = (0::byte))" "f \<in> {0, 4} \<Longrightarrow> (f AND 4 = 0) = (f = (0::byte))"
proof -
  have "bit ((2 OR f) AND (2::byte)) 1" by (simp add: bit_simps)
  then show "(2 OR f) AND 2 \<noteq> (0::byte)" by auto
qed auto

text \<open>On a sink without faults one frame goes out, and the server recovers its contents.\<close>

lemma write_compressing_delivers:
  assumes "writer_wf (c_writer c)" "k_faults (w_w (c_writer c)) = []" "snappy_codec L"
    "length b < 2 ^ 31" "f \<in> {0, 4}"
  shows "\<exists>w p. write_compressing L f b c = (Ok (), c\<lparr>c_writer := w\<rparr>) \<and> writer_wf w \<and>
    k_faults (w_w w) = [] \<and> k_out (w_w w) = k_out (w_w (c_writer c)) @ frame p \<and>
    (hd p AND flagPacketCompressed \<noteq> 0 \<longleftrightarrow> 256 < length b) \<and>
    (\<forall>rest e. server_receive L \<lparr>s_data = frame p @ rest, s_end = e\<rparr> =
       (Ok (f \<noteq> 0, b), \<lparr>s_data = rest, s_end = e\<rparr>))"
proof -
  have recv: "server_receive L \<lparr>s_data = frame p @ rest, s_end = e\<rparr> =
      (server_payload L p, \<lparr>s_data = rest, s_end = e\<rparr>)" if "length p < 2 ^ 32" for p rest e
    using frames.dec_enc [OF that] by (simp add: server_receive_def)
  have dec: "snappy_Decode L (snappy_Encode L b) = Ok b"
    using assms(3,4) by (simp add: snappy_codec_def)
  define p where "p = (if 256 < length b then (2 OR f) # snappy_Encode L b else f # b)"
  have "length p < 2 ^ 32"
    using snappy_codec_length [OF assms(3,4)] assms(4) by (simp add: p_def)
  moreover have "server_payload L p = Ok (f \<noteq> 0, b)"
    using dec flag_bits(1) [of f] flag_bits(2-) [OF assms(5)] by (auto simp: p_def)
  moreover have "(hd p AND flagPacketCompressed \<noteq> 0) = (256 < length b)"
    using flag_bits(1) [of f] flag_bits(2) [OF assms(5)] by (simp add: p_def)
  moreover obtain w where "write_compressing L f b c = (Ok (), c\<lparr>c_writer := w\<rparr>)" "writer_wf w"
    "w_w w = (w_w (c_writer c))\<lparr>k_out := k_out (w_w (c_writer c)) @ frame p\<rparr>"
    using Writer_WriteWithFlags_clean [OF assms(1,2)]
    by (cases "256 < length b")
       (force simp: write_compressing_def compressionThreshold_def p_def split: prod.splits)+
  ultimately show ?thesis
    using recv assms(2) by (intro exI [of _ w] exI [of _ p]) simp
qed

lemma WritePacket_sends:
  assumes "c_ctx c = None" "writer_wf (c_writer c)" "k_faults (w_w (c_writer c)) = []" "snappy_codec L"
    "headerPool_Get g = (h, g1)"
    "Marshal L (proto_NewWriter (c_protocol c) (c_shieldID c)) pk
       (mc_HeaderWrite L (h\<lparr>h_PacketID := pk_ID L pk\<rparr>)) = (Ok pk', b)"
    "length b < 2 ^ 31"
  shows "\<exists>w p. WritePacket L pk (g, c) =
      (Ok (), headerPool_Put (h\<lparr>h_PacketID := pk_ID L pk\<rparr>) g1, c\<lparr>c_writer := w\<rparr>) \<and>
    k_out (w_w w) = k_out (w_w (c_writer c)) @ frame p \<and>
    (hd p AND flagPacketCompressed \<noteq> 0 \<longleftrightarrow> 256 < length b) \<and>
    (\<forall>rest e. server_receive L \<lparr>s_data = frame p @ rest, s_end = e\<rparr> =
       (Ok (False, b), \<lparr>s_data = rest, s_end = e\<rparr>))"
proof -
  obtain w p where "write_compressing L 0 b c = (Ok (), c\<lparr>c_writer := w\<rparr>)"
    "k_out (w_w w) = k_out (w_w (c_writer c)) @ frame p"
    "(hd p AND flagPacketCompressed \<noteq> 0) = (256 < length b)"
    "\<And>rest e. server_receive L \<lparr>s_data = frame p @ rest, s_end = e\<rparr> =
       (Ok (False, b), \<lparr>s_data = rest, s_end = e\<rparr>)"
    using write_compressing_delivers [OF assms(2-4,7), of 0] by auto
  with assms show ?thesis
    by (intro exI [of _ w] exI [of _ p]) (simp add: WritePacket_def)
qed

lemma WriteBatch_sends:
  assumes "c_ctx c = None" "writer_wf (c_writer c)" "k_faults (w_w (c_writer c)) = []" "snappy_codec L"
    "length (batch_buffer ps) < 2 ^ 31" "list_all (\<lambda>p. length p < 2 ^ 31) ps"
  shows "\<exists>w out. WriteBatch L ps c = (Ok (), c\<lparr>c_writer := w\<rparr>) \<and>
    k_out (w_w w) = k_out (w_w (c_writer c)) @ out \<and> (ps = [] \<longrightarrow> out = []) \<and>
    (ps \<noteq> [] \<longrightarrow> (\<forall>rest e. \<exists>b. server_receive L \<lparr>s_data = out @ rest, s_end = e\<rparr> =
         (Ok (True, b), \<lparr>s_data = rest, s_end = e\<rparr>) \<and>
       read_many read_batch_item (length ps) \<lparr>s_data = b, s_end = EOF\<rparr> = (Ok ps, \<lparr>s_data = [], s_end = EOF\<rparr>)))"
proof (cases "ps = []")
  case True
  with assms(1) show ?thesis by (intro exI [of _ "c_writer c"]) (simp add: WriteBatch_def)
next
  case False
  obtain w p where "write_compressing L 4 (batch_buffer ps) c = (Ok (), c\<lparr>c_writer := w\<rparr>)"
    "k_out (w_w w) = k_out (w_w (c_writer c)) @ frame p"
    "\<And>rest e. server_receive L \<lparr>s_data = frame p @ rest, s_end = e\<rparr> =
       (Ok (True, batch_buffer ps), \<lparr>s_data = rest, s_end = e\<rparr>)"
    using write_compressing_delivers [OF assms(2-5), of 4] by auto
  moreover have "list_all (\<lambda>p. length p < 2 ^ 32) ps"
    using assms(6) by (rule list.pred_mono_strong) simp
  from batch_items.read_many_enc [OF this, of "[]" EOF]
  have "read_many read_batch_item (length ps) \<lparr>s_data = batch_buffer ps, s_end = EOF\<rparr> =
      (Ok ps, \<lparr>s_data = [], s_end = EOF\<rparr>)" by (simp add: batch_buffer_items)
  ultimately show ?thesis
    using False assms(1) by (intro exI [of _ w] exI [of _ "frame p"]) (simp add: WriteBatch_def)
qed

subsection \<open>What the proxy reads\<close>

lemma server_body_eq:
  assumes "io_codec w r" "spectrum_packet pk" "factory_of pk = Some zero"
  obtains e where "server_body L w h pk = mc_HeaderWrite L h @ e"
    "\<And>rest. Marshal L r zero (e @ rest) = (Ok pk, rest)"
  using Marshal_roundtrip [OF assms, of L] by (auto simp: server_body_def)

lemma read_sent_packet:
  assumes io: "io_codec w (proto_NewReader (c_protocol c) (c_shieldID c) False)"
    and lib: "header_codec L" "snappy_codec L"
    and h: "header_ok h" "h_PacketID h = pk_ID L pk"
    and pk: "spectrum_packet pk" "factory_of pk = Some zero" "c_pool c (pk_ID L pk) = Some zero"
    and len: "length (server_body L w h pk) < 2 ^ 31"
    and rd: "c_reader c = \<lparr>s_data = server_frame L z (server_body L w h pk) @ rest, s_end = e\<rparr>"
  shows "read L (g, c) = (Ok (Pk pk), headerPool_Put h (snd (headerPool_Get g)),
    c\<lparr>c_reader := \<lparr>s_data = rest, s_end = e\<rparr>\<rparr>)"
proof -
  let ?b = "server_body L w h pk"
  obtain x where x: "?b = mc_HeaderWrite L h @ x"
    "\<And>rest. Marshal L (proto_NewReader (c_protocol c) (c_shieldID c) False) zero (x @ rest) = (Ok pk, rest)"
    using server_body_eq [OF io pk(1,2)] by metis
  let ?p = "if z then 3 # snappy_Encode L ?b else 1 # ?b"
  have "length ?p < 2 ^ 32" using snappy_codec_length [OF lib(2) len] len by simp
  from frames.dec_enc [OF this, of rest e] rd
  have frame: "Reader_ReadPacket (c_reader c) = (Ok ?p, \<lparr>s_data = rest, s_end = e\<rparr>)"
    by (simp add: server_frame_def)
  have dec: "snappy_Decode L (snappy_Encode L ?b) = Ok ?b" using lib(2) len by (simp add: snappy_codec_def)
  have hdr: "mc_HeaderRead L h0 ?b = (Ok (), h, x)" for h0
    using lib(1) h(1) x(1) by (simp add: header_codec_def)
  obtain h0 g1 where g: "headerPool_Get g = (h0, g1)" by fastforce
  show ?thesis
    using x(2) [of "[]"] pk(3) by (auto simp: read_def frame dec decode_server_packet_def hdr g h(2))
qed

subsection \<open>Reading on after the spawn\<close>

fun drain ::
  "('cb \<Rightarrow> go_error option \<Rightarrow> 'w glob_scheme \<times> 'cb conn \<Rightarrow> unit res \<times> 'w glob_scheme \<times> 'cb conn) \<Rightarrow>
   mclib \<Rightarrow> bool \<Rightarrow> nat \<Rightarrow> 'w glob_scheme \<times> 'cb conn \<Rightarrow> any res list \<times> 'w glob_scheme \<times> 'cb conn" where
  "drain run L pick 0 gc = ([], gc)"
| "drain run L pick (Suc n) gc =
     (case ReadPacket run L pick 1 gc of
        None \<Rightarrow> ([], gc)
      | Some (r, gc1) \<Rightarrow> (let (rs, gc2) = drain run L pick n gc1 in (r # rs, gc2)))"

lemma drain_deferred:
  "c_spawned c \<Longrightarrow> c_ctx c = None \<Longrightarrow> n \<le> length (c_deferred c) \<Longrightarrow>
   drain run L pick n (g, c) = (map Ok (take n (c_deferred c)), g, c\<lparr>c_deferred := drop n (c_deferred c)\<rparr>)"
proof (induction n arbitrary: c)
  case (Suc n)
  then obtain p ps where "c_deferred c = p # ps" by (cases "c_deferred c") auto
  with Suc.prems Suc.IH [of "c\<lparr>c_deferred := ps\<rparr>"] show ?case by simp
qed simp

section \<open>Properties\<close>

text \<open>
  C20. A packet of the proxy's own protocol that a server sends with the decode flag, compressed or
  not, is what \<^verbatim>\<open>Conn.read\<close> returns, and the connection is left exactly at the bytes that follow
  the frame.
\<close>

theorem read_returns_sent_packet:
  assumes "io_codec w (proto_NewReader (c_protocol c) (c_shieldID c) False)"
    and "header_codec L" "snappy_codec L" "header_ok h" "h_PacketID h = pk_ID L pk"
    and "spectrum_packet pk" "factory_of pk = Some zero" "c_pool c (pk_ID L pk) = Some zero"
    and "length (server_body L w h pk) < 2 ^ 31"
    and "c_reader c = \<lparr>s_data = server_frame L z (server_body L w h pk) @ rest, s_end = e\<rparr>"
  shows "fst (read L (g, c)) = Ok (Pk pk) \<and>
    snd (snd (read L (g, c))) = c\<lparr>c_reader := \<lparr>s_data = rest, s_end = e\<rparr>\<rparr>"
  unfolding read_sent_packet [OF assms] by simp

theorem read_returns_sent_packet_witness:
  "fst (read demo_lib (\<lparr>headerPool = []\<rparr>, (demo_conn (server_frame demo_lib True
     (server_body demo_lib demo_writer \<lparr>h_PacketID = 501, h_SenderSubClient = 0, h_TargetSubClient = 0\<rparr>
       (ConnectionResponse 7 9)) @ [1]) :: unit conn))) = Ok (Pk (ConnectionResponse 7 9))"
proof -
  let ?h = "\<lparr>h_PacketID = 501, h_SenderSubClient = 0, h_TargetSubClient = 0\<rparr>"
  let ?pk = "ConnectionResponse 7 9"
  let ?c = "demo_conn (server_frame demo_lib True (server_body demo_lib demo_writer ?h ?pk) @ [1]) :: unit conn"
  have c: "proto_NewReader (c_protocol ?c) (c_shieldID ?c) False = demo_reader" "c_pool ?c = demo_pool"
    "c_reader ?c = \<lparr>s_data = server_frame demo_lib True (server_body demo_lib demo_writer ?h ?pk) @ [1], s_end = EOF\<rparr>"
    by (simp_all add: demo_conn_simps demo_proto_def)
  have "length (server_body demo_lib demo_writer ?h ?pk) < 2 ^ 31"
    by (simp add: server_body_def demo_lib_def Marshal_def ConnectionResponse_Marshal_def demo_writer_def demo_w64_def)
  then show ?thesis
    using read_returns_sent_packet [of demo_writer ?c demo_lib ?h ?pk "ConnectionResponse 0 0" True "[1]" EOF
        "\<lparr>headerPool = []\<rparr>"]
    by (simp add: c demo_io_codec demo_header_codec demo_snappy_codec header_ok_def factory_of_def
        registered_from_server_def demo_pool_def spectrum_id_defs)
qed

text \<open>
  C21. \<^verbatim>\<open>WritePacket\<close> on an open connection sends one frame, from which the server recovers header
  and body, and the frame is compressed exactly when they are longer than 256 bytes.
\<close>

theorem WritePacket_delivers:
  assumes "c_ctx c = None" "writer_wf (c_writer c)" "k_faults (w_w (c_writer c)) = []" "snappy_codec L"
    "headerPool_Get g = (h, g1)"
    "Marshal L (proto_NewWriter (c_protocol c) (c_shieldID c)) pk
       (mc_HeaderWrite L (h\<lparr>h_PacketID := pk_ID L pk\<rparr>)) = (Ok pk', b)"
    "length b < 2 ^ 31"
  shows "\<exists>g' w p. WritePacket L pk (g, c) = (Ok (), g', c\<lparr>c_writer := w\<rparr>) \<and>
    k_out (w_w w) = k_out (w_w (c_writer c)) @ frame p \<and>
    (hd p AND flagPacketCompressed \<noteq> 0 \<longleftrightarrow> 256 < length b) \<and>
    (\<forall>rest e. server_receive L \<lparr>s_data = frame p @ rest, s_end = e\<rparr> =
       (Ok (False, b), \<lparr>s_data = rest, s_end = e\<rparr>))"
  using WritePacket_sends [OF assms] by blast

theorem WritePacket_delivers_witness:
  "\<exists>g' w p. WritePacket demo_lib (UpdateCache (replicate 300 5)) (\<lparr>headerPool = []\<rparr>, demo_conn [] :: unit conn) =
      (Ok (), g', (demo_conn [])\<lparr>c_writer := w\<rparr>) \<and> k_out (w_w w) = frame p \<and> hd p AND flagPacketCompressed \<noteq> 0"
proof -
  let ?c = "demo_conn [] :: unit conn"
  let ?b = "le32 505 @ [0, 0] @ le32 300 @ replicate 300 5"
  have c: "c_ctx ?c = None" "writer_wf (c_writer ?c)" "k_faults (w_w (c_writer ?c)) = []"
    "k_out (w_w (c_writer ?c)) = []"
    by (simp_all add: demo_conn_simps)
  have m: "Marshal demo_lib (proto_NewWriter (c_protocol ?c) (c_shieldID ?c)) (UpdateCache (replicate 300 5))
      (mc_HeaderWrite demo_lib (zero_header\<lparr>h_PacketID := pk_ID demo_lib (UpdateCache (replicate 300 5))\<rparr>)) =
      (Ok (UpdateCache (replicate 300 5)), ?b)"
    by (simp add: demo_conn_simps demo_lib_def demo_proto_def Marshal_def
        UpdateCache_Marshal_def demo_writer_def demo_wbytes_def zero_header_def IDUpdateCache_def)
  have g: "headerPool_Get \<lparr>headerPool = []\<rparr> = (zero_header, \<lparr>headerPool = []\<rparr>)" by (simp add: headerPool_Get_def)
  have "length ?b < 2 ^ 31" "256 < length ?b" by simp_all
  with WritePacket_delivers [OF c(1-3) demo_snappy_codec g m] c(4) show ?thesis by auto
qed

text \<open>
  C13. \<^verbatim>\<open>WriteBatch\<close> of any number of payloads sends one frame marked as a batch, compressed or
  not, and a server that takes lengths in little-endian order recovers exactly those payloads, in
  order; an empty batch sends nothing.
\<close>

theorem WriteBatch_delivers:
  assumes "c_ctx c = None" "writer_wf (c_writer c)" "k_faults (w_w (c_writer c)) = []" "snappy_codec L"
    "length (batch_buffer ps) < 2 ^ 31" "list_all (\<lambda>p. length p < 2 ^ 31) ps"
  shows "\<exists>w out. WriteBatch L ps c = (Ok (), c\<lparr>c_writer := w\<rparr>) \<and>
    k_out (w_w w) = k_out (w_w (c_writer c)) @ out \<and> (ps = [] \<longrightarrow> out = []) \<and>
    (ps \<noteq> [] \<longrightarrow> (\<forall>rest e. \<exists>b. server_receive L \<lparr>s_data = out @ rest, s_end = e\<rparr> =
         (Ok (True, b), \<lparr>s_data = rest, s_end = e\<rparr>) \<and>
       read_many read_batch_item (length ps) \<lparr>s_data = b, s_end = EOF\<rparr> = (Ok ps, \<lparr>s_data = [], s_end = EOF\<rparr>)))"
  using assms by (rule WriteBatch_sends)

theorem WriteBatch_delivers_witness:
  "\<exists>w. WriteBatch demo_lib [[1, 2], [3]] (demo_conn [] :: unit conn) = (Ok (), (demo_conn [])\<lparr>c_writer := w\<rparr>) \<and>
    k_out (w_w w) = frame [4, 2, 0, 0, 0, 1, 2, 1, 0, 0, 0, 3]"
proof -
  let ?c = "demo_conn [] :: unit conn"
  have c: "c_ctx ?c = None" "writer_wf (c_writer ?c)" "k_faults (w_w (c_writer ?c)) = []"
    "w_w (c_writer ?c) = \<lparr>k_out = [], k_faults = []\<rparr>"
    by (simp_all add: demo_conn_simps)
  have "\<exists>w. WriteBatch demo_lib [[1, 2], [3]] ?c = (Ok (), ?c\<lparr>c_writer := w\<rparr>)"
    using WriteBatch_delivers [OF c(1-3) demo_snappy_codec, of "[[1, 2], [3]]"] by (auto simp: le32_def)
  then obtain w where w: "WriteBatch demo_lib [[1, 2], [3]] ?c = (Ok (), ?c\<lparr>c_writer := w\<rparr>)" ..
  obtain r w' where "Writer_WriteWithFlags 4 (batch_buffer [[1, 2], [3]]) (c_writer ?c) = (r, w')" by fastforce
  with Writer_WriteWithFlags_clean [OF c(2,3) this] c(1,4)
  have "WriteBatch demo_lib [[1, 2], [3]] ?c = (Ok (), ?c\<lparr>c_writer := w'\<rparr>)"
    and out: "k_out (w_w w') = frame [4, 2, 0, 0, 0, 1, 2, 1, 0, 0, 0, 3]"
    by (auto simp: WriteBatch_def write_compressing_def compressionThreshold_def le32_def)
  with w have "?c\<lparr>c_writer := w\<rparr> = ?c\<lparr>c_writer := w'\<rparr>" by simp
  from arg_cong [OF this, of c_writer] w out show ?thesis by auto
qed

text \<open>
  A frame of length zero from a server panics the reader of the connection: the flag byte is
  taken before the deferred recovery is installed.
\<close>

lemma empty_frame_panics:
  assumes "c_reader c = \<lparr>s_data = frame [] @ rest, s_end = e\<rparr>"
  shows "fst (read L (g, c)) = Panic ''index out of range''"
  using frames.dec_enc [of "[]" rest e] assms by (simp add: read_def)

lemma empty_frame_panics_witness:
  "fst (read demo_lib (\<lparr>headerPool = []\<rparr>, demo_conn [0, 0, 0, 0] :: unit conn)) = Panic ''index out of range''"
proof -
  have "c_reader (demo_conn [0, 0, 0, 0] :: unit conn) = \<lparr>s_data = frame [] @ [], s_end = EOF\<rparr>"
    by (simp add: demo_conn_simps frame_def be32_def)
  then show ?thesis by (rule empty_frame_panics)
qed

text \<open>
  Once spawned, a connection hands out the deferred packets one by one in the order in which
  they arrived, before it reads anything from the network.
\<close>

lemma deferred_packets_first:
  assumes "c_spawned c" "c_ctx c = None"
  shows "drain run L pick (length (c_deferred c)) (g, c) =
      (map Ok (c_deferred c), g, c\<lparr>c_deferred := []\<rparr>) \<and>
    ReadPacket run L pick 1 (g, c\<lparr>c_deferred := []\<rparr>) = Some (read L (g, c\<lparr>c_deferred := []\<rparr>))"
  using drain_deferred [OF assms, of "length (c_deferred c)"] assms by simp

lemma deferred_packets_first_witness:
  "drain (\<lambda>_ _ gc. (Ok (), gc)) demo_lib True 2
     (\<lparr>headerPool = []\<rparr>, (demo_conn [] :: unit conn)\<lparr>c_spawned := True, c_deferred := [Raw [1], Pk Flush]\<rparr>) =
   ([Ok (Raw [1]), Ok (Pk Flush)], \<lparr>headerPool = []\<rparr>, (demo_conn [])\<lparr>c_spawned := True, c_deferred := []\<rparr>)"
proof -
  let ?c = "(demo_conn [] :: unit conn)\<lparr>c_spawned := True, c_deferred := [Raw [1], Pk Flush]\<rparr>"
  have "c_spawned ?c" "c_ctx ?c = None" by (simp_all add: demo_conn_simps)
  from deferred_packets_first [OF this, of "\<lambda>_ _ gc. (Ok (), gc)" demo_lib True "\<lparr>headerPool = []\<rparr>"] show ?thesis
    by (simp add: numeral_2_eq_2)
qed

text \<open>
  The header object read for one packet is the one written for the next: the sub-client
  numbers that a server put into a header come back in the header of the next packet the proxy
  writes, on whichever connection that is.
\<close>

lemma header_pool_leaks_subclients:
  assumes "io_codec w (proto_NewReader (c_protocol c) (c_shieldID c) False)"
    and "header_codec L" "snappy_codec L" "header_ok h" "h_PacketID h = pk_ID L pk"
    and "spectrum_packet pk" "factory_of pk = Some zero" "c_pool c (pk_ID L pk) = Some zero"
    and "length (server_body L w h pk) < 2 ^ 31"
    and "c_reader c = \<lparr>s_data = server_frame L z (server_body L w h pk) @ rest, s_end = e\<rparr>"
    and "c_ctx d = None" "writer_wf (c_writer d)" "k_faults (w_w (c_writer d)) = []"
    and "Marshal L (proto_NewWriter (c_protocol d) (c_shieldID d)) pk2
       (mc_HeaderWrite L (h\<lparr>h_PacketID := pk_ID L pk2\<rparr>)) = (Ok pk2', b)" "length b < 2 ^ 31"
  shows "\<exists>g' g'' w' p. read L (g, c) = (Ok (Pk pk), g', c\<lparr>c_reader := \<lparr>s_data = rest, s_end = e\<rparr>\<rparr>) \<and>
    WritePacket L pk2 (g', d) = (Ok (), g'', d\<lparr>c_writer := w'\<rparr>) \<and>
    k_out (w_w w') = k_out (w_w (c_writer d)) @ frame p \<and>
    server_receive L \<lparr>s_data = frame p, s_end = EOF\<rparr> = (Ok (False, b), \<lparr>s_data = [], s_end = EOF\<rparr>)"
proof -
  let ?g' = "headerPool_Put h (snd (headerPool_Get g))"
  have "headerPool_Get ?g' = (h, snd (headerPool_Get g))"
    by (simp add: headerPool_Get_def headerPool_Put_def)
  from WritePacket_sends [OF assms(11-13,3) this assms(14,15)] read_sent_packet [OF assms(1-10), of g]
  show ?thesis by (metis append_Nil2)
qed

lemma header_pool_leaks_subclients_witness:
  "\<exists>g' c' g'' d' p. read demo_lib (\<lparr>headerPool = []\<rparr>, (demo_conn (server_frame demo_lib False
       (server_body demo_lib demo_writer \<lparr>h_PacketID = 502, h_SenderSubClient = 1, h_TargetSubClient = 2\<rparr> Flush))
         :: unit conn)) = (Ok (Pk Flush), g', c') \<and>
    WritePacket demo_lib (RequestChunkRadius 16) (g', demo_conn [] :: unit conn) = (Ok (), g'', d') \<and>
    k_out (w_w (c_writer d')) = frame p \<and>
    server_receive demo_lib \<lparr>s_data = frame p, s_end = EOF\<rparr> =
      (Ok (False, le32 69 @ [1, 2]), \<lparr>s_data = [], s_end = EOF\<rparr>)"
proof -
  let ?h = "\<lparr>h_PacketID = 502, h_SenderSubClient = 1, h_TargetSubClient = 2\<rparr>"
  let ?c = "demo_conn (server_frame demo_lib False (server_body demo_lib demo_writer ?h Flush)) :: unit conn"
  let ?d = "demo_conn [] :: unit conn"
  have c: "proto_NewReader (c_protocol ?c) (c_shieldID ?c) False = demo_reader" "c_pool ?c = demo_pool"
    "c_reader ?c = \<lparr>s_data = server_frame demo_lib False (server_body demo_lib demo_writer ?h Flush) @ [], s_end = EOF\<rparr>"
    by (simp_all add: demo_conn_simps demo_proto_def)
  have d: "c_ctx ?d = None" "writer_wf (c_writer ?d)" "k_faults (w_w (c_writer ?d)) = []"
    "k_out (w_w (c_writer ?d)) = []"
    by (simp_all add: demo_conn_simps)
  have m: "Marshal demo_lib (proto_NewWriter (c_protocol ?d) (c_shieldID ?d)) (RequestChunkRadius 16)
      (mc_HeaderWrite demo_lib (?h\<lparr>h_PacketID := pk_ID demo_lib (RequestChunkRadius 16)\<rparr>)) =
      (Ok (RequestChunkRadius 16), le32 69 @ [1, 2])"
    by (simp add: demo_conn_simps demo_lib_def Marshal_def pk_ID_def)
  have len: "length (server_body demo_lib demo_writer ?h Flush) < 2 ^ 31"
    by (simp add: server_body_def demo_lib_def Marshal_def Flush_Marshal_def)
  have io: "io_codec demo_writer (proto_NewReader (c_protocol ?c) (c_shieldID ?c) False)"
    by (simp add: c demo_io_codec)
  have h: "header_ok ?h" "h_PacketID ?h = pk_ID demo_lib Flush" "spectrum_packet Flush"
    "factory_of Flush = Some Flush" "c_pool ?c (pk_ID demo_lib Flush) = Some Flush"
    by (simp_all add: c(2) header_ok_def factory_of_def registered_from_server_def demo_pool_def spectrum_id_defs)
  show ?thesis
    using header_pool_leaks_subclients [OF io demo_header_codec demo_snappy_codec h len c(3) d(1-3) m, of "\<lparr>headerPool = []\<rparr>"]
      d(4) by fastforce
qed

end
