(* ===== verification/Client_Conn.thy ===== *)
theory Client_Conn
  imports Server_Conn
begin

text \<open>
  The player's side of the proxy, the library's \<^verbatim>\<open>minecraft.Conn\<close>, as the session sees it. The
  library is not part of the repository: the record holds what it reports, scripts for how its
  calls end, and the trace of what the proxy had it do. Each writing call consumes one entry of
  \<open>k_answers\<close> (\<open>None\<close> for success; once the script is used up every call succeeds), and only
  successful calls are traced. Pauses of an animation appear in the same trace, so that the order
  of packets and pauses is visible.
\<close>

section \<open>Definitions\<close>

datatype client_event =
    Sent packet
  | SentRaw bytes
  | Flushed
  | StartedGame game_data
  | Closed
  | Slept int

text \<open>\<open>k_startgame\<close> is what the library reports as game data once \<^verbatim>\<open>StartGame\<close> has succeeded.\<close>

record mc_conn =
  k_info :: client_info
  k_XUID :: string
  k_DisplayName :: string
  k_GameData :: game_data
  k_startgame :: "game_data \<Rightarrow> game_data"
  k_Latency :: i64
  k_batches :: "bytes list res list"
  k_answers :: "go_error option list"
  k_trace :: "client_event list"

abbreviation k_Proto :: "mc_conn \<Rightarrow> proto" where
  "k_Proto k \<equiv> ci_Proto (k_info k)"

fun k_call :: "client_event \<Rightarrow> mc_conn \<Rightarrow> go_error option \<times> mc_conn" where
  "k_call ev k =
     (case k_answers k of
        [] \<Rightarrow> (None, k\<lparr>k_trace := k_trace k @ [ev]\<rparr>)
      | None # as \<Rightarrow> (None, k\<lparr>k_answers := as, k_trace := k_trace k @ [ev]\<rparr>)
      | Some e # as \<Rightarrow> (Some e, k\<lparr>k_answers := as\<rparr>))"

definition k_WritePacket :: "packet \<Rightarrow> mc_conn \<Rightarrow> go_error option \<times> mc_conn" where
  "k_WritePacket pk k = k_call (Sent pk) k"

definition k_Write :: "bytes \<Rightarrow> mc_conn \<Rightarrow> go_error option \<times> mc_conn" where
  "k_Write b k = k_call (SentRaw b) k"

definition k_Flush :: "mc_conn \<Rightarrow> go_error option \<times> mc_conn" where
  "k_Flush k = k_call Flushed k"

definition k_Close :: "mc_conn \<Rightarrow> go_error option \<times> mc_conn" where
  "k_Close k = k_call Closed k"

definition k_StartGame :: "game_data \<Rightarrow> mc_conn \<Rightarrow> go_error option \<times> mc_conn" where
  "k_StartGame gd k =
     (case k_call (StartedGame gd) k of
        (None, k1) \<Rightarrow> (None, k1\<lparr>k_GameData := k_startgame k1 gd\<rparr>)
      | (Some e, k1) \<Rightarrow> (Some e, k1))"

text \<open>A packet sent with the error ignored, a run of them, and a pause (in nanoseconds).\<close>

definition k_send :: "packet \<Rightarrow> mc_conn \<Rightarrow> mc_conn" where
  "k_send pk k = snd (k_WritePacket pk k)"

definition k_send_all :: "packet list \<Rightarrow> mc_conn \<Rightarrow> mc_conn" where
  "k_send_all pks k = fold k_send pks k"

definition k_sleep :: "int \<Rightarrow> mc_conn \<Rightarrow> mc_conn" where
  "k_sleep ns k = k\<lparr>k_trace := k_trace k @ [Slept ns]\<rparr>"

text \<open>\<^verbatim>\<open>ReadBatchBytes\<close>: the next batch the library delivers; a used-up script is a closed connection.\<close>

definition k_ReadBatchBytes :: "mc_conn \<Rightarrow> bytes list res \<times> mc_conn" where
  "k_ReadBatchBytes k =
     (case k_batches k of
        [] \<Rightarrow> (Err (Extern ''use of closed network connection''), k)
      | b # bs \<Rightarrow> (b, k\<lparr>k_batches := bs\<rparr>))"

text \<open>The packets in a trace, in order.\<close>

fun sent_packets :: "client_event list \<Rightarrow> packet list" where
  "sent_packets [] = []"
| "sent_packets (Sent pk # evs) = pk # sent_packets evs"
| "sent_packets (_ # evs) = sent_packets evs"

section \<open>Lemmas\<close>

lemma sent_packets_append [simp]: "sent_packets (xs @ ys) = sent_packets xs @ sent_packets ys"
  by (induction xs rule: sent_packets.induct) simp_all

lemma sent_packets_map_Sent [simp]: "sent_packets (map Sent pks) = pks"
  by (induction pks) simp_all

text \<open>A call changes the script and the trace only.\<close>

lemma k_call_frame:
  assumes "k_call ev k = (r, k')"
  shows "\<exists>as. k' = k\<lparr>k_answers := as, k_trace := k_trace k @ (if r = None then [ev] else [])\<rparr>"
  using assms
  by (cases k) (auto split: list.splits option.splits)

lemma k_send_frame: "\<exists>as evs. k_send pk k = k\<lparr>k_answers := as, k_trace := k_trace k @ evs\<rparr> \<and> set evs \<subseteq> {Sent pk}"
proof -
  obtain r k' where r: "k_call (Sent pk) k = (r, k')" by fastforce
  from k_call_frame [OF r] obtain as where
    "k' = k\<lparr>k_answers := as, k_trace := k_trace k @ (if r = None then [Sent pk] else [])\<rparr>" ..
  with r show ?thesis
    by (intro exI [of _ as] exI [of _ "if r = None then [Sent pk] else []"])
       (auto simp: k_send_def k_WritePacket_def)
qed

lemma k_send_clean [simp]:
  "k_answers k = [] \<Longrightarrow> k_send pk k = k\<lparr>k_trace := k_trace k @ [Sent pk]\<rparr>"
  by (simp add: k_send_def k_WritePacket_def)

lemma k_send_all_clean:
  "k_answers k = [] \<Longrightarrow> k_send_all pks k = k\<lparr>k_trace := k_trace k @ map Sent pks\<rparr>"
  unfolding k_send_all_def by (induction pks arbitrary: k) simp_all

lemma k_send_all_simps [simp]:
  "k_send_all [] k = k" "k_send_all (pk # pks) k = k_send_all pks (k_send pk k)"
  by (simp_all add: k_send_all_def)

declare k_call.simps [simp del]

text \<open>What sending keeps, whatever the script says.\<close>

lemma k_send_keeps [simp]:
  "k_info (k_send pk k) = k_info k" "k_XUID (k_send pk k) = k_XUID k"
  "k_DisplayName (k_send pk k) = k_DisplayName k" "k_GameData (k_send pk k) = k_GameData k"
  "k_batches (k_send pk k) = k_batches k" "k_Latency (k_send pk k) = k_Latency k"
  using k_send_frame [of pk k] by auto

lemma k_send_all_keeps [simp]:
  "k_info (k_send_all pks k) = k_info k" "k_XUID (k_send_all pks k) = k_XUID k"
  "k_DisplayName (k_send_all pks k) = k_DisplayName k" "k_GameData (k_send_all pks k) = k_GameData k"
  "k_batches (k_send_all pks k) = k_batches k" "k_Latency (k_send_all pks k) = k_Latency k"
  by (induction pks arbitrary: k) simp_all

end
