(* ===== verification/Tracker.thy ===== *)
theory Tracker
  imports Client_Conn
begin

text \<open>
  The tracker (\<^verbatim>\<open>session/tracker.go\<close>) remembers what the current server has put on the player's
  screen, so that a transfer can take it away again. The sets are the sets of the library go-set;
  the order in which \<^verbatim>\<open>Each\<close> visits a set is not specified there and is a parameter here
  (\<open>orders\<close>). The specification is the player's view: what each packet adds to or removes from
  the screen. The locale \<open>tracked_kind\<close> is the promise made for each of the five kinds of things.
\<close>

section \<open>Definitions\<close>

record tracker =
  bossBars :: "i64 set"
  effects :: "i32 set"
  entities :: "i64 set"
  players :: "uuid set"
  scoreboards :: "string set"

definition newTracker :: tracker where
  "newTracker = \<lparr>bossBars = {}, effects = {}, entities = {}, players = {}, scoreboards = {}\<rparr>"

text \<open>The entries of a player list packet are added or removed one by one.\<close>

definition track_players :: "player_list_action \<Rightarrow> uuid list \<Rightarrow> uuid set \<Rightarrow> uuid set" where
  "track_players action entries ps =
     fold (\<lambda>u acc. if action = PlayerListActionAdd then insert u acc else acc - {u}) entries ps"

definition tracker_handlePacket :: "packet \<Rightarrow> tracker \<Rightarrow> tracker" where
  "tracker_handlePacket pk t =
     (case pk of
        AddActor i \<Rightarrow> t\<lparr>entities := insert i (entities t)\<rparr>
      | AddItemActor i \<Rightarrow> t\<lparr>entities := insert i (entities t)\<rparr>
      | AddPainting i \<Rightarrow> t\<lparr>entities := insert i (entities t)\<rparr>
      | AddPlayer i \<Rightarrow> t\<lparr>entities := insert i (entities t)\<rparr>
      | BossEvent i _ \<Rightarrow> t\<lparr>bossBars := insert i (bossBars t)\<rparr>
      | MobEffect _ op e \<Rightarrow>
          (if op = MobEffectAdd then t\<lparr>effects := insert e (effects t)\<rparr>
           else if op = MobEffectRemove then t\<lparr>effects := effects t - {e}\<rparr>
           else t)
      | PlayerList action entries \<Rightarrow> t\<lparr>players := track_players action entries (players t)\<rparr>
      | RemoveActor i \<Rightarrow> t\<lparr>entities := entities t - {i}\<rparr>
      | RemoveObjective n \<Rightarrow> t\<lparr>scoreboards := scoreboards t - {n}\<rparr>
      | SetDisplayObjective n \<Rightarrow> t\<lparr>scoreboards := insert n (scoreboards t)\<rparr>
      | _ \<Rightarrow> t)"

text \<open>How \<^verbatim>\<open>Each\<close> enumerates the sets; every element is visited exactly once.\<close>

record orders =
  o_i64 :: "i64 set \<Rightarrow> i64 list"
  o_i32 :: "i32 set \<Rightarrow> i32 list"
  o_b16 :: "uuid set \<Rightarrow> uuid list"
  o_str :: "string set \<Rightarrow> string list"

definition orders_ok :: "orders \<Rightarrow> bool" where
  "orders_ok ord \<longleftrightarrow>
     (\<forall>S. finite S \<longrightarrow> set (o_i64 ord S) = S \<and> distinct (o_i64 ord S)) \<and>
     (\<forall>S. finite S \<longrightarrow> set (o_i32 ord S) = S \<and> distinct (o_i32 ord S)) \<and>
     (\<forall>S. finite S \<longrightarrow> set (o_b16 ord S) = S \<and> distinct (o_b16 ord S)) \<and>
     (\<forall>S. finite S \<longrightarrow> set (o_str ord S) = S \<and> distinct (o_str ord S))"

definition clearBossBars :: "orders \<Rightarrow> tracker \<times> mc_conn \<Rightarrow> tracker \<times> mc_conn" where
  "clearBossBars ord tk =
     (let (t, k) = tk
      in (t\<lparr>bossBars := {}\<rparr>, k_send_all (map (\<lambda>i. BossEvent i BossEventHide) (o_i64 ord (bossBars t))) k))"

definition clearEffects :: "orders \<Rightarrow> tracker \<times> mc_conn \<Rightarrow> tracker \<times> mc_conn" where
  "clearEffects ord tk =
     (let (t, k) = tk; rid = gd_EntityRuntimeID (k_GameData k)
      in (t\<lparr>effects := {}\<rparr>, k_send_all (map (\<lambda>i. MobEffect rid MobEffectRemove i) (o_i32 ord (effects t))) k))"

definition clearEntities :: "orders \<Rightarrow> tracker \<times> mc_conn \<Rightarrow> tracker \<times> mc_conn" where
  "clearEntities ord tk =
     (let (t, k) = tk
      in (t\<lparr>entities := {}\<rparr>, k_send_all (map RemoveActor (o_i64 ord (entities t))) k))"

text \<open>The players go in a single packet, sent even when there are none.\<close>

definition clearPlayers :: "orders \<Rightarrow> tracker \<times> mc_conn \<Rightarrow> tracker \<times> mc_conn" where
  "clearPlayers ord tk =
     (let (t, k) = tk
      in (t\<lparr>players := {}\<rparr>, k_send (PlayerList PlayerListActionRemove (o_b16 ord (players t))) k))"

definition clearScoreboards :: "orders \<Rightarrow> tracker \<times> mc_conn \<Rightarrow> tracker \<times> mc_conn" where
  "clearScoreboards ord tk =
     (let (t, k) = tk
      in (t\<lparr>scoreboards := {}\<rparr>, k_send_all (map RemoveObjective (o_str ord (scoreboards t))) k))"

subsection \<open>Specification: the player's view\<close>

text \<open>
  What a packet changes on the screen of the player whose runtime identifier is \<open>rid\<close>. An effect
  concerns the player only if it names that identifier.
\<close>

definition view_entities :: "packet \<Rightarrow> i64 set \<Rightarrow> i64 set" where
  "view_entities pk V =
     (case pk of
        AddActor i \<Rightarrow> insert i V | AddItemActor i \<Rightarrow> insert i V | AddPainting i \<Rightarrow> insert i V
      | AddPlayer i \<Rightarrow> insert i V | RemoveActor i \<Rightarrow> V - {i} | _ \<Rightarrow> V)"

definition view_effects :: "u64 \<Rightarrow> packet \<Rightarrow> i32 set \<Rightarrow> i32 set" where
  "view_effects rid pk V =
     (case pk of
        MobEffect r op e \<Rightarrow>
          (if r \<noteq> rid then V
           else if op = MobEffectAdd then insert e V
           else if op = MobEffectRemove then V - {e} else V)
      | _ \<Rightarrow> V)"

definition view_bossBars :: "packet \<Rightarrow> i64 set \<Rightarrow> i64 set" where
  "view_bossBars pk V =
     (case pk of BossEvent i ev \<Rightarrow> (if ev = BossEventHide then V - {i} else insert i V) | _ \<Rightarrow> V)"

definition view_players :: "packet \<Rightarrow> uuid set \<Rightarrow> uuid set" where
  "view_players pk V =
     (case pk of
        PlayerList action us \<Rightarrow> (if action = PlayerListActionAdd then V \<union> set us else V - set us)
      | _ \<Rightarrow> V)"

definition view_scoreboards :: "packet \<Rightarrow> string set \<Rightarrow> string set" where
  "view_scoreboards pk V =
     (case pk of SetDisplayObjective n \<Rightarrow> insert n V | RemoveObjective n \<Rightarrow> V - {n} | _ \<Rightarrow> V)"

definition tracker_finite :: "tracker \<Rightarrow> bool" where
  "tracker_finite t \<longleftrightarrow> finite (bossBars t) \<and> finite (effects t) \<and> finite (entities t) \<and>
     finite (players t) \<and> finite (scoreboards t)"

text \<open>An effect packet that concerns the player himself.\<close>

fun own_effect :: "u64 \<Rightarrow> packet \<Rightarrow> bool" where
  "own_effect rid (MobEffect r _ _) = (r = rid)"
| "own_effect rid _ = True"

section \<open>Lemmas\<close>

lemma track_players_eq:
  "track_players a us V = (if a = PlayerListActionAdd then V \<union> set us else V - set us)"
  unfolding track_players_def by (induction us arbitrary: V) auto

lemma tracker_handlePacket_finite:
  "tracker_finite t \<Longrightarrow> tracker_finite (tracker_handlePacket pk t)"
  by (auto simp: tracker_handlePacket_def tracker_finite_def track_players_eq split: packet.split)

text \<open>The promise for one kind of things: the tracked set covers the player's view.\<close>

locale tracked_kind =
  fixes view :: "packet \<Rightarrow> 'a set \<Rightarrow> 'a set"
    and tracked :: "tracker \<Rightarrow> 'a set"
    and relevant :: "packet \<Rightarrow> bool"
    and who :: "mc_conn \<Rightarrow> bool"
    and clear :: "orders \<Rightarrow> tracker \<times> mc_conn \<Rightarrow> tracker \<times> mc_conn"
  assumes covers: "relevant pk \<Longrightarrow> V \<subseteq> tracked t \<Longrightarrow> view pk V \<subseteq> tracked (tracker_handlePacket pk t)"
    and clear_tracked: "tracked (fst (clear ord (t, k))) = {}"
    and clear_view: "orders_ok ord \<Longrightarrow> tracker_finite t \<Longrightarrow> who k \<Longrightarrow> k_answers k = [] \<Longrightarrow> V \<subseteq> tracked t \<Longrightarrow>
      \<exists>pks. snd (clear ord (t, k)) = k\<lparr>k_trace := k_trace k @ map Sent pks\<rparr> \<and> fold view pks V = {}"
begin

lemma covers_run:
  "list_all relevant pks \<Longrightarrow> V \<subseteq> tracked t \<Longrightarrow>
   fold view pks V \<subseteq> tracked (fold tracker_handlePacket pks t)"
proof (induction pks arbitrary: V t)
  case (Cons pk pks)
  then show ?case using covers [of pk V t] by simp
qed simp

text \<open>Whatever a server showed, clearing removes it from the player's view.\<close>

lemma clear_after_run:
  assumes "list_all relevant pks" "tracked t = {}" "tracker_finite t" "orders_ok ord" "who k" "k_answers k = []"
    "sent_packets (k_trace k) = pks"
  shows "fold view (sent_packets (k_trace (snd (clear ord (fold tracker_handlePacket pks t, k))))) {} = {}"
proof -
  have cov: "fold view pks {} \<subseteq> tracked (fold tracker_handlePacket pks t)"
    using assms(1,2) by (intro covers_run) auto
  have "tracker_finite (fold tracker_handlePacket pks t)"
    using assms(3) by (induction pks arbitrary: t) (auto intro: tracker_handlePacket_finite)
  from clear_view [OF assms(4) this assms(5,6) cov] assms(7) show ?thesis by auto
qed

end

lemma fold_map_remove:
  assumes "\<And>i V. view (f i) V = V - {i}"
  shows "fold view (map f is) V = V - set is"
  by (induction "is" arbitrary: V) (auto simp: assms)

lemmas view_defs = view_entities_def view_effects_def view_bossBars_def view_players_def view_scoreboards_def

lemma orders_okD:
  assumes "orders_ok ord"
  shows "finite S \<Longrightarrow> set (o_i64 ord S) = S" "finite T \<Longrightarrow> set (o_i32 ord T) = T"
    "finite U \<Longrightarrow> set (o_b16 ord U) = U" "finite X \<Longrightarrow> set (o_str ord X) = X"
  using assms by (simp_all add: orders_ok_def)

interpretation entities: tracked_kind view_entities entities "\<lambda>_. True" "\<lambda>_. True" clearEntities
proof (unfold_locales, goal_cases)
  case (1 pk V t)
  then show ?case by (auto simp: view_entities_def tracker_handlePacket_def split: packet.splits)
next
  case (3 ord t k V)
  have "fold view_entities (map RemoveActor is) V = V - set is" for "is"
    by (rule fold_map_remove) (simp add: view_entities_def)
  with 3 show ?case
    by (intro exI [of _ "map RemoveActor (o_i64 ord (entities t))"])
       (auto simp: clearEntities_def k_send_all_clean orders_okD tracker_finite_def)
qed (simp add: clearEntities_def)

interpretation effects: tracked_kind "view_effects rid" effects "own_effect rid"
    "\<lambda>k. gd_EntityRuntimeID (k_GameData k) = rid" clearEffects for rid
proof (unfold_locales, goal_cases)
  case (1 pk V t)
  then show ?case by (auto simp: view_effects_def tracker_handlePacket_def split: packet.splits)
next
  case (3 ord t k V)
  have "fold (view_effects rid) (map (MobEffect rid MobEffectRemove) is) V = V - set is" for "is"
    by (rule fold_map_remove) (simp add: view_effects_def)
  with 3 show ?case
    by (intro exI [of _ "map (MobEffect rid MobEffectRemove) (o_i32 ord (effects t))"])
       (auto simp: clearEffects_def k_send_all_clean orders_okD tracker_finite_def)
qed (simp add: clearEffects_def)

interpretation bossBars: tracked_kind view_bossBars bossBars "\<lambda>_. True" "\<lambda>_. True" clearBossBars
proof (unfold_locales, goal_cases)
  case (1 pk V t)
  then show ?case by (auto simp: view_bossBars_def tracker_handlePacket_def split: packet.splits)
next
  case (3 ord t k V)
  have "fold view_bossBars (map (\<lambda>i. BossEvent i BossEventHide) is) V = V - set is" for "is"
    by (rule fold_map_remove) (simp add: view_bossBars_def)
  with 3 show ?case
    by (intro exI [of _ "map (\<lambda>i. BossEvent i BossEventHide) (o_i64 ord (bossBars t))"])
       (auto simp: clearBossBars_def k_send_all_clean orders_okD tracker_finite_def)
qed (simp add: clearBossBars_def)

interpretation players: tracked_kind view_players players "\<lambda>_. True" "\<lambda>_. True" clearPlayers
proof (unfold_locales, goal_cases)
  case (1 pk V t)
  then show ?case
    by (auto simp: view_players_def tracker_handlePacket_def track_players_eq split: packet.splits)
next
  case (3 ord t k V)
  then show ?case
    by (intro exI [of _ "[PlayerList PlayerListActionRemove (o_b16 ord (players t))]"])
       (auto simp: clearPlayers_def orders_okD tracker_finite_def view_players_def)
qed (simp add: clearPlayers_def)

interpretation scoreboards: tracked_kind view_scoreboards scoreboards "\<lambda>_. True" "\<lambda>_. True" clearScoreboards
proof (unfold_locales, goal_cases)
  case (1 pk V t)
  then show ?case by (auto simp: view_scoreboards_def tracker_handlePacket_def split: packet.splits)
next
  case (3 ord t k V)
  have "fold view_scoreboards (map RemoveObjective is) V = V - set is" for "is"
    by (rule fold_map_remove) (simp add: view_scoreboards_def)
  with 3 show ?case
    by (intro exI [of _ "map RemoveObjective (o_str ord (scoreboards t))"])
       (auto simp: clearScoreboards_def k_send_all_clean orders_okD tracker_finite_def)
qed (simp add: clearScoreboards_def)

section \<open>Properties\<close>



text \<open>
  The tracker ignores whose effect a packet removes: after the player has been given an effect,
  the removal of the same effect from any other entity makes the tracker forget it, although the
  player still has it, so that a transfer will not take it away.
\<close>

lemma foreign_effect_removal_forgotten:
  assumes "other \<noteq> rid"
  shows "e \<in> fold (view_effects rid) [MobEffect rid MobEffectAdd e, MobEffect other MobEffectRemove e] V \<and>
    e \<notin> effects (fold tracker_handlePacket
      [MobEffect rid MobEffectAdd e, MobEffect other MobEffectRemove e] t)"
  using assms by (simp add: view_effects_def tracker_handlePacket_def)

lemma foreign_effect_removal_forgotten_witness:
  "effects (fold tracker_handlePacket [MobEffect 1 MobEffectAdd 5, MobEffect 2 MobEffectRemove 5] newTracker) = {} \<and>
   fold (view_effects 1) [MobEffect 1 MobEffectAdd 5, MobEffect 2 MobEffectRemove 5] {} = {5}"
  using foreign_effect_removal_forgotten [of 2 1 5 "{}" newTracker]
  by (simp add: view_effects_def tracker_handlePacket_def newTracker_def)

end
