(* ===== verification/Animations.thy ===== *)
theory Animations
  imports Client_Conn
begin

text \<open>
  The animations played during a transfer (\<^verbatim>\<open>session/animation\<close>). An animation object is a value
  of the datatype \<open>animation\<close>; its one piece of mutable state is the flag \<^verbatim>\<open>synced\<close> of the camera
  animations. \<open>Play\<close> runs to its end; \<open>Clear\<close> of a camera animation starts a goroutine, whose
  writes and pauses are returned as a script. The specification is the player's camera and the
  dimension the player is shown. Positions and durations are rationals; the trigonometric
  functions of the standard library are parameters.
\<close>

section \<open>Definitions\<close>

subsection \<open>Directions\<close>

record go_math =
  math_Pi :: rat
  math_Cos :: "rat \<Rightarrow> rat"
  math_Sin :: "rat \<Rightarrow> rat"

text \<open>Conversion of a float to an integer type truncates; \<^verbatim>\<open>math.Mod\<close> has the sign of its first argument.\<close>

definition trunc :: "rat \<Rightarrow> int" where
  "trunc x = (if 0 \<le> x then \<lfloor>x\<rfloor> else \<lceil>x\<rceil>)"

definition math_Mod :: "rat \<Rightarrow> rat \<Rightarrow> rat" where
  "math_Mod x y = x - y * of_int (trunc (x / y))"

definition yawToDirectionVec :: "go_math \<Rightarrow> rat \<Rightarrow> vec3" where
  "yawToDirectionVec M yaw0 =
     (let yaw1 = math_Mod yaw0 360;
          yaw = (if yaw1 < 0 then yaw1 + 360 else yaw1);
          radians = yaw * (math_Pi M / 180);
          x = math_Cos M radians;
          y = math_Sin M radians
      in if 0 \<le> y \<and> \<bar>x\<bar> \<le> 1 / 2 then (-1, 0, 0)
         else if 0 \<le> x \<and> \<bar>y\<bar> \<le> 1 / 2 then (0, 0, 1)
         else if y < 0 \<and> \<bar>x\<bar> \<le> 1 / 2 then (1, 0, 0)
         else (0, 0, -1))"

fun vec_add :: "vec3 \<Rightarrow> vec3 \<Rightarrow> vec3" where
  "vec_add (a, b, c) (x, y, z) = (a + x, b + y, c + z)"

subsection \<open>Packets of an animation\<close>

definition millisecond :: int where "millisecond = 1000000"
definition second :: int where "second = 1000000000"

definition camera_to :: "f32 \<Rightarrow> easing \<Rightarrow> vec3 \<Rightarrow> vec2 \<Rightarrow> camera_set" where
  "camera_to duration ease position rotation =
     \<lparr>cs_Preset = 0, cs_Ease = (duration, ease), cs_Position = position, cs_Rotation = rotation\<rparr>"

definition set_instruction :: "camera_set \<Rightarrow> packet" where
  "set_instruction s = CameraInstruction \<lparr>ci_Set = Some s, ci_Clear = None, ci_Fade = None\<rparr>"

definition fade_instruction :: "fade_time \<Rightarrow> rgba \<Rightarrow> packet" where
  "fade_instruction timing colour =
     CameraInstruction \<lparr>ci_Set = None, ci_Clear = None, ci_Fade = Some (timing, colour)\<rparr>"

definition clear_instruction :: packet where
  "clear_instruction = CameraInstruction \<lparr>ci_Set = None, ci_Clear = Some True, ci_Fade = None\<rparr>"

subsection \<open>The animations\<close>

record fade =
  f_Colour :: rgba
  f_Timing :: fade_time

record ease =
  e_synced :: bool
  e_Flicker :: bool
  e_Colour :: rgba
  e_Timing :: fade_time
  e_Position :: vec3
  e_Yaw :: f32

record smooth =
  sm_synced :: bool
  sm_Colour :: rgba
  sm_Timing :: fade_time
  sm_Position :: vec3
  sm_Yaw :: f32

datatype animation =
    NopAnimation
  | Dimension
  | Fade fade
  | Ease ease
  | Smooth smooth

text \<open>\<^verbatim>\<open>Sync\<close> sends the camera presets once in the life of the animation object.\<close>

definition Sync :: "bool \<Rightarrow> mc_conn \<Rightarrow> bool \<times> mc_conn" where
  "Sync synced k = (if synced then (synced, k) else (True, k_send (CameraPresets [''minecraft:free'']) k))"

definition sendDimension :: "game_data \<Rightarrow> dimension \<Rightarrow> bool \<Rightarrow> mc_conn \<Rightarrow> mc_conn" where
  "sendDimension gd target playStatus k =
     (let k1 = k_send (ChangeDimension target (gd_PlayerPosition gd)) k;
          k2 = k_send (StopSound True) k1;
          k3 = k_send (PlayerAction PlayerActionDimensionChangeDone) k2
      in if playStatus then k_send (PlayStatus PlayStatusPlayerSpawn) k3 else k3)"

definition Dimension_Play :: "game_data \<Rightarrow> mc_conn \<Rightarrow> mc_conn" where
  "Dimension_Play gd k =
     sendDimension gd (if gd_Dimension (k_GameData k) = DimensionNether then DimensionEnd else DimensionNether)
       False k"

definition Dimension_Clear :: "game_data \<Rightarrow> mc_conn \<Rightarrow> mc_conn" where
  "Dimension_Clear gd k =
     sendDimension gd DimensionOverworld True (k_send (PlayStatus PlayStatusPlayerSpawn) k)"

definition Fade_Play :: "fade \<Rightarrow> mc_conn \<Rightarrow> mc_conn" where
  "Fade_Play f k = k_send (fade_instruction (f_Timing f) (f_Colour f)) k"

text \<open>One of the four upward movements of \<^verbatim>\<open>Ease.Play\<close>, with the flicker after the first three.\<close>

definition ease_step :: "ease \<Rightarrow> nat \<Rightarrow> mc_conn \<Rightarrow> mc_conn" where
  "ease_step a i k =
     (let k1 = k_sleep (millisecond * 300)
            (k_send (set_instruction (camera_to (3 / 10) EasingTypeOutExpo
               (vec_add (e_Position a) (0, of_nat (25 * (i + 1)), 0)) (90, e_Yaw a))) k)
      in if i \<noteq> 3 \<and> e_Flicker a
         then k_sleep (millisecond * 300)
                (k_send (fade_instruction \<lparr>FadeInDuration = 1 / 10, WaitDuration = 1 / 10, FadeOutDuration = 1 / 10\<rparr>
                   (e_Colour a)) k1)
         else k1)"

definition Ease_Play :: "ease \<Rightarrow> mc_conn \<Rightarrow> ease \<times> mc_conn" where
  "Ease_Play a k =
     (let (sy, k1) = Sync (e_synced a) k;
          k2 = k_sleep (millisecond * 300)
            (k_send (set_instruction (camera_to (3 / 10) EasingTypeLinear (e_Position a) (90, e_Yaw a))) k1);
          k3 = fold (ease_step a) [0..<4] k2
      in (a\<lparr>e_synced := sy\<rparr>, k_sleep (second * 3) k3))"

definition Smooth_Play :: "smooth \<Rightarrow> mc_conn \<Rightarrow> smooth \<times> mc_conn" where
  "Smooth_Play a k =
     (let (sy, k1) = Sync (sm_synced a) k;
          k2 = k_sleep (millisecond * 350)
            (k_send (set_instruction (camera_to (3 / 10) EasingTypeLinear (sm_Position a) (90, sm_Yaw a))) k1);
          k3 = k_send (set_instruction (camera_to (5 / 2) EasingTypeOutExpo
            (vec_add (sm_Position a) (0, 100, 0)) (90, sm_Yaw a))) k2
      in (a\<lparr>sm_synced := sy\<rparr>, k_sleep (second * 3) k3))"

text \<open>
  The goroutines of \<^verbatim>\<open>Ease.Clear\<close> and \<^verbatim>\<open>Smooth.Clear\<close>: the same script. The pause after the fade
  converts the sum of the durations to whole seconds before multiplying.
\<close>

definition camera_return :: "go_math \<Rightarrow> fade_time \<Rightarrow> rgba \<Rightarrow> game_data \<Rightarrow> client_event list" where
  "camera_return M timing colour gd =
     [Sent (CameraInstruction \<lparr>ci_Set = Some (camera_to 0 EasingTypeLinear
         (vec_add (gd_PlayerPosition gd) (0, 100, 0)) (90, gd_Yaw gd)), ci_Clear = None,
         ci_Fade = Some (timing, colour)\<rparr>),
      Slept (second * trunc (FadeInDuration timing + WaitDuration timing + FadeOutDuration timing)),
      Sent (set_instruction (camera_to (11 / 4) EasingTypeInExpo
         (vec_add (gd_PlayerPosition gd) (0, 1, 0)) (90, gd_Yaw gd))),
      Slept (second * 3),
      Sent (set_instruction (camera_to (3 / 10) EasingTypeInOutExpo
         (vec_add (gd_PlayerPosition gd) (yawToDirectionVec M (gd_Yaw gd))) (gd_Pitch gd, gd_Yaw gd))),
      Slept (millisecond * 400),
      Sent clear_instruction]"

definition Ease_Clear :: "go_math \<Rightarrow> ease \<Rightarrow> game_data \<Rightarrow> client_event list" where
  "Ease_Clear M a gd = camera_return M (e_Timing a) (e_Colour a) gd"

definition Smooth_Clear :: "go_math \<Rightarrow> smooth \<Rightarrow> game_data \<Rightarrow> client_event list" where
  "Smooth_Clear M a gd = camera_return M (sm_Timing a) (sm_Colour a) gd"

text \<open>The interface methods.\<close>

fun Play :: "animation \<Rightarrow> game_data \<Rightarrow> mc_conn \<Rightarrow> animation \<times> mc_conn" where
  "Play NopAnimation gd k = (NopAnimation, k)"
| "Play Dimension gd k = (Dimension, Dimension_Play gd k)"
| "Play (Fade f) gd k = (Fade f, Fade_Play f k)"
| "Play (Ease a) gd k = (let (a', k') = Ease_Play a k in (Ease a', k'))"
| "Play (Smooth a) gd k = (let (a', k') = Smooth_Play a k in (Smooth a', k'))"

text \<open>\<open>Clear\<close> returns the script of the goroutine it started, if it started one.\<close>

fun Clear :: "go_math \<Rightarrow> animation \<Rightarrow> game_data \<Rightarrow> mc_conn \<Rightarrow> client_event list option \<times> mc_conn" where
  "Clear M NopAnimation gd k = (None, k)"
| "Clear M Dimension gd k = (None, Dimension_Clear gd k)"
| "Clear M (Fade f) gd k = (None, k)"
| "Clear M (Ease a) gd k = (Some (Ease_Clear M a gd), k)"
| "Clear M (Smooth a) gd k = (Some (Smooth_Clear M a gd), k)"

subsection \<open>Specification: what the player sees\<close>

text \<open>Whether the camera is away from the player's character, and the dimension shown.\<close>

definition view_camera :: "packet \<Rightarrow> bool \<Rightarrow> bool" where
  "view_camera pk away =
     (case pk of
        CameraInstruction ci \<Rightarrow>
          (if ci_Clear ci = Some True then False else if ci_Set ci \<noteq> None then True else away)
      | _ \<Rightarrow> away)"

definition view_dimension :: "packet \<Rightarrow> dimension \<Rightarrow> dimension" where
  "view_dimension pk d = (case pk of ChangeDimension d' _ \<Rightarrow> d' | _ \<Rightarrow> d)"

text \<open>Packets that only an animation sends.\<close>

fun animation_packet :: "packet \<Rightarrow> bool" where
  "animation_packet (CameraPresets _) = True"
| "animation_packet (CameraInstruction _) = True"
| "animation_packet (ChangeDimension _ _) = True"
| "animation_packet (StopSound _) = True"
| "animation_packet (PlayerAction _) = True"
| "animation_packet (PlayStatus _) = True"
| "animation_packet _ = False"

fun total_pause :: "client_event list \<Rightarrow> int" where
  "total_pause [] = 0"
| "total_pause (Slept n # evs) = n + total_pause evs"
| "total_pause (_ # evs) = total_pause evs"

section \<open>Lemmas\<close>

lemma k_sleep_keeps [simp]:
  "k_answers (k_sleep n k) = k_answers k" "k_GameData (k_sleep n k) = k_GameData k"
  "k_info (k_sleep n k) = k_info k" "k_XUID (k_sleep n k) = k_XUID k"
  "k_DisplayName (k_sleep n k) = k_DisplayName k" "k_trace (k_sleep n k) = k_trace k @ [Slept n]"
  by (simp_all add: k_sleep_def)

lemma total_pause_append [simp]: "total_pause (xs @ ys) = total_pause xs + total_pause ys"
  by (induction xs rule: total_pause.induct) simp_all

text \<open>
  The contract of an animation whose \<open>Play\<close> and \<open>Clear\<close> (with the goroutine it starts) emit the
  given events: only animation packets are sent, and in the end the camera is back at the player.
\<close>

locale transfer_animation =
  fixes play :: "game_data \<Rightarrow> mc_conn \<Rightarrow> client_event list"
    and clear :: "game_data \<Rightarrow> mc_conn \<Rightarrow> client_event list"
  assumes only_animation: "list_all animation_packet (sent_packets (play gd k @ clear gd k))"
    and camera_back: "\<not> fold view_camera (sent_packets (play gd k @ clear gd k)) False"
begin

text \<open>A packet view that no animation packet changes is the same before and after.\<close>

lemma view_untouched:
  assumes "\<And>pk V. animation_packet pk \<Longrightarrow> view pk V = V"
  shows "fold view (sent_packets (play gd k @ clear gd k)) V = V"
proof -
  have "fold view pks V = V" if "list_all animation_packet pks" for pks
    using that by (induction pks arbitrary: V) (simp_all add: assms)
  with only_animation show ?thesis by blast
qed

end

text \<open>The events of the two calls on a connection that accepts everything.\<close>

definition play_events :: "animation \<Rightarrow> game_data \<Rightarrow> mc_conn \<Rightarrow> client_event list" where
  "play_events a gd k = k_trace (snd (Play a gd (k\<lparr>k_answers := [], k_trace := []\<rparr>)))"

definition clear_events :: "go_math \<Rightarrow> animation \<Rightarrow> game_data \<Rightarrow> mc_conn \<Rightarrow> client_event list" where
  "clear_events M a gd k =
     (let (bg, k') = Clear M a gd (k\<lparr>k_answers := [], k_trace := []\<rparr>)
      in k_trace k' @ (case bg of None \<Rightarrow> [] | Some evs \<Rightarrow> evs))"

lemmas animation_defs = play_events_def clear_events_def Dimension_Play_def Dimension_Clear_def
  sendDimension_def Fade_Play_def Ease_Play_def Smooth_Play_def Ease_Clear_def Smooth_Clear_def
  camera_return_def set_instruction_def fade_instruction_def clear_instruction_def Sync_def Let_def

definition ease_step_events :: "ease \<Rightarrow> nat \<Rightarrow> client_event list" where
  "ease_step_events a i =
     [Sent (set_instruction (camera_to (3 / 10) EasingTypeOutExpo
        (vec_add (e_Position a) (0, of_nat (25 * (i + 1)), 0)) (90, e_Yaw a))), Slept (millisecond * 300)] @
     (if i \<noteq> 3 \<and> e_Flicker a
      then [Sent (fade_instruction \<lparr>FadeInDuration = 1 / 10, WaitDuration = 1 / 10, FadeOutDuration = 1 / 10\<rparr>
              (e_Colour a)), Slept (millisecond * 300)]
      else [])"

lemma ease_step_clean:
  "k_answers k = [] \<Longrightarrow> ease_step a i k = k\<lparr>k_trace := k_trace k @ ease_step_events a i\<rparr>"
  by (simp add: ease_step_def ease_step_events_def k_sleep_def Let_def)

lemma ease_steps_clean:
  "k_answers k = [] \<Longrightarrow>
   fold (ease_step a) is k = k\<lparr>k_trace := k_trace k @ concat (map (ease_step_events a) is)\<rparr>"
  by (induction "is" arbitrary: k) (simp_all add: ease_step_clean)

lemma Ease_Play_clean:
  assumes "k_answers k = []" "k_trace k = []"
  shows "k_trace (snd (Ease_Play a k)) =
    (if e_synced a then [] else [Sent (CameraPresets [''minecraft:free''])]) @
    [Sent (set_instruction (camera_to (3 / 10) EasingTypeLinear (e_Position a) (90, e_Yaw a))),
     Slept (millisecond * 300)] @ concat (map (ease_step_events a) [0..<4]) @ [Slept (second * 3)]"
  using assms by (auto simp: Ease_Play_def Sync_def Let_def ease_steps_clean)

lemma upt_4: "[0..<4] = [0, 1, 2, 3::nat]"
  by (simp add: upt_rec)

lemma view_camera_fold_clear:
  "\<not> fold view_camera (pks @ [clear_instruction]) away"
  by (simp add: view_camera_def clear_instruction_def)

interpretation dimension: transfer_animation "play_events Dimension" "clear_events M Dimension" for M
  by unfold_locales (simp_all add: animation_defs view_camera_def)

interpretation fade: transfer_animation "play_events (Fade f)" "clear_events M (Fade f)" for M f
  by unfold_locales (simp_all add: animation_defs view_camera_def)

interpretation ease: transfer_animation "play_events (Ease a)" "clear_events M (Ease a)" for M a
proof (unfold_locales, goal_cases)
  case (1 gd k)
  show ?case
    by (simp add: play_events_def clear_events_def Ease_Play_clean case_prod_beta Let_def upt_4 ease_step_events_def
        Ease_Clear_def camera_return_def set_instruction_def fade_instruction_def clear_instruction_def)
next
  case (2 gd k)
  show ?case
    by (simp add: clear_events_def Ease_Clear_def camera_return_def view_camera_def clear_instruction_def Let_def)
qed

interpretation smooth: transfer_animation "play_events (Smooth a)" "clear_events M (Smooth a)" for M a
  by unfold_locales (simp_all add: animation_defs view_camera_def)

section \<open>Properties\<close>


text \<open>
  The pauses of \<^verbatim>\<open>Ease.Play\<close>, during which nothing is read from the server, add up to 4.5
  seconds, and to 5.4 seconds with the flicker.
\<close>

lemma Ease_Play_pause:
  "total_pause (play_events (Ease a) gd k) = (if e_Flicker a then 5400 else 4500) * millisecond"
  by (simp add: play_events_def Ease_Play_clean case_prod_beta Let_def upt_4 ease_step_events_def
      millisecond_def second_def)

text \<open>
  The dimension animation always ends in the overworld, whatever dimension the game data of
  the new server names, and it never plays into the dimension the client already has.
\<close>

lemma Dimension_ends_in_overworld:
  "fold view_dimension (sent_packets (play_events Dimension gd k @ clear_events M Dimension gd k)) d =
     DimensionOverworld \<and>
   fold view_dimension (sent_packets (play_events Dimension gd k)) d \<noteq> gd_Dimension (k_GameData k)"
  by (simp add: animation_defs view_dimension_def)

text \<open>
  The pause after the fade of a camera animation is cut to whole seconds: with fade times that
  add up to less than one second there is no pause at all.
\<close>

lemma camera_return_truncates:
  assumes "0 \<le> FadeInDuration t + WaitDuration t + FadeOutDuration t"
    "FadeInDuration t + WaitDuration t + FadeOutDuration t < 1"
  shows "total_pause (clear_events M (Ease (a\<lparr>e_Timing := t\<rparr>)) gd k) = 3400 * millisecond"
proof -
  have "\<lfloor>FadeInDuration t + WaitDuration t + FadeOutDuration t\<rfloor> = 0"
    using assms by (simp add: floor_eq_iff)
  with assms show ?thesis
    by (simp add: clear_events_def Ease_Clear_def camera_return_def trunc_def Let_def millisecond_def second_def)
qed

lemma camera_return_truncates_witness:
  "\<forall>k. total_pause (clear_events \<lparr>math_Pi = 3, math_Cos = \<lambda>_. 0, math_Sin = \<lambda>_. 1\<rparr>
     (Ease \<lparr>e_synced = False, e_Flicker = False, e_Colour = (0, 0, 0, 0),
       e_Timing = \<lparr>FadeInDuration = 1 / 4, WaitDuration = 1 / 4, FadeOutDuration = 1 / 4\<rparr>,
       e_Position = (0, 0, 0), e_Yaw = 0\<rparr>) zero_game_data k) = 3400 * millisecond"
  using camera_return_truncates [of "\<lparr>FadeInDuration = 1 / 4, WaitDuration = 1 / 4, FadeOutDuration = 1 / 4\<rparr>"
      "\<lparr>math_Pi = 3, math_Cos = \<lambda>_. 0, math_Sin = \<lambda>_. 1\<rparr>" "\<lparr>e_synced = False, e_Flicker = False,
       e_Colour = (0, 0, 0, 0), e_Timing = \<lparr>FadeInDuration = 0, WaitDuration = 0, FadeOutDuration = 0\<rparr>,
       e_Position = (0, 0, 0), e_Yaw = 0\<rparr>" zero_game_data]
  by simp

end
