(* ===== verification/Processor.thy ===== *)
theory Processor
  imports Minecraft
begin

text \<open>
  Processors (\<^verbatim>\<open>session/processor.go\<close>): the contexts they are handed, the pool the packet contexts
  come from, and the interface itself. A processor belongs to the application; it is a record of
  functions on what it is given pointers to, without a state of its own that the proxy could see.
  What it was told, in order, is a list of notices.
\<close>

section \<open>Definitions\<close>

subsection \<open>Contexts\<close>

record go_context =
  canceled :: bool

definition NewContext :: go_context where
  "NewContext = \<lparr>canceled = False\<rparr>"

definition Context_Cancel :: "go_context \<Rightarrow> go_context" where
  "Context_Cancel c = c\<lparr>canceled := True\<rparr>"

definition Context_Cancelled :: "go_context \<Rightarrow> bool" where
  "Context_Cancelled c = canceled c"

subsection \<open>Packet contexts and their pool\<close>

record packet_context =
  pc_canceled :: bool
  pc_modified :: bool
  pc_raw :: "bytes option"
  pc_decoded :: "packet option"

definition NewPacketContext ::
  "bytes option \<Rightarrow> packet option \<Rightarrow> packet_context list \<Rightarrow> packet_context \<times> packet_context list" where
  "NewPacketContext raw decoded pkCtxPool =
     (case pkCtxPool of
        [] \<Rightarrow> (\<lparr>pc_canceled = False, pc_modified = False, pc_raw = raw, pc_decoded = decoded\<rparr>, [])
      | c # cs \<Rightarrow> (c\<lparr>pc_raw := raw, pc_decoded := decoded\<rparr>, cs))"

definition ReturnPacketContext :: "packet_context \<Rightarrow> packet_context list \<Rightarrow> packet_context list" where
  "ReturnPacketContext c pkCtxPool =
     c\<lparr>pc_raw := None, pc_decoded := None, pc_modified := False, pc_canceled := False\<rparr> # pkCtxPool"

definition PacketContext_Packet :: "packet_context \<Rightarrow> packet option" where
  "PacketContext_Packet c = pc_decoded c"

definition PacketContext_Payload :: "packet_context \<Rightarrow> bytes option" where
  "PacketContext_Payload c = pc_raw c"

definition PacketContext_Cancelled :: "packet_context \<Rightarrow> bool" where
  "PacketContext_Cancelled c = pc_canceled c"

definition PacketContext_Modified :: "packet_context \<Rightarrow> bool" where
  "PacketContext_Modified c = pc_modified c"

definition PacketContext_Cancel :: "packet_context \<Rightarrow> packet_context" where
  "PacketContext_Cancel c = c\<lparr>pc_canceled := True\<rparr>"

definition PacketContext_SetModified :: "packet_context \<Rightarrow> packet_context" where
  "PacketContext_SetModified c = c\<lparr>pc_modified := True\<rparr>"

subsection \<open>The interface\<close>

record processor =
  ProcessStartGame :: "go_context \<Rightarrow> game_data \<Rightarrow> go_context \<times> game_data"
  ProcessServer :: "packet_context \<Rightarrow> packet_context"
  ProcessClient :: "packet_context list \<Rightarrow> packet_context list"
  ProcessFlush :: "go_context \<Rightarrow> go_context"
  ProcessPreTransfer :: "go_context \<Rightarrow> string \<Rightarrow> string \<Rightarrow> go_context \<times> string \<times> string"
  ProcessTransferFailure :: "go_context \<Rightarrow> string \<Rightarrow> string \<Rightarrow> go_context \<times> string \<times> string"
  ProcessPostTransfer :: "go_context \<Rightarrow> string \<Rightarrow> string \<Rightarrow> go_context \<times> string \<times> string"
  ProcessCache :: "go_context \<Rightarrow> bytes \<Rightarrow> go_context \<times> bytes"
  ProcessDisconnection :: "go_context \<Rightarrow> string \<Rightarrow> go_context \<times> string"

definition NopProcessor :: processor where
  "NopProcessor = \<lparr>ProcessStartGame = \<lambda>c gd. (c, gd), ProcessServer = \<lambda>pc. pc, ProcessClient = \<lambda>pcs. pcs,
     ProcessFlush = \<lambda>c. c, ProcessPreTransfer = \<lambda>c origin target. (c, origin, target),
     ProcessTransferFailure = \<lambda>c origin target. (c, origin, target),
     ProcessPostTransfer = \<lambda>c origin target. (c, origin, target), ProcessCache = \<lambda>c cache. (c, cache),
     ProcessDisconnection = \<lambda>c message. (c, message)\<rparr>"

datatype notice =
    NotedPreTransfer string string
  | NotedTransferFailure string string
  | NotedPostTransfer string string
  | NotedDisconnection string
  | NotedStartGame

subsection \<open>Specification\<close>

definition pool_clean :: "packet_context list \<Rightarrow> bool" where
  "pool_clean pool \<longleftrightarrow> list_all (\<lambda>c. \<not> pc_canceled c \<and> \<not> pc_modified c) pool"

text \<open>
  Uses of the pool: contexts are taken, changed by whoever holds them, and given back or dropped.
  The second list holds the contexts in use.
\<close>

inductive pool_run :: "packet_context list \<Rightarrow> packet_context list \<Rightarrow> bool" where
  start: "pool_run [] []"
| take: "pool_run pool used \<Longrightarrow> NewPacketContext raw decoded pool = (c, pool') \<Longrightarrow> pool_run pool' (c # used)"
| change: "pool_run pool (us @ c # vs) \<Longrightarrow> pool_run pool (us @ c' # vs)"
| give: "pool_run pool (us @ c # vs) \<Longrightarrow> pool_run (ReturnPacketContext c pool) (us @ vs)"
| drop: "pool_run pool (us @ c # vs) \<Longrightarrow> pool_run pool (us @ vs)"

section \<open>Lemmas\<close>

lemma pool_clean_simps [simp]:
  "pool_clean []" "pool_clean (ReturnPacketContext c pool) = pool_clean pool"
  by (simp_all add: pool_clean_def ReturnPacketContext_def)

lemma NewPacketContext_clean:
  assumes "pool_clean pool" "NewPacketContext raw decoded pool = (c, pool')"
  shows "c = \<lparr>pc_canceled = False, pc_modified = False, pc_raw = raw, pc_decoded = decoded\<rparr> \<and> pool_clean pool'"
  using assms by (cases pool) (auto simp: NewPacketContext_def pool_clean_def)

lemma pool_run_clean: "pool_run pool used \<Longrightarrow> pool_clean pool"
  by (induction rule: pool_run.induct) (auto dest: NewPacketContext_clean)

section \<open>Properties\<close>

text \<open>
  A packet context taken from the pool carries nothing of its earlier uses: whatever
  happened to the contexts given back before, the new one is neither cancelled nor modified and
  holds exactly the packet it was made for.
\<close>

lemma packet_context_fresh:
  assumes "pool_run pool used" "NewPacketContext raw decoded pool = (c, pool')"
  shows "c = \<lparr>pc_canceled = False, pc_modified = False, pc_raw = raw, pc_decoded = decoded\<rparr>"
  using NewPacketContext_clean [OF pool_run_clean [OF assms(1)] assms(2)] by simp

lemma packet_context_fresh_witness:
  "NewPacketContext (Some [1]) None (ReturnPacketContext
     (PacketContext_Cancel \<lparr>pc_canceled = False, pc_modified = False, pc_raw = None, pc_decoded = Some Flush\<rparr>) []) =
   (\<lparr>pc_canceled = False, pc_modified = False, pc_raw = Some [1], pc_decoded = None\<rparr>, [])"
proof -
  let ?c = "\<lparr>pc_canceled = False, pc_modified = False, pc_raw = None, pc_decoded = Some Flush\<rparr>"
  have "pool_run [] ([] @ ?c # [])"
    using pool_run.take [OF pool_run.start, of None "Some Flush" ?c "[]"] by (simp add: NewPacketContext_def)
  then have "pool_run [] ([] @ PacketContext_Cancel ?c # [])" by (rule pool_run.change)
  then have run: "pool_run (ReturnPacketContext (PacketContext_Cancel ?c) []) []"
    using pool_run.give by fastforce
  obtain c pool' where "NewPacketContext (Some [1]) None (ReturnPacketContext (PacketContext_Cancel ?c) []) = (c, pool')"
    by fastforce
  with packet_context_fresh [OF run this] show ?thesis
    by (simp add: NewPacketContext_def ReturnPacketContext_def)
qed

end
