(* ===== verification/Registry.thy ===== *)
theory Registry
  imports Prelude
begin

text \<open>
  The registry of logged-in sessions (\<^verbatim>\<open>session/registry.go\<close>): a map from the players' account
  identifiers to sessions, which are identified by numbers here. Iteration over a Go map visits the
  keys in an unspecified order: \<open>ord\<close> is that order. \<open>name\<close> is the display name of a session's client.
\<close>

section \<open>Definitions\<close>

type_synonym registry = "string \<rightharpoonup> nat"

definition NewRegistry :: registry where
  "NewRegistry = Map.empty"

definition AddSession :: "string \<Rightarrow> nat \<Rightarrow> registry \<Rightarrow> registry" where
  "AddSession xuid s r = r(xuid \<mapsto> s)"

definition GetSession :: "string \<Rightarrow> registry \<Rightarrow> nat option" where
  "GetSession xuid r = r xuid"

definition GetSessionByUsername ::
  "(bytes \<Rightarrow> bytes \<Rightarrow> bool) \<Rightarrow> (nat \<Rightarrow> string) \<Rightarrow> (string set \<Rightarrow> string list) \<Rightarrow> string \<Rightarrow> registry \<Rightarrow> nat option" where
  "GetSessionByUsername uni name ord username r =
     List.find (\<lambda>s. EqualFold uni (name s) username) (map (\<lambda>x. the (r x)) (ord (dom r)))"

definition RemoveSession :: "string \<Rightarrow> registry \<Rightarrow> registry" where
  "RemoveSession xuid r = r(xuid := None)"

definition GetSessions :: "(string set \<Rightarrow> string list) \<Rightarrow> registry \<Rightarrow> nat list" where
  "GetSessions ord r = map (\<lambda>x. the (r x)) (ord (dom r))"

text \<open>An iteration visits every key exactly once.\<close>

definition key_order :: "(string set \<Rightarrow> string list) \<Rightarrow> bool" where
  "key_order ord \<longleftrightarrow> (\<forall>S. finite S \<longrightarrow> set (ord S) = S \<and> distinct (ord S))"

text \<open>The registry after a sequence of logins and logouts.\<close>

definition registry_after :: "(string \<times> nat option) list \<Rightarrow> registry" where
  "registry_after ops =
     fold (\<lambda>(x, a) r. case a of Some s \<Rightarrow> AddSession x s r | None \<Rightarrow> RemoveSession x r) ops NewRegistry"

section \<open>Lemmas\<close>

text \<open>The contract of the registry towards sessions and the API: a finite map.\<close>

locale session_map =
  fixes add :: "string \<Rightarrow> nat \<Rightarrow> 'r \<Rightarrow> 'r"
    and get :: "string \<Rightarrow> 'r \<Rightarrow> nat option"
    and remove :: "string \<Rightarrow> 'r \<Rightarrow> 'r"
    and sessions :: "(string set \<Rightarrow> string list) \<Rightarrow> 'r \<Rightarrow> nat list"
    and empty :: 'r
    and wf :: "'r \<Rightarrow> bool"
  assumes wf_empty: "wf empty" and wf_add: "wf r \<Longrightarrow> wf (add x s r)" and wf_remove: "wf r \<Longrightarrow> wf (remove x r)"
    and get_empty: "get x empty = None"
    and get_add: "get x (add y s r) = (if x = y then Some s else get x r)"
    and get_remove: "get x (remove y r) = (if x = y then None else get x r)"
    and sessions_set: "wf r \<Longrightarrow> key_order ord \<Longrightarrow> set (sessions ord r) = {s. \<exists>x. get x r = Some s}"
begin

text \<open>After any logins and logouts exactly the sessions that were added last for their key remain.\<close>

definition replay :: "(string \<times> nat option) list \<Rightarrow> 'r" where
  "replay ops = fold (\<lambda>(x, a) r. case a of Some s \<Rightarrow> add x s r | None \<Rightarrow> remove x r) ops empty"

lemma replay_wf: "wf (replay ops)"
  unfolding replay_def
proof (induction ops rule: rev_induct)
  case (snoc op ops)
  then show ?case by (auto simp: wf_add wf_remove split: prod.split option.split)
qed (simp add: wf_empty)

lemma get_replay: "get x (replay ops) = (case map_of (rev ops) x of None \<Rightarrow> None | Some a \<Rightarrow> a)"
  unfolding replay_def
proof (induction ops rule: rev_induct)
  case (snoc op ops)
  then show ?case
    by (cases op) (auto simp: get_add get_remove split: option.split)
qed (simp add: get_empty)

end

interpretation registry: session_map AddSession GetSession RemoveSession GetSessions NewRegistry "\<lambda>r. finite (dom r)"
proof (unfold_locales, goal_cases)
  case (7 r ord)
  then have "set (ord (dom r)) = dom r" by (simp add: key_order_def)
  then show ?case by (force simp: GetSessions_def GetSession_def dom_def image_iff)
qed (simp_all add: NewRegistry_def AddSession_def GetSession_def RemoveSession_def)

lemma GetSessionByUsername_Some:
  assumes "finite (dom r)" "key_order ord" "GetSessionByUsername uni name ord u r = Some s"
  shows "(\<exists>x. r x = Some s) \<and> EqualFold uni (name s) u"
proof -
  have "set (ord (dom r)) = dom r" using assms by (simp add: key_order_def)
  with assms(3) show ?thesis
    by (auto simp: GetSessionByUsername_def find_Some_iff) (metis domIff nth_mem option.collapse)
qed

lemma GetSessionByUsername_None:
  assumes "finite (dom r)" "key_order ord"
  shows "GetSessionByUsername uni name ord u r = None \<longleftrightarrow> (\<forall>x s. r x = Some s \<longrightarrow> \<not> EqualFold uni (name s) u)"
proof -
  have "set (ord (dom r)) = dom r" using assms by (simp add: key_order_def)
  then show ?thesis
    by (auto simp: GetSessionByUsername_def find_None_iff dom_def) (metis option.distinct(1) option.sel)
qed

section \<open>Properties\<close>

text \<open>
  C29. After any sequence of logins and logouts a lookup by account finds exactly the session that
  logged in last for that account and was not removed since, and the list of sessions contains
  exactly those, in whatever order the map is visited.
\<close>

theorem registry_replay:
  assumes "key_order ord"
  shows "GetSession x (registry_after ops) = (case map_of (rev ops) x of None \<Rightarrow> None | Some a \<Rightarrow> a) \<and>
    set (GetSessions ord (registry_after ops)) = {s. \<exists>x. map_of (rev ops) x = Some (Some s)}"
proof -
  have r: "registry_after ops = registry.replay ops"
    by (simp add: registry_after_def registry.replay_def)
  have "set (GetSessions ord (registry_after ops)) = {s. \<exists>x. GetSession x (registry_after ops) = Some s}"
    using registry.sessions_set [OF registry.replay_wf assms, of ops] by (simp add: r)
  then show ?thesis by (auto simp: r registry.get_replay split: option.splits)
qed

theorem registry_replay_witness:
  "GetSession ''x'' (registry_after
     [(''x'', Some 1), (''y'', Some 2), (''x'', Some 3), (''y'', None)]) = Some 3"
proof -
  obtain ord where "key_order ord"
    using finite_distinct_list by (metis key_order_def)
  from registry_replay [OF this, where x = "''x''" and ops = "[(''x'', Some 1), (''y'', Some 2), (''x'', Some 3), (''y'', None)]"]
  show ?thesis by simp
qed

text \<open>
  A lookup by name returns a registered session whose name equals the given one up to case, and
  finds nothing only if there is none.
\<close>

lemma lookup_by_username:
  assumes "finite (dom r)" "key_order ord"
  shows "(case GetSessionByUsername uni name ord u r of
      Some s \<Rightarrow> (\<exists>x. GetSession x r = Some s) \<and> EqualFold uni (name s) u
    | None \<Rightarrow> \<forall>x s. GetSession x r = Some s \<longrightarrow> \<not> EqualFold uni (name s) u)"
  using GetSessionByUsername_Some [OF assms, of uni name u] GetSessionByUsername_None [OF assms, of uni name u]
  by (auto simp: GetSession_def split: option.split)

lemma lookup_by_username_witness:
  "\<exists>ord. key_order ord \<and>
    GetSessionByUsername (\<lambda>_ _. False) (\<lambda>s. if s = 1 then ''Steve'' else ''Alex'') ord ''steve'' [''x'' \<mapsto> 1, ''y'' \<mapsto> 2] = Some 1"
proof -
  obtain ord where ord: "key_order ord"
    using finite_distinct_list by (metis key_order_def)
  let ?g = "GetSessionByUsername (\<lambda>_ _. False) (\<lambda>s. if s = 1 then ''Steve'' else ''Alex'') ord ''steve'' [''x'' \<mapsto> 1, ''y'' \<mapsto> 2]"
  have eq: "EqualFold (\<lambda>_ _. False) ''Steve'' ''steve''" "\<not> EqualFold (\<lambda>_ _. False) ''Alex'' ''steve''"
    by (simp_all add: EqualFold_def str_bytes_def char_byte_def is_upper_def)
  have "?g = Some 1"
    using lookup_by_username [OF _ ord, of "[''x'' \<mapsto> 1, ''y'' \<mapsto> 2]" "\<lambda>_ _. False"
        "\<lambda>s. if s = 1 then ''Steve'' else ''Alex''" "''steve''"] eq
    by (cases ?g) (auto simp: GetSession_def split: if_splits)
  with ord show ?thesis by blast
qed

end
