(* ===== verification/Config.thy ===== *)
theory Config
  imports Prelude
begin

text \<open>
  The configuration (\<^verbatim>\<open>util/opts.go\<close>), the status shown in the server list (\<^verbatim>\<open>util/status.go\<close>)
  and server discovery (\<^verbatim>\<open>server/discovery.go\<close>). A discovery is a pair of functions that may fail;
  the client they are asked about is not used by the static one.
\<close>

section \<open>Definitions\<close>

record opts =
  Addr :: string
  AutoLogin :: bool
  EnableAllClientDecode :: bool
  ClientDecode :: "u32 set"
  LatencyInterval :: i64
  ShutdownMessage :: string
  SyncProtocol :: bool

definition DefaultOpts :: opts where
  "DefaultOpts = \<lparr>Addr = '':19132'', AutoLogin = True, EnableAllClientDecode = False, ClientDecode = {},
     LatencyInterval = 3000, ShutdownMessage = ''Spectrum closed.'', SyncProtocol = False\<rparr>"

record status_provider =
  serverName :: string
  serverSubName :: string

record server_status =
  ss_ServerName :: string
  ss_ServerSubName :: string
  ss_PlayerCount :: int
  ss_MaxPlayers :: int

definition NewStatusProvider :: "string \<Rightarrow> string \<Rightarrow> status_provider" where
  "NewStatusProvider name sub = \<lparr>serverName = name, serverSubName = sub\<rparr>"

definition ServerStatus :: "status_provider \<Rightarrow> int \<Rightarrow> int \<Rightarrow> server_status" where
  "ServerStatus s playerCount maxPlayers =
     \<lparr>ss_ServerName = serverName s, ss_ServerSubName = serverSubName s, ss_PlayerCount = playerCount,
      ss_MaxPlayers = maxPlayers\<rparr>"

text \<open>The interface \<^verbatim>\<open>Discovery\<close>, asked about a client of type \<open>'k\<close>, and the static implementation.\<close>

record 'k discovery =
  Discover :: "'k \<Rightarrow> string res"
  DiscoverFallback :: "'k \<Rightarrow> string res"

definition NewStaticDiscovery :: "string \<Rightarrow> string \<Rightarrow> 'k discovery" where
  "NewStaticDiscovery server fallbackServer =
     \<lparr>Discover = \<lambda>_. Ok server, DiscoverFallback = \<lambda>_. Ok fallbackServer\<rparr>"

end
