(* ===== verification/Session.thy ===== *)
theory Session
  imports Server_Wire Tracker Animations Processor Registry Config
begin

text \<open>
  A player's session (\<^verbatim>\<open>session/session.go\<close>, \<^verbatim>\<open>session/chunk.go\<close>): dialling servers, logging in,
  transferring, falling back, and closing. The connections a session has ever dialled are a list,
  their position is their identity, and \<^verbatim>\<open>serverConn\<close> is a position. The world of a session holds
  the pools and the registry shared by the process; \<open>env\<close> bundles what does not change: the
  libraries, the options, the discovery, and what the transport answers to the n-th dial.
  \<open>transfer_callback\<close> is the closure that \<^verbatim>\<open>TransferContext\<close> hands to \<^verbatim>\<open>OnConnect\<close>; it is the
  provider of the contract \<open>connect_callback\<close>.
\<close>

section \<open>Definitions\<close>

subsection \<open>Error messages\<close>

fun Error :: "go_error \<Rightarrow> string" where
  "Error EOF = ''EOF''"
| "Error ErrUnexpectedEOF = ''unexpected EOF''"
| "Error Canceled = ''context canceled''"
| "Error DeadlineExceeded = ''context deadline exceeded''"
| "Error (ErrorString m) = m"
| "Error (Errorf1 m n) = m @ show_int n"
| "Error (Wrapf m e) = m @ '': '' @ Error e"
| "Error (Wrapf1 m n e) = m @ show_int n @ '': '' @ Error e"
| "Error (Recovered m p) = m @ '': '' @ p"
| "Error (Extern m) = m"

subsection \<open>Empty chunks\<close>

text \<open>
  The three byte tables: a sub-chunk of version 8 without layers, then \<open>n\<close> times a biome section
  (a header byte, 512 zero bytes, and a palette), then the count of border blocks.
\<close>

definition biome_section :: bytes where
  "biome_section = [3] @ replicate 512 0 @ [1, 0]"

definition chunk_bytes :: "nat \<Rightarrow> bytes" where
  "chunk_bytes n = [8, 0] @ concat (replicate n biome_section) @ [0]"

definition chunkEnd :: bytes where "chunkEnd = chunk_bytes 24"
definition chunkNether :: bytes where "chunkNether = chunk_bytes 16"
definition chunkOverworld :: bytes where "chunkOverworld = chunk_bytes 8"

definition emptyChunk :: "dimension \<Rightarrow> bytes" where
  "emptyChunk d =
     (if d = DimensionEnd then chunkEnd
      else if d = DimensionNether then chunkNether
      else chunkOverworld)"

subsection \<open>State\<close>

record env =
  e_lib :: mclib
  e_math :: go_math
  e_orders :: orders
  e_opts :: opts
  e_discovery :: "mc_conn discovery"
  e_dial :: "nat \<Rightarrow> string \<Rightarrow> (stream \<times> sink) res"
  e_dial_time :: "nat \<Rightarrow> string \<Rightarrow> int"
  e_int32 :: "f32 \<Rightarrow> i32"
  e_CurrentProtocol :: i32

text \<open>The variables captured by the closure that a transfer registers.\<close>

record callback =
  cb_origin :: string
  cb_addr :: string

record session =
  s_id :: nat
  s_ctx :: "go_error option"
  s_client :: mc_conn
  s_serverAddr :: string
  s_serverConn :: "nat option"
  s_conns :: "callback conn list"
  s_dials :: "string list"
  s_animation :: animation
  s_background :: "client_event list list"
  s_tracker :: tracker
  s_processor :: processor
  s_notices :: "notice list"
  s_cache :: bytes
  s_latency :: i64
  s_inFallback :: bool
  s_once :: bool

record world = glob +
  pkCtxPool :: "packet_context list"
  w_registry :: registry
  w_session :: session

definition NewSession :: "nat \<Rightarrow> mc_conn \<Rightarrow> session" where
  "NewSession i client =
     \<lparr>s_id = i, s_ctx = None, s_client = client, s_serverAddr = [], s_serverConn = None, s_conns = [],
      s_dials = [], s_animation = Dimension, s_background = [], s_tracker = newTracker,
      s_processor = NopProcessor, s_notices = [], s_cache = [], s_latency = 0, s_inFallback = False,
      s_once = False\<rparr>"

text \<open>Updates of the session and of its client inside the world.\<close>

definition upd_s :: "(session \<Rightarrow> session) \<Rightarrow> world \<Rightarrow> world" where
  "upd_s f w = w\<lparr>w_session := f (w_session w)\<rparr>"

definition upd_k :: "(mc_conn \<Rightarrow> mc_conn) \<Rightarrow> world \<Rightarrow> world" where
  "upd_k f w = upd_s (\<lambda>s. s\<lparr>s_client := f (s_client s)\<rparr>) w"

abbreviation w_client :: "world \<Rightarrow> mc_conn" where
  "w_client w \<equiv> s_client (w_session w)"

text \<open>
  The session's context is derived from the client's: when that one is done, with the cause \<open>e\<close>, so is
  the session's, unless it was done before. The session is not closed by it.
\<close>

definition client_gone :: "go_error \<Rightarrow> world \<Rightarrow> world" where
  "client_gone e w = upd_s (\<lambda>s. s\<lparr>s_ctx := (case s_ctx s of None \<Rightarrow> Some e | Some x \<Rightarrow> Some x)\<rparr>) w"

subsection \<open>Accessors\<close>

definition Session_Animation :: "session \<Rightarrow> animation" where
  "Session_Animation s = s_animation s"

definition Session_Cache :: "session \<Rightarrow> bytes" where
  "Session_Cache s = s_cache s"

definition Session_Processor :: "session \<Rightarrow> processor" where
  "Session_Processor s = s_processor s"

definition Session_Client :: "session \<Rightarrow> mc_conn" where
  "Session_Client s = s_client s"

text \<open>The current connection, \<open>None\<close> for nil.\<close>

definition Session_Server :: "session \<Rightarrow> callback conn option" where
  "Session_Server s = map_option (\<lambda>i. s_conns s ! i) (s_serverConn s)"

definition Session_Context :: "session \<Rightarrow> go_error option" where
  "Session_Context s = s_ctx s"

definition SetAnimation :: "animation \<Rightarrow> world \<Rightarrow> world" where
  "SetAnimation a w = upd_s (\<lambda>s. s\<lparr>s_animation := a\<rparr>) w"

definition SetProcessor :: "processor \<Rightarrow> world \<Rightarrow> world" where
  "SetProcessor p w = upd_s (\<lambda>s. s\<lparr>s_processor := p\<rparr>) w"

definition SetCache :: "bytes \<Rightarrow> world \<Rightarrow> world" where
  "SetCache cache w =
     (let (ctx, cache') = ProcessCache (s_processor (w_session w)) NewContext cache
      in if Context_Cancelled ctx then w else upd_s (\<lambda>s. s\<lparr>s_cache := cache'\<rparr>) w)"

definition Session_Latency :: "session \<Rightarrow> i64" where
  "Session_Latency s = k_Latency (s_client s) * 2 + s_latency s"

subsection \<open>Notifications of the processor\<close>

definition notify_failure :: "string \<Rightarrow> string \<Rightarrow> world \<Rightarrow> world" where
  "notify_failure origin addr w = upd_s (\<lambda>s. s\<lparr>s_notices := s_notices s @ [NotedTransferFailure origin addr]\<rparr>) w"

definition notify_post :: "string \<Rightarrow> string \<Rightarrow> world \<Rightarrow> world" where
  "notify_post origin addr w = upd_s (\<lambda>s. s\<lparr>s_notices := s_notices s @ [NotedPostTransfer origin addr]\<rparr>) w"

subsection \<open>What a transfer sends to the client\<close>

definition sendMetadata :: "bool \<Rightarrow> mc_conn \<Rightarrow> mc_conn" where
  "sendMetadata noAI k =
     k_send (SetActorData (gd_EntityRuntimeID (k_GameData k))
       ((if noAI then [EntityDataFlagNoAI] else []) @ [EntityDataFlagBreathing, EntityDataFlagHasGravity])) k"

text \<open>
  \<^verbatim>\<open>for x := lo; x <= hi; x++\<close> over \<^verbatim>\<open>int32\<close>, with the increment wrapping. The fuel bounds the turns;
  \<open>None\<close> means that the loop was still running.
\<close>

fun for_upto :: "nat \<Rightarrow> i32 \<Rightarrow> i32 \<Rightarrow> i32 list option" where
  "for_upto 0 x hi = None"
| "for_upto (Suc fuel) x hi =
     (if sint x \<le> sint hi then map_option (\<lambda>xs. x # xs) (for_upto fuel (x + 1) hi) else Some [])"

text \<open>The chunk column of a coordinate: conversion to \<^verbatim>\<open>int32\<close>, then an arithmetic shift.\<close>

definition chunk_coord :: "(f32 \<Rightarrow> i32) \<Rightarrow> f32 \<Rightarrow> i32" where
  "chunk_coord int32 x = signed_drop_bit 4 (int32 x)"

definition chunk_positions :: "i32 \<Rightarrow> i32 \<Rightarrow> (i32 \<times> i32) list option" where
  "chunk_positions cx cz =
     (case (for_upto 10 (cx - 4) (cx + 4), for_upto 10 (cz - 4) (cz + 4)) of
        (Some xs, Some zs) \<Rightarrow> Some (List.product xs zs)
      | _ \<Rightarrow> None)"

definition level_chunks :: "(f32 \<Rightarrow> i32) \<Rightarrow> game_data \<Rightarrow> packet list" where
  "level_chunks int32 gd =
     (let (px, py, pz) = gd_PlayerPosition gd
      in case chunk_positions (chunk_coord int32 px) (chunk_coord int32 pz) of
           Some ps \<Rightarrow> map (\<lambda>p. LevelChunk (gd_Dimension gd) p 1 (emptyChunk (gd_Dimension gd))) ps
         | None \<Rightarrow> [])"

definition clear_all :: "orders \<Rightarrow> tracker \<times> mc_conn \<Rightarrow> tracker \<times> mc_conn" where
  "clear_all ord tk =
     clearScoreboards ord (clearPlayers ord (clearBossBars ord (clearEntities ord (clearEffects ord tk))))"

definition world_state_packets :: "game_data \<Rightarrow> packet list" where
  "world_state_packets gd =
     [MovePlayer (gd_EntityRuntimeID gd) (gd_PlayerPosition gd) (gd_Pitch gd) (gd_Yaw gd) MoveModeReset,
      LevelEvent LevelEventStopRaining 10000,
      LevelEvent LevelEventStopThunderstorm 0,
      SetDifficulty (gd_Difficulty gd),
      SetPlayerGameType (gd_PlayerGameMode gd),
      GameRulesChanged (gd_GameRules gd)]"

definition sendGameData :: "env \<Rightarrow> game_data \<Rightarrow> world \<Rightarrow> world" where
  "sendGameData E gd w =
     (let w1 = upd_k (k_send_all (level_chunks (e_int32 E) gd)) w;
          (t, k) = clear_all (e_orders E) (s_tracker (w_session w1), w_client w1);
          w2 = upd_s (\<lambda>s. s\<lparr>s_tracker := t, s_client := k\<rparr>) w1
      in upd_k (k_send_all (world_state_packets gd)) w2)"

subsection \<open>The callback of a transfer\<close>

definition transfer_callback ::
  "env \<Rightarrow> callback \<Rightarrow> go_error option \<Rightarrow> world \<times> callback conn \<Rightarrow> unit res \<times> world \<times> callback conn" where
  "transfer_callback E cb err wc =
     (let (w, c) = wc in
      case err of
        Some e \<Rightarrow> (Ok (), notify_failure (cb_origin cb) (cb_addr cb) w, c)
      | None \<Rightarrow>
          (let gameData = c_gameData c;
               (a, k) = Play (s_animation (w_session w)) gameData (w_client w);
               w1 = upd_s (\<lambda>s. s\<lparr>s_animation := a, s_client := k\<rparr>) w;
               w2 = sendGameData E (c_gameData c) w1
           in case DoSpawn (e_lib E) (w2, c) of
                (Ok _, w3, c1) \<Rightarrow>
                  (let w4 = upd_s (\<lambda>s. s\<lparr>s_inFallback := False\<rparr>) w3;
                       (bg, k') = Clear (e_math E) (s_animation (w_session w4)) gameData (w_client w4);
                       w5 = upd_s (\<lambda>s. s\<lparr>s_client := k',
                              s_background := s_background s @ (case bg of None \<Rightarrow> [] | Some evs \<Rightarrow> [evs])\<rparr>) w4
                   in (Ok (), notify_post (cb_origin cb) (cb_addr cb) w5, c1))
              | (Err e, w3, c1) \<Rightarrow> (Ok (), notify_failure (cb_origin cb) (cb_addr cb) w3, c1)
              | (Panic m, w3, c1) \<Rightarrow> (Panic m, w3, c1)))"

subsection \<open>Operations on a connection of the session\<close>

text \<open>A call on the connection at position \<open>i\<close>; it may act on the world through the callback.\<close>

definition with_conn ::
  "nat \<Rightarrow> (world \<times> callback conn \<Rightarrow> 'a \<times> world \<times> callback conn) \<Rightarrow> world \<Rightarrow> 'a \<times> world" where
  "with_conn i f w =
     (let (r, w1, c1) = f (w, s_conns (w_session w) ! i)
      in (r, upd_s (\<lambda>s. s\<lparr>s_conns := (s_conns s)[i := c1]\<rparr>) w1))"

subsection \<open>Closing\<close>

text \<open>The player's side, then the server's side.\<close>

definition close_client :: "go_error \<Rightarrow> world \<Rightarrow> world" where
  "close_client err w =
     (let message = snd (ProcessDisconnection (s_processor (w_session w)) NewContext (Error err));
          w1 = upd_s (\<lambda>s. s\<lparr>s_notices := s_notices s @ [NotedDisconnection message]\<rparr>) w;
          w2 = upd_k (k_send (Disconnect message)) w1
      in upd_k (\<lambda>k. snd (k_Close k)) w2)"

definition close_server :: "env \<Rightarrow> go_error \<Rightarrow> world \<Rightarrow> unit res \<times> world" where
  "close_server E err w =
     (case s_serverConn (w_session w) of
        None \<Rightarrow> (Ok (), w)
      | Some i \<Rightarrow> with_conn i (CloseWithError (transfer_callback E) err) w)"

definition Session_CloseWithError :: "env \<Rightarrow> go_error \<Rightarrow> world \<Rightarrow> unit res \<times> world" where
  "Session_CloseWithError E err w =
     (if s_once (w_session w) then (Ok (), w)
      else
        (case close_server E err (close_client err (upd_s (\<lambda>s. s\<lparr>s_once := True\<rparr>) w)) of
           (Panic m, w1) \<Rightarrow> (Panic m, w1)
         | (_, w1) \<Rightarrow>
             (let w2 = upd_s (\<lambda>s. s\<lparr>s_ctx := (case s_ctx s of None \<Rightarrow> Some err | Some e \<Rightarrow> Some e)\<rparr>) w1
              in (Ok (), w2\<lparr>w_registry := RemoveSession (k_XUID (w_client w2)) (w_registry w2)\<rparr>))))"

definition Session_Close :: "env \<Rightarrow> world \<Rightarrow> unit res \<times> world" where
  "Session_Close E w = Session_CloseWithError E (ErrorString ''closed by application'') w"

definition Session_Disconnect :: "env \<Rightarrow> string \<Rightarrow> world \<Rightarrow> unit res \<times> world" where
  "Session_Disconnect E message w = Session_CloseWithError E (ErrorString message) w"

subsection \<open>Dialling\<close>

definition session_dial :: "env \<Rightarrow> string \<Rightarrow> world \<Rightarrow> nat res \<times> world" where
  "session_dial E addr w =
     (case s_ctx (w_session w) of
        Some e \<Rightarrow> (Err e, w)
      | None \<Rightarrow>
          (let (r, w1) = (case s_serverConn (w_session w) of
                            None \<Rightarrow> (Ok (), w)
                          | Some i \<Rightarrow> with_conn i (Conn_Close (transfer_callback E)) w)
           in case r of
                Panic m \<Rightarrow> (Panic m, w1)
              | _ \<Rightarrow>
                  (let n = length (s_dials (w_session w1));
                       w2 = upd_s (\<lambda>s. s\<lparr>s_dials := s_dials s @ [addr]\<rparr>) w1
                   in case e_dial E n addr of
                        Err e \<Rightarrow> (Err e, w2)
                      | Panic m \<Rightarrow> (Panic m, w2)
                      | Ok io \<Rightarrow>
                          (let c = NewConn (e_lib E) io (k_info (w_client w2)) (SyncProtocol (e_opts E))
                                     (s_cache (w_session w2));
                               i = length (s_conns (w_session w2))
                           in (Ok i, upd_s (\<lambda>s. s\<lparr>s_conns := s_conns s @ [c], s_serverAddr := addr,
                                                  s_serverConn := Some i\<rparr>) w2)))))"

subsection \<open>Transfers\<close>

text \<open>
  \<^verbatim>\<open>TransferContext\<close> up to and including \<^verbatim>\<open>DoConnect\<close>; on success the new connection and the captured
  variables. The registration of the callback is a step of its own: other goroutines may run between.
\<close>

definition transfer_start :: "env \<Rightarrow> string \<Rightarrow> world \<Rightarrow> (nat \<times> callback) res \<times> world" where
  "transfer_start E addr0 w =
     (let (ctx, origin, addr) =
            ProcessPreTransfer (s_processor (w_session w)) NewContext (s_serverAddr (w_session w)) addr0;
          w1 = upd_s (\<lambda>s. s\<lparr>s_notices := s_notices s @ [NotedPreTransfer (s_serverAddr (w_session w)) addr0]\<rparr>) w
      in if Context_Cancelled ctx then (Err (ErrorString ''processor failed''), w1)
         else
           (case session_dial E addr (upd_k (sendMetadata True) w1) of
              (Err e, w2) \<Rightarrow> (Err (Wrapf ''dialer failed'' e), notify_failure origin addr w2)
            | (Panic m, w2) \<Rightarrow> (Panic m, w2)
            | (Ok i, w2) \<Rightarrow>
                (case with_conn i (DoConnect (e_lib E)) w2 of
                   (Err e, w3) \<Rightarrow>
                     (Err (Wrapf ''connection sequence failed failed'' e), notify_failure origin addr w3)
                 | (Panic m, w3) \<Rightarrow> (Panic m, w3)
                 | (Ok _, w3) \<Rightarrow> (Ok (i, \<lparr>cb_origin = origin, cb_addr = addr\<rparr>), w3))))"

definition transfer_register :: "nat \<times> callback \<Rightarrow> world \<Rightarrow> world" where
  "transfer_register icb w =
     (let (i, cb) = icb in snd (with_conn i (\<lambda>(w, c). ((), w, OnConnect cb c)) w))"

definition TransferContext :: "env \<Rightarrow> string \<Rightarrow> world \<Rightarrow> unit res \<times> world" where
  "TransferContext E addr w =
     (case transfer_start E addr w of
        (Ok icb, w1) \<Rightarrow> (Ok (), transfer_register icb w1)
      | (Err e, w1) \<Rightarrow> (Err e, w1)
      | (Panic m, w1) \<Rightarrow> (Panic m, w1))"

text \<open>
  \<^verbatim>\<open>context.WithTimeout\<close>: a dial that takes longer than \<open>d\<close> (in nanoseconds) fails. Nothing else of a
  transfer depends on its context.
\<close>

definition with_timeout :: "int \<Rightarrow> env \<Rightarrow> env" where
  "with_timeout d E = E\<lparr>e_dial := \<lambda>n addr. if d < e_dial_time E n addr then Err DeadlineExceeded else e_dial E n addr\<rparr>"

definition minute :: int where "minute = 60 * 1000000000"

definition Session_TransferTimeout :: "env \<Rightarrow> string \<Rightarrow> int \<Rightarrow> world \<Rightarrow> unit res \<times> world" where
  "Session_TransferTimeout E addr d w = TransferContext (with_timeout d E) addr w"

definition Session_Transfer :: "env \<Rightarrow> string \<Rightarrow> world \<Rightarrow> unit res \<times> world" where
  "Session_Transfer E addr w = TransferContext (with_timeout minute E) addr w"

subsection \<open>Fallback\<close>

definition fallback :: "env \<Rightarrow> world \<Rightarrow> unit res \<times> world" where
  "fallback E w =
     (case s_ctx (w_session w) of
        Some e \<Rightarrow> (Err e, w)
      | None \<Rightarrow>
          (if s_inFallback (w_session w) then (Err (ErrorString ''already in fallback''), w)
           else
             (let w1 = upd_s (\<lambda>s. s\<lparr>s_inFallback := True\<rparr>) w in
              case DiscoverFallback (e_discovery E) (w_client w1) of
                Err e \<Rightarrow> (Err (Wrapf ''discovery failed'' e), w1)
              | Panic m \<Rightarrow> (Panic m, w1)
              | Ok addr \<Rightarrow>
                  (case Session_Transfer E addr w1 of
                     (Err e, w2) \<Rightarrow> (Err (Wrapf ''transfer failed'' e), w2)
                   | r \<Rightarrow> r))))"

subsection \<open>Login\<close>

text \<open>
  \<^verbatim>\<open>LoginContext\<close> up to the wait: discovery, dialling and \<^verbatim>\<open>DoConnect\<close>. The three goroutines are
  started in between and run concurrently from then on.
\<close>

definition login_start :: "env \<Rightarrow> world \<Rightarrow> nat res \<times> world" where
  "login_start E w =
     (case Discover (e_discovery E) (w_client w) of
        Err e \<Rightarrow> (Err e, w)
      | Panic m \<Rightarrow> (Panic m, w)
      | Ok addr \<Rightarrow>
          (case session_dial E addr w of
             (Ok i, w1) \<Rightarrow>
               (case with_conn i (DoConnect (e_lib E)) w1 of
                  (Ok _, w2) \<Rightarrow> (Ok i, w2)
                | (Err e, w2) \<Rightarrow> (Err e, w2)
                | (Panic m, w2) \<Rightarrow> (Panic m, w2))
           | r \<Rightarrow> r))"

text \<open>
  From the result of \<^verbatim>\<open>WaitConnect\<close> to the spawn, and the registration, before which other goroutines
  may run again.
\<close>

definition login_spawn :: "env \<Rightarrow> nat \<Rightarrow> go_error option \<Rightarrow> world \<Rightarrow> unit res \<times> world" where
  "login_spawn E i waited w =
     (case waited of
        Some e \<Rightarrow>
          (case with_conn i (CloseWithError (transfer_callback E) (Wrapf ''connection sequence failed'' e)) w of
             (Panic m, w1) \<Rightarrow> (Panic m, w1)
           | (_, w1) \<Rightarrow> (Err e, w1))
      | None \<Rightarrow>
          (let (ctx, gd) = ProcessStartGame (s_processor (w_session w)) NewContext
                             (c_gameData (s_conns (w_session w) ! i));
               w1 = upd_s (\<lambda>s. s\<lparr>s_notices := s_notices s @ [NotedStartGame]\<rparr>) w
           in case k_StartGame gd (w_client w1) of
                (Some e, k) \<Rightarrow> (Err e, upd_k (\<lambda>_. k) w1)
              | (None, k) \<Rightarrow>
                  with_conn i (DoSpawn (e_lib E)) (upd_k (\<lambda>_. k) w1)))"

definition login_register :: "world \<Rightarrow> world" where
  "login_register w =
     w\<lparr>w_registry := AddSession (k_XUID (w_client w)) (s_id (w_session w)) (w_registry w)\<rparr>"

text \<open>\<^verbatim>\<open>Login\<close> and \<^verbatim>\<open>LoginTimeout\<close> bound the dial, and the wait through its context.\<close>

definition LoginTimeout_start :: "env \<Rightarrow> int \<Rightarrow> world \<Rightarrow> nat res \<times> world" where
  "LoginTimeout_start E d w = login_start (with_timeout d E) w"

definition Login_start :: "env \<Rightarrow> world \<Rightarrow> nat res \<times> world" where
  "Login_start E w = login_start (with_timeout minute E) w"

subsection \<open>Specification\<close>

text \<open>The session may refer to its connections.\<close>

definition session_wf :: "session \<Rightarrow> bool" where
  "session_wf s \<longleftrightarrow> (case s_serverConn s of None \<Rightarrow> True | Some i \<Rightarrow> i < length (s_conns s)) \<and>
     tracker_finite (s_tracker s)"

section \<open>Lemmas\<close>

lemma upd_simps [simp]:
  "w_session (upd_s f w) = f (w_session w)" "w_registry (upd_s f w) = w_registry w"
  "pkCtxPool (upd_s f w) = pkCtxPool w" "headerPool (upd_s f w) = headerPool w"
  "w_session (upd_k h w) = (w_session w)\<lparr>s_client := h (s_client (w_session w))\<rparr>"
  "w_registry (upd_k h w) = w_registry w" "pkCtxPool (upd_k h w) = pkCtxPool w"
  "headerPool (upd_k h w) = headerPool w"
  by (simp_all add: upd_s_def upd_k_def)

subsection \<open>The callback\<close>

lemma transfer_callback_frame:
  assumes "transfer_callback E cb e (w, c) = (r, w', c')"
  shows "spawn_frame c c'"
  using assms
  by (cases e) (auto simp: transfer_callback_def Let_def split: prod.splits res.splits dest!: DoSpawn_frame)

text \<open>The callback keeps the contract that the connection sequence rests on.\<close>

interpretation transfer: connect_callback "transfer_callback E" for E
  by unfold_locales (rule transfer_callback_frame)

lemma transfer_callback_dial [simp]: "transfer_callback (E\<lparr>e_dial := f\<rparr>) = transfer_callback E"
proof (intro ext)
  fix cb err wc
  have "sendGameData (E\<lparr>e_dial := f\<rparr>) = sendGameData E" by (intro ext) (simp add: sendGameData_def)
  moreover have "e_lib (E\<lparr>e_dial := f\<rparr>) = e_lib E" "e_math (E\<lparr>e_dial := f\<rparr>) = e_math E" by simp_all
  ultimately show "transfer_callback (E\<lparr>e_dial := f\<rparr>) cb err wc = transfer_callback E cb err wc"
    unfolding transfer_callback_def by presburger
qed

lemma with_timeout_simps [simp]:
  "transfer_callback (with_timeout d E) = transfer_callback E" "e_lib (with_timeout d E) = e_lib E"
  "e_opts (with_timeout d E) = e_opts E"
  by (simp_all add: with_timeout_def)

lemma transfer_callback_error [simp]:
  "transfer_callback E cb (Some e) (w, c) = (Ok (), notify_failure (cb_origin cb) (cb_addr cb) w, c)"
  by (simp add: transfer_callback_def)

text \<open>Closing a connection never panics, and of the session it changes the notices at most.\<close>

lemma CloseWithError_world:
  assumes "CloseWithError (transfer_callback E) e (w, c) = (r, w', c')"
  shows "r = Ok () \<and> c_once c' \<and> (c_once c \<longrightarrow> c' = c) \<and>
    (\<not> c_once c \<longrightarrow> c' = c\<lparr>c_once := True, c_ctx := (case c_ctx c of None \<Rightarrow> Some e | Some x \<Rightarrow> Some x), c_closed := True\<rparr>) \<and>
    w' = (if \<not> c_once c \<and> \<not> c_connected c then
            (case c_onConnect c of None \<Rightarrow> w | Some cb \<Rightarrow> notify_failure (cb_origin cb) (cb_addr cb) w) else w)"
  using assms by (auto simp: CloseWithError_def Let_def split: if_splits option.splits)

lemma with_conn_close:
  assumes "with_conn i (CloseWithError (transfer_callback E) e) w = (r, w')"
  obtains c' ns where "r = Ok ()" "c_once c'"
    "c_once (s_conns (w_session w) ! i) \<longrightarrow> c' = s_conns (w_session w) ! i"
    "\<not> c_once (s_conns (w_session w) ! i) \<longrightarrow> c_closed c' \<and> c_ctx c' \<noteq> None"
    "w' = upd_s (\<lambda>s. s\<lparr>s_notices := s_notices s @ ns, s_conns := (s_conns s)[i := c']\<rparr>) w"
proof -
  let ?c = "s_conns (w_session w) ! i"
  obtain r1 w1 c1 where 1: "CloseWithError (transfer_callback E) e (w, ?c) = (r1, w1, c1)" by (metis prod.exhaust)
  from CloseWithError_world [OF 1] have c1: "r1 = Ok ()" "c_once c1" "c_once ?c \<longrightarrow> c1 = ?c"
    "\<not> c_once ?c \<longrightarrow> c_closed c1 \<and> c_ctx c1 \<noteq> None"
    and w1: "w1 = w \<or> (\<exists>x a. w1 = notify_failure x a w)" by (auto split: option.splits if_splits)
  from w1 obtain ns where "w1 = upd_s (\<lambda>s. s\<lparr>s_notices := s_notices s @ ns\<rparr>) w"
  proof (elim disjE exE)
    assume "w1 = w"
    then show thesis by (intro that [of "[]"]) (simp add: upd_s_def)
  qed (simp add: notify_failure_def that)
  then have "w' = upd_s (\<lambda>s. s\<lparr>s_notices := s_notices s @ ns, s_conns := (s_conns s)[i := c1]\<rparr>) w" "r = r1"
    using assms 1 by (simp_all add: with_conn_def upd_s_def)
  with c1 show thesis by (intro that [of c1 ns]) auto
qed

subsection \<open>Chunks around the player\<close>

lemma sint_i32_add:
  "- (2 ^ 31) \<le> sint (a::i32) + sint b \<Longrightarrow> sint a + sint b < 2 ^ 31 \<Longrightarrow> sint (a + b) = sint a + sint b"
  by (simp add: sint_word_add signed_take_bit_int_eq_self)

lemma sint_i32_diff:
  "- (2 ^ 31) \<le> sint (a::i32) - sint b \<Longrightarrow> sint a - sint b < 2 ^ 31 \<Longrightarrow> sint (a - b) = sint a - sint b"
  by (simp add: sint_word_diff signed_take_bit_int_eq_self)

lemma for_upto_eq:
  assumes "sint hi < 2 ^ 31 - 1" "sint hi - sint x < int fuel - 1" "0 < fuel"
  shows "for_upto fuel x hi = Some (map word_of_int [sint x..sint hi])"
  using assms
proof (induction fuel arbitrary: x)
  case (Suc fuel)
  show ?case
  proof (cases "sint x \<le> sint hi")
    case True
    have "sint (x + 1) = sint x + 1"
      using True Suc.prems(1) sint_ge [of x] by (simp add: sint_i32_add)
    with Suc True show ?thesis
      by (simp add: upto_rec1)
  qed simp
qed simp

lemma chunk_coord_range: "- (2 ^ 27) \<le> sint (chunk_coord f x) \<and> sint (chunk_coord f x) < 2 ^ 27"
proof -
  have "sint (chunk_coord f x) = sint (f x) div 16"
    by (simp add: chunk_coord_def sint_signed_drop_bit_eq drop_bit_eq_div)
  moreover have "- (2 ^ 31) \<le> sint (f x)" "sint (f x) < 2 ^ 31"
    using sint_ge [of "f x"] sint_lt [of "f x"] by simp_all
  moreover have "(- (2 ^ 31)) div 16 \<le> sint (f x) div 16" "sint (f x) div 16 \<le> (2 ^ 31 - 1) div 16"
    using calculation(2,3) by (auto intro: zdiv_mono1)
  ultimately show ?thesis by simp
qed

text \<open>Ten units of fuel are enough for each of the two loops of nine turns.\<close>

lemma chunk_loop_eq:
  assumes "- (2 ^ 27) \<le> sint c" "sint c < 2 ^ 27"
  shows "for_upto 10 (c - 4) (c + 4) = Some (map word_of_int [sint c - 4..sint c + 4])"
proof -
  have "sint (c - 4) = sint c - 4" "sint (c + 4) = sint c + 4"
    using assms by (simp_all add: sint_i32_add sint_i32_diff)
  with for_upto_eq [of "c + 4" "c - 4" 10] assms show ?thesis by simp
qed

lemma word_of_int_inj_range:
  assumes "- (2 ^ 31) \<le> a" "b < 2 ^ 31"
  shows "inj_on (word_of_int :: int \<Rightarrow> i32) {a..b}"
proof (rule inj_onI)
  fix x y assume "x \<in> {a..b}" "y \<in> {a..b}" "(word_of_int x :: i32) = word_of_int y"
  then have "sint (word_of_int x :: i32) = sint (word_of_int y :: i32)" by simp
  moreover have "sint (word_of_int z :: i32) = z" if "z \<in> {a..b}" for z
    using that assms by (simp add: sint_sbintrunc' signed_take_bit_int_eq_self)
  ultimately show "x = y" using \<open>x \<in> {a..b}\<close> \<open>y \<in> {a..b}\<close> by metis
qed

lemma chunk_positions_eq:
  assumes "- (2 ^ 27) \<le> sint cx" "sint cx < 2 ^ 27" "- (2 ^ 27) \<le> sint cz" "sint cz < 2 ^ 27"
  obtains ps where "chunk_positions cx cz = Some ps" "length ps = 81" "distinct ps"
    "set ps = {(x, z). \<bar>sint x - sint cx\<bar> \<le> 4 \<and> \<bar>sint z - sint cz\<bar> \<le> 4}"
proof -
  let ?line = "\<lambda>c::i32. map word_of_int [sint c - 4..sint c + 4] :: i32 list"
  have line: "distinct (?line c)" "set (?line c) = {x. \<bar>sint x - sint c\<bar> \<le> 4}"
    if "- (2 ^ 27) \<le> sint c" "sint c < 2 ^ 27" for c
  proof -
    show "distinct (?line c)"
      using that by (simp add: distinct_map word_of_int_inj_range)
    have "sint (word_of_int z :: i32) = z" if "z \<in> {sint c - 4..sint c + 4}" for z
      using that \<open>- (2 ^ 27) \<le> sint c\<close> \<open>sint c < 2 ^ 27\<close> by (simp add: sint_sbintrunc' signed_take_bit_int_eq_self)
    then have "set (?line c) \<subseteq> {x. \<bar>sint x - sint c\<bar> \<le> 4}" by auto
    moreover have "x \<in> set (?line c)" if "\<bar>sint x - sint c\<bar> \<le> 4" for x
      using that by (auto simp: abs_le_iff intro!: image_eqI [of x word_of_int "sint x"])
    ultimately show "set (?line c) = {x. \<bar>sint x - sint c\<bar> \<le> 4}" by blast
  qed
  show thesis
  proof (rule that [of "List.product (?line cx) (?line cz)"])
    show "chunk_positions cx cz = Some (List.product (?line cx) (?line cz))"
      using assms by (simp add: chunk_positions_def chunk_loop_eq)
    show "distinct (List.product (?line cx) (?line cz))"
      using line assms by (simp add: distinct_product)
    show "set (List.product (?line cx) (?line cz)) = {(x, z). \<bar>sint x - sint cx\<bar> \<le> 4 \<and> \<bar>sint z - sint cz\<bar> \<le> 4}"
      using line(2) assms by auto
    show "length (List.product (?line cx) (?line cz)) = 81" by simp
  qed
qed

lemma level_chunks_eq:
  obtains ps where "level_chunks f gd = map (\<lambda>p. LevelChunk (gd_Dimension gd) p 1 (emptyChunk (gd_Dimension gd))) ps"
    "length ps = 81" "distinct ps"
    "set ps = {(x, z). \<bar>sint x - sint (chunk_coord f (fst (gd_PlayerPosition gd)))\<bar> \<le> 4 \<and>
      \<bar>sint z - sint (chunk_coord f (snd (snd (gd_PlayerPosition gd))))\<bar> \<le> 4}"
proof -
  obtain px py pz where pos: "gd_PlayerPosition gd = (px, py, pz)" by (metis prod.exhaust)
  from chunk_positions_eq [of "chunk_coord f px" "chunk_coord f pz"]
    chunk_coord_range [of f px] chunk_coord_range [of f pz]
  obtain ps where "chunk_positions (chunk_coord f px) (chunk_coord f pz) = Some ps" "length ps = 81" "distinct ps"
    "set ps = {(x, z). \<bar>sint x - sint (chunk_coord f px)\<bar> \<le> 4 \<and> \<bar>sint z - sint (chunk_coord f pz)\<bar> \<le> 4}"
    by metis
  with that [of ps] pos show thesis by (simp add: level_chunks_def)
qed

subsection \<open>Clearing the player's view\<close>

lemma clear_all_tracker:
  "fst (clear_all ord (t, k)) = newTracker"
  by (cases t) (simp add: clear_all_def clearScoreboards_def clearPlayers_def clearBossBars_def clearEntities_def
      clearEffects_def newTracker_def Let_def case_prod_beta)

text \<open>The packets that clearing sends, in order.\<close>

definition clear_packets :: "orders \<Rightarrow> u64 \<Rightarrow> tracker \<Rightarrow> packet list" where
  "clear_packets ord rid t =
     map (MobEffect rid MobEffectRemove) (o_i32 ord (effects t)) @ map RemoveActor (o_i64 ord (entities t)) @
     map (\<lambda>i. BossEvent i BossEventHide) (o_i64 ord (bossBars t)) @
     [PlayerList PlayerListActionRemove (o_b16 ord (players t))] @ map RemoveObjective (o_str ord (scoreboards t))"

lemma clear_all_client:
  "k_answers k = [] \<Longrightarrow> snd (clear_all ord (t, k)) =
     k\<lparr>k_trace := k_trace k @ map Sent (clear_packets ord (gd_EntityRuntimeID (k_GameData k)) t)\<rparr>"
  by (simp add: clear_all_def clearScoreboards_def clearPlayers_def clearBossBars_def clearEntities_def
      clearEffects_def Let_def case_prod_beta k_send_all_clean clear_packets_def)

lemma fold_view_neutral: "(\<And>pk V. pk \<in> set pks \<Longrightarrow> view pk V = V) \<Longrightarrow> fold view pks V = V"
  by (induction pks) auto

lemma clear_packets_views:
  assumes "orders_ok ord" "tracker_finite t"
  shows "V1 \<subseteq> entities t \<Longrightarrow> fold view_entities (clear_packets ord rid t) V1 = {}"
    "V2 \<subseteq> effects t \<Longrightarrow> fold (view_effects rid) (clear_packets ord rid t) V2 = {}"
    "V3 \<subseteq> bossBars t \<Longrightarrow> fold view_bossBars (clear_packets ord rid t) V3 = {}"
    "V4 \<subseteq> players t \<Longrightarrow> fold view_players (clear_packets ord rid t) V4 = {}"
    "V5 \<subseteq> scoreboards t \<Longrightarrow> fold view_scoreboards (clear_packets ord rid t) V5 = {}"
proof -
  note set_ord = orders_okD [OF assms(1)]
  have r: "fold view_entities (map RemoveActor is) V = V - set is"
    "fold (view_effects rid) (map (MobEffect rid MobEffectRemove) js) W = W - set js"
    "fold view_bossBars (map (\<lambda>i. BossEvent i BossEventHide) is) V = V - set is"
    "fold view_scoreboards (map RemoveObjective ns) N = N - set ns" for "is" js ns V W N
    by (rule fold_map_remove; simp add: view_defs)+
  have n: "fold view_entities (map (MobEffect rid MobEffectRemove) js) V = V"
    "fold view_entities (map (\<lambda>i. BossEvent i BossEventHide) is) V = V"
    "fold view_entities (map RemoveObjective ns) V = V"
    "fold (view_effects rid) (map RemoveActor is) W = W"
    "fold (view_effects rid) (map (\<lambda>i. BossEvent i BossEventHide) is) W = W"
    "fold (view_effects rid) (map RemoveObjective ns) W = W"
    "fold view_bossBars (map (MobEffect rid MobEffectRemove) js) V = V"
    "fold view_bossBars (map RemoveActor is) V = V" "fold view_bossBars (map RemoveObjective ns) V = V"
    "fold view_players (map (MobEffect rid MobEffectRemove) js) U = U"
    "fold view_players (map RemoveActor is) U = U" "fold view_players (map RemoveObjective ns) U = U"
    "fold view_players (map (\<lambda>i. BossEvent i BossEventHide) is) U = U"
    "fold view_scoreboards (map (MobEffect rid MobEffectRemove) js) N = N"
    "fold view_scoreboards (map RemoveActor is) N = N"
    "fold view_scoreboards (map (\<lambda>i. BossEvent i BossEventHide) is) N = N" for "is" js ns V W U N
    by (rule fold_view_neutral; auto simp: view_defs)+
  have p: "view_entities (PlayerList PlayerListActionRemove us) V = V"
    "view_effects rid (PlayerList PlayerListActionRemove us) W = W"
    "view_bossBars (PlayerList PlayerListActionRemove us) V = V"
    "view_scoreboards (PlayerList PlayerListActionRemove us) N = N"
    "view_players (PlayerList PlayerListActionRemove us) U = U - set us" for us V W U N
    by (simp_all add: view_defs)
  note fin = assms(2) [unfolded tracker_finite_def]
  show "V1 \<subseteq> entities t \<Longrightarrow> fold view_entities (clear_packets ord rid t) V1 = {}"
    using fin by (auto simp: clear_packets_def r n p set_ord)
  show "V2 \<subseteq> effects t \<Longrightarrow> fold (view_effects rid) (clear_packets ord rid t) V2 = {}"
    using fin by (auto simp: clear_packets_def r n p set_ord)
  show "V3 \<subseteq> bossBars t \<Longrightarrow> fold view_bossBars (clear_packets ord rid t) V3 = {}"
    using fin by (auto simp: clear_packets_def r n p set_ord)
  show "V4 \<subseteq> players t \<Longrightarrow> fold view_players (clear_packets ord rid t) V4 = {}"
    using fin by (auto simp: clear_packets_def r n p set_ord)
  show "V5 \<subseteq> scoreboards t \<Longrightarrow> fold view_scoreboards (clear_packets ord rid t) V5 = {}"
    using fin by (auto simp: clear_packets_def r n p set_ord)
qed

lemma level_chunks_neutral:
  assumes "pk \<in> set (level_chunks f gd)"
  shows "view_entities pk V1 = V1" "view_effects rid pk V2 = V2" "view_bossBars pk V3 = V3"
    "view_players pk V4 = V4" "view_scoreboards pk V5 = V5"
  using assms by (auto simp: level_chunks_def view_defs split: prod.splits option.splits)

lemma world_state_neutral:
  assumes "pk \<in> set (world_state_packets gd)"
  shows "view_entities pk V1 = V1" "view_effects rid pk V2 = V2" "view_bossBars pk V3 = V3"
    "view_players pk V4 = V4" "view_scoreboards pk V5 = V5"
  using assms by (auto simp: world_state_packets_def view_defs)

lemma sendGameData_clean:
  assumes "k_answers (w_client w) = []"
  shows "sendGameData E gd w = upd_s (\<lambda>s. s\<lparr>s_tracker := newTracker, s_client := (s_client s)\<lparr>k_trace :=
    k_trace (s_client s) @ map Sent (level_chunks (e_int32 E) gd @
      clear_packets (e_orders E) (gd_EntityRuntimeID (k_GameData (s_client s))) (s_tracker s) @
      world_state_packets gd)\<rparr>\<rparr>) w"
proof -
  let ?w1 = "upd_k (k_send_all (level_chunks (e_int32 E) gd)) w"
  obtain t k where tk: "clear_all (e_orders E) (s_tracker (w_session ?w1), w_client ?w1) = (t, k)" by fastforce
  then have t: "t = newTracker"
    using clear_all_tracker [of "e_orders E" "s_tracker (w_session ?w1)" "w_client ?w1"] by simp
  have k: "k = (w_client ?w1)\<lparr>k_trace := k_trace (w_client ?w1) @ map Sent (clear_packets (e_orders E)
      (gd_EntityRuntimeID (k_GameData (w_client ?w1))) (s_tracker (w_session ?w1)))\<rparr>"
    using clear_all_client [of "w_client ?w1" "e_orders E" "s_tracker (w_session ?w1)"] tk assms
    by (simp add: k_send_all_clean)
  show ?thesis
    using assms unfolding sendGameData_def Let_def tk
    by (simp add: t k upd_s_def upd_k_def k_send_all_clean)
qed

lemma k_send_all_notices [simp]:
  "s_notices (w_session (sendGameData E gd w)) = s_notices (w_session w)"
  "s_inFallback (w_session (sendGameData E gd w)) = s_inFallback (w_session w)"
  by (simp_all add: sendGameData_def Let_def case_prod_beta)

lemma WritePacket_world:
  "WritePacket L pk (w, c) = (r, w', c') \<Longrightarrow> \<exists>hs. w' = w\<lparr>headerPool := hs\<rparr>"
  by (auto simp: WritePacket_def headerPool_Get_def headerPool_Put_def Let_def
      split: option.splits prod.splits res.splits list.splits)
     (metis glob.surjective glob.update_convs(1))+

lemma DoSpawn_world:
  assumes "DoSpawn L (w, c) = (r, w', c')"
  shows "(\<exists>hs. w' = w\<lparr>headerPool := hs\<rparr>) \<and> (r = Ok () \<longrightarrow> c_spawned c')"
proof -
  have same: "\<exists>hs. w = w\<lparr>headerPool := hs\<rparr>" by (rule exI [of _ "headerPool w"]) simp
  show ?thesis
  proof (cases "c_ctx c = None \<and> \<not> c_spawned c")
    case True
    obtain r1 w1 c1 where 1: "WritePacket L (ClientCacheStatus (ci_CacheEnabled (c_client c)))
        (w, c\<lparr>c_spawned := True\<rparr>) = (r1, w1, c1)" by (metis prod.exhaust)
    obtain r2 w2 c2 where 2: "WritePacket L (SetLocalPlayerAsInitialised (c_runtimeID c1)) (w1, c1) = (r2, w2, c2)"
      by (metis prod.exhaust)
    from WritePacket_world [OF 1] WritePacket_world [OF 2]
    have "\<exists>hs. w1 = w\<lparr>headerPool := hs\<rparr>" "\<exists>hs. w2 = w\<lparr>headerPool := hs\<rparr>" by auto
    moreover from WritePacket_frame [OF 1] WritePacket_frame [OF 2] have "c_spawned c1" "c_spawned c2" by auto
    ultimately show ?thesis using assms True 1 2 by (cases r1) (auto simp: DoSpawn_def)
  qed (use assms same in \<open>auto simp: DoSpawn_def split: option.splits\<close>)
qed

lemma notify_simps [simp]:
  "s_notices (w_session (notify_failure x a w)) = s_notices (w_session w) @ [NotedTransferFailure x a]"
  "s_notices (w_session (notify_post x a w)) = s_notices (w_session w) @ [NotedPostTransfer x a]"
  "s_inFallback (w_session (notify_failure x a w)) = s_inFallback (w_session w)"
  "s_inFallback (w_session (notify_post x a w)) = s_inFallback (w_session w)"
  by (simp_all add: notify_failure_def notify_post_def)

lemma transfer_callback_effect:
  assumes "transfer_callback E cb None (w, c) = (Ok (), w', c')"
  shows "s_notices (w_session w') = s_notices (w_session w) @ [NotedPostTransfer (cb_origin cb) (cb_addr cb)] \<and>
      c_spawned c' \<and> \<not> s_inFallback (w_session w') \<or>
    s_notices (w_session w') = s_notices (w_session w) @ [NotedTransferFailure (cb_origin cb) (cb_addr cb)] \<and>
      s_inFallback (w_session w') = s_inFallback (w_session w)"
  using assms
  by (auto simp: transfer_callback_def Let_def split: prod.splits res.splits dest!: DoSpawn_world)

subsection \<open>A concrete session\<close>

lemma orders_exist: obtains ord where "orders_ok ord"
proof -
  have "\<exists>f::'a set \<Rightarrow> 'a list. \<forall>S. finite S \<longrightarrow> set (f S) = S \<and> distinct (f S)"
    by (metis finite_distinct_list)
  then obtain a :: "i64 set \<Rightarrow> i64 list" and b :: "i32 set \<Rightarrow> i32 list" and c :: "uuid set \<Rightarrow> uuid list"
    and d :: "string set \<Rightarrow> string list"
    where "\<forall>S. finite S \<longrightarrow> set (a S) = S \<and> distinct (a S)" "\<forall>S. finite S \<longrightarrow> set (b S) = S \<and> distinct (b S)"
      "\<forall>S. finite S \<longrightarrow> set (c S) = S \<and> distinct (c S)" "\<forall>S. finite S \<longrightarrow> set (d S) = S \<and> distinct (d S)"
    using finite_distinct_list by metis
  then have "orders_ok \<lparr>o_i64 = a, o_i32 = b, o_b16 = c, o_str = d\<rparr>" by (simp add: orders_ok_def)
  then show thesis by (rule that)
qed

definition demo_client :: mc_conn where
  "demo_client = \<lparr>k_info = demo_client_info, k_XUID = ''1'', k_DisplayName = ''Steve'', k_GameData = zero_game_data,
     k_startgame = \<lambda>gd. gd, k_Latency = 20, k_batches = [], k_answers = [], k_trace = []\<rparr>"

definition demo_env :: env where
  "demo_env = \<lparr>e_lib = demo_lib, e_math = \<lparr>math_Pi = 3, math_Cos = \<lambda>_. 1, math_Sin = \<lambda>_. 0\<rparr>,
     e_orders = \<lparr>o_i64 = \<lambda>_. [], o_i32 = \<lambda>_. [], o_b16 = \<lambda>_. [], o_str = \<lambda>_. []\<rparr>, e_opts = DefaultOpts,
     e_discovery = NewStaticDiscovery ''lobby'' ''fallback'',
     e_dial = \<lambda>n addr. if addr = ''down'' then Err (Extern ''refused'')
       else Ok (\<lparr>s_data = [], s_end = EOF\<rparr>, \<lparr>k_out = [], k_faults = []\<rparr>),
     e_dial_time = \<lambda>n addr. if addr = ''slow'' then 61 * 1000000000 else 0, e_int32 = \<lambda>x. word_of_int (trunc x), e_CurrentProtocol = 800\<rparr>"

definition demo_world :: world where
  "demo_world = \<lparr>headerPool = [], pkCtxPool = [], w_registry = NewRegistry, w_session = NewSession 0 demo_client\<rparr>"

lemma demo_simps [simp]:
  "k_answers demo_client = []" "k_trace demo_client = []" "k_info demo_client = demo_client_info"
  "k_XUID demo_client = ''1''" "k_GameData demo_client = zero_game_data"
  "e_lib demo_env = demo_lib" "e_opts demo_env = DefaultOpts" "e_CurrentProtocol demo_env = 800"
  "w_session demo_world = NewSession 0 demo_client" "w_registry demo_world = NewRegistry"
  "headerPool demo_world = []" "pkCtxPool demo_world = []"
  by (simp_all add: demo_client_def demo_env_def demo_world_def)

subsection \<open>Closing\<close>

lemma session_close_effect:
  assumes "session_wf (w_session w)" "\<not> s_once (w_session w)" "k_answers (w_client w) = []"
    and "Session_CloseWithError E e w = (r, w')"
  shows "r = Ok () \<and> s_ctx (w_session w') \<noteq> None \<and> s_once (w_session w') \<and>
    k_trace (w_client w') = k_trace (w_client w) @
      [Sent (Disconnect (snd (ProcessDisconnection (s_processor (w_session w)) NewContext (Error e)))), Closed] \<and>
    k_XUID (w_client w') = k_XUID (w_client w) \<and>
    w_registry w' = RemoveSession (k_XUID (w_client w)) (w_registry w) \<and>
    (\<forall>i. s_serverConn (w_session w) = Some i \<longrightarrow> c_once (s_conns (w_session w') ! i))"
proof -
  let ?m = "snd (ProcessDisconnection (s_processor (w_session w)) NewContext (Error e))"
  let ?w3 = "upd_s (\<lambda>s. s\<lparr>s_once := True, s_notices := s_notices s @ [NotedDisconnection ?m],
    s_client := (s_client s)\<lparr>k_trace := k_trace (s_client s) @ [Sent (Disconnect ?m), Closed]\<rparr>\<rparr>) w"
  have w3: "close_client e (upd_s (\<lambda>s. s\<lparr>s_once := True\<rparr>) w) = ?w3"
    using assms(3) by (simp add: close_client_def upd_s_def upd_k_def k_Close_def k_call.simps Let_def)
  obtain r4 w4 where 4: "close_server E e ?w3 = (r4, w4)" by fastforce
  have w4: "r4 = Ok ()" "s_once (w_session w4)" "w_registry w4 = w_registry w" "w_client w4 = w_client ?w3"
    "\<forall>i. s_serverConn (w_session w) = Some i \<longrightarrow> c_once (s_conns (w_session w4) ! i)"
    using 4 assms(1)
    by (auto simp: close_server_def session_wf_def split: option.splits elim!: with_conn_close)
  with assms(2,4) have "r = Ok ()"
    "w' = (let w5 = upd_s (\<lambda>s. s\<lparr>s_ctx := (case s_ctx s of None \<Rightarrow> Some e | Some e \<Rightarrow> Some e)\<rparr>) w4
           in w5\<lparr>w_registry := RemoveSession (k_XUID (w_client w5)) (w_registry w5)\<rparr>)"
    by (auto simp: Session_CloseWithError_def w3 4 Let_def)
  then show ?thesis
    using w4 by (auto simp: Let_def split: option.split)
qed

text \<open>Closing never panics, whatever the state.\<close>

lemma Session_CloseWithError_returns: "fst (Session_CloseWithError E e w) \<noteq> Panic m"
proof -
  obtain r w1 where 1: "close_server E e (close_client e (upd_s (\<lambda>s. s\<lparr>s_once := True\<rparr>) w)) = (r, w1)" by fastforce
  then have "r = Ok ()"
    by (auto simp: close_server_def split: option.splits elim: with_conn_close)
  with 1 show ?thesis by (simp add: Session_CloseWithError_def Let_def)
qed

lemma Session_CloseWithError_twice [simp]: "s_once (w_session w) \<Longrightarrow> Session_CloseWithError E e w = (Ok (), w)"
  by (simp add: Session_CloseWithError_def)

section \<open>Properties\<close>

text \<open>
  C26. During a transfer the player is sent 81 distinct chunks: exactly the columns at most four
  away from the player's own in either direction, with the empty contents for the dimension. The
  loops over the 32-bit coordinates never wrap and always end, wherever the player stands.
\<close>

theorem level_chunks_cover:
  "\<exists>ps. level_chunks f gd = map (\<lambda>p. LevelChunk (gd_Dimension gd) p 1 (emptyChunk (gd_Dimension gd))) ps \<and>
    length ps = 81 \<and> distinct ps \<and>
    set ps = {(x, z). \<bar>sint x - sint (chunk_coord f (fst (gd_PlayerPosition gd)))\<bar> \<le> 4 \<and>
      \<bar>sint z - sint (chunk_coord f (snd (snd (gd_PlayerPosition gd))))\<bar> \<le> 4}"
  by (rule level_chunks_eq [of f gd]) blast

text \<open>
  C4. A transfer empties the player's screen: if the tracker covers what the old server has put
  there, then after \<^verbatim>\<open>sendGameData\<close> nothing of it is left (no entity, no effect on the player, no
  boss bar, no listed player, no scoreboard), and the tracker starts anew.
\<close>

theorem sendGameData_clears_screen:
  assumes "orders_ok (e_orders E)" "tracker_finite (s_tracker (w_session w))" "k_answers (w_client w) = []"
    and "V1 \<subseteq> entities (s_tracker (w_session w))" "V2 \<subseteq> effects (s_tracker (w_session w))"
      "V3 \<subseteq> bossBars (s_tracker (w_session w))" "V4 \<subseteq> players (s_tracker (w_session w))"
      "V5 \<subseteq> scoreboards (s_tracker (w_session w))"
  shows "\<exists>pks. k_trace (w_client (sendGameData E gd w)) = k_trace (w_client w) @ map Sent pks \<and>
    s_tracker (w_session (sendGameData E gd w)) = newTracker \<and>
    fold view_entities pks V1 = {} \<and>
    fold (view_effects (gd_EntityRuntimeID (k_GameData (w_client w)))) pks V2 = {} \<and>
    fold view_bossBars pks V3 = {} \<and> fold view_players pks V4 = {} \<and> fold view_scoreboards pks V5 = {}"
proof -
  let ?rid = "gd_EntityRuntimeID (k_GameData (w_client w))"
  let ?l = "level_chunks (e_int32 E) gd" and ?c = "clear_packets (e_orders E) ?rid (s_tracker (w_session w))"
  let ?s = "world_state_packets gd"
  note n = level_chunks_neutral [of _ "e_int32 E" gd] world_state_neutral [of _ gd]
  have views: "fold view_entities (?l @ ?c @ ?s) V1 = {}" "fold (view_effects ?rid) (?l @ ?c @ ?s) V2 = {}"
    "fold view_bossBars (?l @ ?c @ ?s) V3 = {}" "fold view_players (?l @ ?c @ ?s) V4 = {}"
    "fold view_scoreboards (?l @ ?c @ ?s) V5 = {}"
    using clear_packets_views [OF assms(1,2)] assms(4-)
    by (simp_all add: fold_view_neutral n)
  show ?thesis
    by (rule exI [of _ "?l @ ?c @ ?s"]) (use views in \<open>simp add: sendGameData_clean assms(3)\<close>)
qed

theorem sendGameData_clears_screen_witness:
  "\<exists>E pks. k_trace (w_client (sendGameData E zero_game_data
      (upd_s (\<lambda>s. s\<lparr>s_tracker := newTracker\<lparr>entities := {4, 5}, scoreboards := {''x''}\<rparr>\<rparr>) demo_world))) = map Sent pks \<and>
    fold view_entities pks {4, 5} = {} \<and> fold view_scoreboards pks {''x''} = {}"
proof -
  obtain ord where ord: "orders_ok ord" by (rule orders_exist)
  let ?w = "upd_s (\<lambda>s. s\<lparr>s_tracker := newTracker\<lparr>entities := {4, 5}, scoreboards := {''x''}\<rparr>\<rparr>) demo_world"
  have t: "s_tracker (w_session ?w) = newTracker\<lparr>entities := {4, 5}, scoreboards := {''x''}\<rparr>" by simp
  have c: "k_answers (w_client ?w) = []" "k_trace (w_client ?w) = []" by (simp_all add: NewSession_def)
  have "tracker_finite (s_tracker (w_session ?w))" unfolding t by (simp add: tracker_finite_def newTracker_def)
  from sendGameData_clears_screen [OF _ this c(1), of "demo_env\<lparr>e_orders := ord\<rparr>" "{4, 5}" "{}" "{}" "{}" "{''x''}"
      zero_game_data] ord
  obtain pks where "k_trace (w_client (sendGameData (demo_env\<lparr>e_orders := ord\<rparr>) zero_game_data ?w)) =
      k_trace (w_client ?w) @ map Sent pks" "fold view_entities pks {4, 5} = {}" "fold view_scoreboards pks {''x''} = {}"
    unfolding t by auto
  then show ?thesis unfolding c(2) append_Nil by blast
qed

text \<open>
  C22. The callback of a transfer reports exactly one outcome to the processor: success, and then the
  player is spawned on the new server and the fallback guard is released, or failure, and then the
  guard stays as it was.
\<close>

theorem transfer_reports_one_outcome:
  assumes "transfer_callback E cb err (w, c) = (Ok (), w', c')"
  shows "\<exists>n. s_notices (w_session w') = s_notices (w_session w) @ [n] \<and>
    (n = NotedPostTransfer (cb_origin cb) (cb_addr cb) \<and> err = None \<and> c_spawned c' \<and>
       \<not> s_inFallback (w_session w') \<or>
     n = NotedTransferFailure (cb_origin cb) (cb_addr cb) \<and>
       s_inFallback (w_session w') = s_inFallback (w_session w))"
proof (cases err)
  case None
  with assms transfer_callback_effect show ?thesis by blast
next
  case (Some e)
  with assms show ?thesis by auto
qed

theorem transfer_reports_one_outcome_witness:
  "\<exists>w' c'. transfer_callback demo_env \<lparr>cb_origin = ''a'', cb_addr = ''b''\<rparr> (Some EOF) (demo_world, demo_conn []) =
      (Ok (), w', c') \<and> s_notices (w_session w') = [NotedTransferFailure ''a'' ''b'']"
proof -
  have "transfer_callback demo_env \<lparr>cb_origin = ''a'', cb_addr = ''b''\<rparr> (Some EOF) (demo_world, demo_conn []) =
      (Ok (), notify_failure ''a'' ''b'' demo_world, demo_conn [])" by simp
  from transfer_reports_one_outcome [OF this] this show ?thesis by (simp add: NewSession_def)
qed

text \<open>
  C16. The first close of a session tells the player why and closes the connection, in this order and
  nothing after it, closes the connection to the server, cancels the session and takes it out of the
  registry; every later close, for whatever reason, changes nothing. It never panics.
\<close>

theorem session_closes_once:
  assumes "session_wf (w_session w)" "\<not> s_once (w_session w)" "k_answers (w_client w) = []"
    and "Session_CloseWithError E e w = (r, w')"
  shows "r = Ok () \<and> s_ctx (w_session w') \<noteq> None \<and>
    k_trace (w_client w') = k_trace (w_client w) @
      [Sent (Disconnect (snd (ProcessDisconnection (s_processor (w_session w)) NewContext (Error e)))), Closed] \<and>
    GetSession (k_XUID (w_client w)) (w_registry w') = None \<and>
    (\<forall>i. s_serverConn (w_session w) = Some i \<longrightarrow> c_once (s_conns (w_session w') ! i)) \<and>
    (\<forall>e'. Session_CloseWithError E e' w' = (Ok (), w'))"
proof -
  note eff = session_close_effect [OF assms]
  then have "s_once (w_session w')" by blast
  then have "Session_CloseWithError E e' w' = (Ok (), w')" for e' by (simp add: Session_CloseWithError_def)
  with eff show ?thesis by (simp add: RemoveSession_def GetSession_def)
qed

theorem session_closes_once_witness:
  "\<exists>w'. Session_CloseWithError demo_env (ErrorString ''bye'') demo_world = (Ok (), w') \<and>
    k_trace (w_client w') = [Sent (Disconnect ''bye''), Closed] \<and>
    Session_CloseWithError demo_env EOF w' = (Ok (), w')"
proof -
  obtain r w' where w': "Session_CloseWithError demo_env (ErrorString ''bye'') demo_world = (r, w')" by fastforce
  have pre: "session_wf (w_session demo_world)" "\<not> s_once (w_session demo_world)" "k_answers (w_client demo_world) = []"
    by (simp_all add: session_wf_def NewSession_def tracker_finite_def newTracker_def)
  from session_closes_once [OF pre w'] w' show ?thesis
    by (auto simp: NewSession_def NopProcessor_def)
qed

text \<open>
  C34. A transfer whose dial fails has already closed the connection it was to replace: the session
  keeps pointing to the old server, whose connection is closed, and the processor is told of the
  failure. (The reader of that connection will see an error and look for a fallback.)
\<close>

theorem failed_dial_closes_old_server:
  assumes "s_ctx (w_session w) = None" "s_serverConn (w_session w) = Some i" "i < length (s_conns (w_session w))"
    and "\<not> c_once (s_conns (w_session w) ! i)"
    and "e_dial E (length (s_dials (w_session w))) addr = Err e"
    and "session_dial E addr w = (r, w')"
  shows "r = Err e \<and> s_serverConn (w_session w') = Some i \<and> s_serverAddr (w_session w') = s_serverAddr (w_session w) \<and>
    c_closed (s_conns (w_session w') ! i) \<and> c_ctx (s_conns (w_session w') ! i) \<noteq> None"
proof -
  obtain r1 w1 where 1: "with_conn i (CloseWithError (transfer_callback E) (ErrorString ''closed by application'')) w = (r1, w1)"
    by fastforce
  then have c: "with_conn i (Conn_Close (transfer_callback E)) w = (r1, w1)"
    by (simp add: Conn_Close_def [abs_def])
  from 1 show ?thesis
    by (rule with_conn_close)
       (use assms c in \<open>auto simp: session_dial_def Let_def\<close>)
qed

theorem failed_dial_closes_old_server_witness:
  "\<exists>w'. session_dial demo_env ''down'' (snd (session_dial demo_env ''lobby'' demo_world)) = (Err (Extern ''refused''), w') \<and>
    s_serverAddr (w_session w') = ''lobby'' \<and> c_closed (s_conns (w_session w') ! 0)"
proof -
  let ?w = "snd (session_dial demo_env ''lobby'' demo_world)"
  have c: "s_ctx (w_session ?w) = None" "s_serverConn (w_session ?w) = Some 0" "0 < length (s_conns (w_session ?w))"
    "\<not> c_once (s_conns (w_session ?w) ! 0)" "s_serverAddr (w_session ?w) = ''lobby''"
    by (simp_all add: session_dial_def NewSession_def demo_env_def DefaultOpts_def Let_def NewConn_def expect_def)
  have d: "e_dial demo_env (length (s_dials (w_session ?w))) ''down'' = Err (Extern ''refused'')" by (simp add: demo_env_def)
  obtain r w' where "session_dial demo_env ''down'' ?w = (r, w')" by fastforce
  from failed_dial_closes_old_server [OF c(1-4) d this] this c(5) show ?thesis by simp
qed



end
