(* ===== verification/Handler.thy ===== *)
theory Handler
  imports Session
begin

text \<open>
  The three goroutines of a session (\<^verbatim>\<open>session/handler.go\<close>): from the server to the player, from the
  player to the server, and the latency reports. A turn of a loop is a function on the world; the
  turn of the server loop is split where it blocks, because other goroutines run while it waits.
  What a processor does to a packet it is handed, it does in place: the packet forwarded is the one
  in the context afterwards.
\<close>

section \<open>Definitions\<close>

subsection \<open>From the server to the player\<close>

text \<open>The call of \<^verbatim>\<open>ReadPacket\<close> on the connection at position \<open>i\<close>, with fuel for all its input.\<close>

definition server_read :: "env \<Rightarrow> bool \<Rightarrow> nat \<Rightarrow> world \<Rightarrow> any res \<times> world" where
  "server_read E pick i w =
     with_conn i (\<lambda>wc.
       case ReadPacket (transfer_callback E) (e_lib E) pick (Suc (length (s_data (c_reader (snd wc))))) wc of
         Some r \<Rightarrow> r
       | None \<Rightarrow> (Panic ''out of fuel'', wc)) w"

text \<open>
  One pass of that read; the recursion goes on, and other goroutines may run first, when there is no
  result yet.
\<close>

definition server_pass :: "env \<Rightarrow> bool \<Rightarrow> nat \<Rightarrow> world \<Rightarrow> any res option \<times> world" where
  "server_pass E pick i w =
     with_conn i (\<lambda>wc. case ReadPacket_pass (transfer_callback E) (e_lib E) pick wc of
                          Inl (r, wc1) \<Rightarrow> (Some r, wc1)
                        | Inr wc1 \<Rightarrow> (None, wc1)) w"

text \<open>How the loop treats the outcome of a close: only a panic matters.\<close>

definition leave_after :: "unit res \<times> world \<Rightarrow> turn \<times> world" where
  "leave_after rw = (case rw of (Panic m, w) \<Rightarrow> (Crash m, w) | (_, w) \<Rightarrow> (Leave, w))"

definition server_failed :: "env \<Rightarrow> nat \<Rightarrow> go_error \<Rightarrow> world \<Rightarrow> turn \<times> world" where
  "server_failed E i e w =
     (if s_serverConn (w_session w) \<noteq> Some i then (Continue, w)
      else
        (case with_conn i (CloseWithError (transfer_callback E) (Wrapf ''failed to read packet from server'' e)) w of
           (Panic m, w1) \<Rightarrow> (Crash m, w1)
         | (_, w1) \<Rightarrow>
             (case fallback E w1 of
                (Ok _, w2) \<Rightarrow> (Continue, w2)
              | (Err e', w2) \<Rightarrow> leave_after (Session_CloseWithError E (Wrapf ''fallback failed'' e') w2)
              | (Panic m, w2) \<Rightarrow> (Crash m, w2))))"

definition track :: "env \<Rightarrow> packet \<Rightarrow> world \<Rightarrow> world" where
  "track E pk w =
     upd_s (\<lambda>s. s\<lparr>s_tracker := fold tracker_handlePacket
       (if SyncProtocol (e_opts E) then proto_ConvertToLatest (k_Proto (s_client s)) pk else [pk]) (s_tracker s)\<rparr>) w"

text \<open>The end of a turn that wrote to the client.\<close>

definition after_write :: "env \<Rightarrow> string \<Rightarrow> go_error option \<times> mc_conn \<Rightarrow> world \<Rightarrow> turn \<times> world" where
  "after_write E msg rk w =
     (let w1 = upd_k (\<lambda>_. snd rk) w in
      case fst rk of
        None \<Rightarrow> (Continue, w1)
      | Some e \<Rightarrow> leave_after (Session_CloseWithError E (Wrapf msg e) w1))"

definition forward_packet :: "env \<Rightarrow> packet \<Rightarrow> world \<Rightarrow> turn \<times> world" where
  "forward_packet E pk w =
     (let (ctx0, pool) = NewPacketContext None (Some pk) (pkCtxPool w);
          w1 = w\<lparr>pkCtxPool := pool\<rparr>;
          ctx = ProcessServer (s_processor (w_session w1)) ctx0;
          pk' = (case pc_decoded ctx of Some p \<Rightarrow> p | None \<Rightarrow> pk)
      in if pc_canceled ctx then (Continue, w1)
         else (let w2 = track E pk' w1
               in after_write E ''failed to write packet to client'' (k_WritePacket pk' (w_client w2)) w2))"

definition forward_raw :: "env \<Rightarrow> bytes \<Rightarrow> world \<Rightarrow> turn \<times> world" where
  "forward_raw E b w =
     (let (ctx0, pool) = NewPacketContext (Some b) None (pkCtxPool w);
          w1 = w\<lparr>pkCtxPool := pool\<rparr>;
          ctx = ProcessServer (s_processor (w_session w1)) ctx0;
          b' = (case pc_raw ctx of Some x \<Rightarrow> x | None \<Rightarrow> b)
      in if pc_canceled ctx then (Continue, w1)
         else after_write E ''failed to write packet to client'' (k_Write b' (w_client w1)) w1)"

text \<open>What the loop does with the outcome of \<^verbatim>\<open>ReadPacket\<close> on the connection at position \<open>i\<close>.\<close>

definition server_handle :: "env \<Rightarrow> nat \<Rightarrow> any res \<Rightarrow> world \<Rightarrow> turn \<times> world" where
  "server_handle E i r w =
     (case r of
        Err e \<Rightarrow> server_failed E i e w
      | Panic m \<Rightarrow> (Crash m, w)
      | Ok (Raw b) \<Rightarrow> forward_raw E b w
      | Ok (Pk pk) \<Rightarrow>
          (case pk of
             Flush \<Rightarrow>
               (if Context_Cancelled (ProcessFlush (s_processor (w_session w)) NewContext) then (Continue, w)
                else after_write E ''failed to flush client's buffer'' (k_Flush (w_client w)) w)
           | Latency latency _ \<Rightarrow> (Continue, upd_s (\<lambda>s. s\<lparr>s_latency := latency\<rparr>) w)
           | Transfer addr \<Rightarrow>
               (case Session_Transfer E addr w of
                  (Panic m, w1) \<Rightarrow> (Crash m, w1)
                | (_, w1) \<Rightarrow> (Continue, w1))
           | UpdateCache cache \<Rightarrow> (Continue, SetCache cache w)
           | _ \<Rightarrow> forward_packet E pk w))"

text \<open>A whole turn, when nothing else runs while it waits.\<close>

definition server_turn :: "env \<Rightarrow> bool \<Rightarrow> world \<Rightarrow> turn \<times> world" where
  "server_turn E pick w =
     (case s_ctx (w_session w) of
        Some e \<Rightarrow> leave_after (Session_CloseWithError E e w)
      | None \<Rightarrow>
          (case s_serverConn (w_session w) of
             None \<Rightarrow> (Crash ''invalid memory address or nil pointer dereference'', w)
           | Some i \<Rightarrow> (let (r, w1) = server_read E pick i w in server_handle E i r w1)))"

subsection \<open>From the player to the server\<close>

text \<open>What the loop keeps: its header object, the pool of client packets and the shield.\<close>

record client_loop =
  l_header :: header
  l_pool :: "u32 \<rightharpoonup> packet"
  l_shieldID :: i32

text \<open>Here the loop over the items stops at the first shield.\<close>

definition first_shield :: "item_entry list \<Rightarrow> i32" where
  "first_shield items =
     (case List.find (\<lambda>it. it_Name it = ''minecraft:shield'') items of
        Some it \<Rightarrow> word_of_int (it_RuntimeID it)
      | None \<Rightarrow> 0)"

definition client_loop_init :: "world \<Rightarrow> client_loop" where
  "client_loop_init w =
     \<lparr>l_header = zero_header, l_pool = proto_Packets (k_Proto (w_client w)) True,
      l_shieldID = first_shield (gd_Items (k_GameData (w_client w)))\<rparr>"

text \<open>
  \<^verbatim>\<open>decodeAndCreateContext\<close>: \<open>Ok None\<close> for a packet that the upgrade dropped. The deferred recovery
  turns a panic of the decoder into an error.
\<close>

definition decodeAndCreateContext ::
  "env \<Rightarrow> client_loop \<Rightarrow> bytes \<Rightarrow> world \<Rightarrow> packet_context option res \<times> client_loop \<times> world" where
  "decodeAndCreateContext E l payload w =
     (let L = e_lib E;
          opt = e_opts E;
          proto = k_Proto (w_client w);
          make = (\<lambda>l1 decoded. (let (ctx, pool) = NewPacketContext (Some payload) decoded (pkCtxPool w)
                                in (Ok (Some ctx), l1, w\<lparr>pkCtxPool := pool\<rparr>)))
      in case mc_HeaderRead L (l_header l) payload of
           (Err e, h, _) \<Rightarrow> (Err (ErrorString ''failed to decode header''), l\<lparr>l_header := h\<rparr>, w)
         | (Panic m, h, _) \<Rightarrow> (Err (Recovered ''panic while decoding packet from client batch'' m), l\<lparr>l_header := h\<rparr>, w)
         | (Ok _, h, buf) \<Rightarrow>
             (let l1 = l\<lparr>l_header := h\<rparr> in
              case l_pool l (h_PacketID h) of
                None \<Rightarrow> (Err (Errorf1 ''unknown packet with id '' (uint (h_PacketID h))), l1, w)
              | Some pk \<Rightarrow>
                  (let latest = (proto_ID proto = e_CurrentProtocol E) in
                   if \<not> EnableAllClientDecode opt \<and> h_PacketID h \<notin> ClientDecode opt \<and> (SyncProtocol opt \<or> latest)
                   then make l1 None
                   else
                     (case Marshal L (proto_NewReader proto (l_shieldID l) True) pk buf of
                        (Err e, _) \<Rightarrow> (Err e, l1, w)
                      | (Panic m, _) \<Rightarrow> (Err (Recovered ''panic while decoding packet from client batch'' m), l1, w)
                      | (Ok pk', rest) \<Rightarrow>
                          (if rest \<noteq> [] then (Err (Errorf1 ''had an extra bytes '' (int (length rest))), l1, w)
                           else if \<not> SyncProtocol opt \<and> \<not> latest
                             then (case proto_ConvertToLatest proto pk' of
                                     [] \<Rightarrow> (Ok None, l1, w)
                                   | u # _ \<Rightarrow> make l1 (Some u))
                           else make l1 (Some pk'))))))"

text \<open>The first loop of \<^verbatim>\<open>handleClientBatch\<close>.\<close>

fun decode_batch ::
  "env \<Rightarrow> client_loop \<Rightarrow> bytes list \<Rightarrow> world \<Rightarrow> packet_context list res \<times> client_loop \<times> world" where
  "decode_batch E l [] w = (Ok [], l, w)"
| "decode_batch E l (p # ps) w =
     (case decodeAndCreateContext E l p w of
        (Err e, l1, w1) \<Rightarrow> (Err e, l1, w1)
      | (Panic m, l1, w1) \<Rightarrow> (Panic m, l1, w1)
      | (Ok c, l1, w1) \<Rightarrow>
          (case decode_batch E l1 ps w1 of
             (Ok cs, l2, w2) \<Rightarrow> (Ok (case c of None \<Rightarrow> cs | Some ctx \<Rightarrow> ctx # cs), l2, w2)
           | r \<Rightarrow> r))"

text \<open>The second loop: what goes on to the server, and what has to be encoded anew.\<close>

fun encode_batch ::
  "env \<Rightarrow> client_loop \<Rightarrow> packet_context list \<Rightarrow> world \<Rightarrow> bytes list res \<times> client_loop \<times> world" where
  "encode_batch E l [] w = (Ok [], l, w)"
| "encode_batch E l (ctx # cs) w =
     (let add = (\<lambda>b r. case r of (Ok bs, l2, w2) \<Rightarrow> (Ok (b # bs), l2, w2) | r \<Rightarrow> r)
      in if pc_canceled ctx
         then encode_batch E l cs (w\<lparr>pkCtxPool := ReturnPacketContext ctx (pkCtxPool w)\<rparr>)
         else if (pc_decoded ctx = None \<or> \<not> pc_modified ctx) \<and> proto_ID (k_Proto (w_client w)) = e_CurrentProtocol E
         then add (case pc_raw ctx of None \<Rightarrow> [] | Some b \<Rightarrow> b)
                (encode_batch E l cs (w\<lparr>pkCtxPool := ReturnPacketContext ctx (pkCtxPool w)\<rparr>))
         else
           (case pc_decoded ctx of
              None \<Rightarrow> (Panic ''invalid memory address or nil pointer dereference'', l, w)
            | Some pk \<Rightarrow>
                (let proto = (if SyncProtocol (e_opts E) then k_Proto (w_client w) else mc_DefaultProtocol (e_lib E));
                     l1 = l\<lparr>l_header := (l_header l)\<lparr>h_PacketID := pk_ID (e_lib E) pk\<rparr>\<rparr>
                 in case Marshal (e_lib E) (proto_NewWriter proto (l_shieldID l)) pk (mc_HeaderWrite (e_lib E) (l_header l1)) of
                      (Ok _, b) \<Rightarrow> add b (encode_batch E l1 cs w)
                    | (Err e, _) \<Rightarrow> (Err e, l1, w)
                    | (Panic m, _) \<Rightarrow> (Panic m, l1, w))))"

text \<open>\<^verbatim>\<open>handleClientBatch\<close> with its deferred recovery.\<close>

definition recover_batch :: "unit res \<times> client_loop \<times> world \<Rightarrow> unit res \<times> client_loop \<times> world" where
  "recover_batch r =
     (case r of (Panic m, lw) \<Rightarrow> (Err (Recovered ''panic while handling batch'' m), lw) | _ \<Rightarrow> r)"

definition handleClientBatch ::
  "env \<Rightarrow> client_loop \<Rightarrow> bytes list \<Rightarrow> world \<Rightarrow> unit res \<times> client_loop \<times> world" where
  "handleClientBatch E l payloads w =
     recover_batch
       (case decode_batch E l payloads w of
          (Err e, l1, w1) \<Rightarrow> (Err e, l1, w1)
        | (Panic m, l1, w1) \<Rightarrow> (Panic m, l1, w1)
        | (Ok cs, l1, w1) \<Rightarrow>
            (case encode_batch E l1 (ProcessClient (s_processor (w_session w1)) cs) w1 of
               (Err e, l2, w2) \<Rightarrow> (Err e, l2, w2)
             | (Panic m, l2, w2) \<Rightarrow> (Panic m, l2, w2)
             | (Ok bs, l2, w2) \<Rightarrow>
                 (case s_serverConn (w_session w2) of
                    None \<Rightarrow> (Panic ''invalid memory address or nil pointer dereference'', l2, w2)
                  | Some i \<Rightarrow>
                      (let (r, w3) = with_conn i (\<lambda>(g, c). let (r, c1) = WriteBatch (e_lib E) bs c in (r, g, c1)) w2
                       in (r, l2, w3)))))"

definition client_turn :: "env \<Rightarrow> client_loop \<Rightarrow> world \<Rightarrow> turn \<times> client_loop \<times> world" where
  "client_turn E l w =
     (case s_ctx (w_session w) of
        Some e \<Rightarrow> (let (t, w1) = leave_after (Session_CloseWithError E e w) in (t, l, w1))
      | None \<Rightarrow>
          (let (r, k) = k_ReadBatchBytes (w_client w); w1 = upd_k (\<lambda>_. k) w in
           case r of
             Err e \<Rightarrow>
               (let (t, w2) = leave_after (Session_CloseWithError E (Wrapf ''failed to read packet from client'' e) w1)
                in (t, l, w2))
           | Panic m \<Rightarrow> (Crash m, l, w1)
           | Ok payloads \<Rightarrow>
               (case handleClientBatch E l payloads w1 of
                  (Ok _, l2, w2) \<Rightarrow> (Continue, l2, w2)
                | (Panic m, l2, w2) \<Rightarrow> (Crash m, l2, w2)
                | (Err e, l2, w2) \<Rightarrow>
                    (case s_serverConn (w_session w2) of
                       None \<Rightarrow> (Crash ''invalid memory address or nil pointer dereference'', l2, w2)
                     | Some i \<Rightarrow>
                         (let (t, w3) = leave_after (with_conn i (CloseWithError (transfer_callback E)
                                          (Wrapf ''failed to write packet to server'' e)) w2)
                          in (t, l2, w3))))))"

subsection \<open>Latency reports\<close>

text \<open>
  \<^verbatim>\<open>time.NewTicker\<close> panics on a duration that is not positive; milliseconds are multiplied in 64 bits.
  A tick carries the time of the report; \<open>None\<close> is the session's context being done.
\<close>

definition latency_start :: "i64 \<Rightarrow> unit res" where
  "latency_start interval =
     (if sint (1000000 * interval) \<le> 0 then Panic ''non-positive interval for NewTicker'' else Ok ())"

definition latency_turn :: "env \<Rightarrow> i64 option \<Rightarrow> world \<Rightarrow> turn \<times> world" where
  "latency_turn E tick w =
     (case tick of
        None \<Rightarrow>
          (case s_ctx (w_session w) of
             Some e \<Rightarrow> leave_after (Session_CloseWithError E e w)
           | None \<Rightarrow> (Continue, w))
      | Some now \<Rightarrow>
          (case s_serverConn (w_session w) of
             None \<Rightarrow> (Crash ''invalid memory address or nil pointer dereference'', w)
           | Some i \<Rightarrow>
               (case with_conn i (WritePacket (e_lib E) (Latency (k_Latency (w_client w) * 2) now)) w of
                  (Panic m, w1) \<Rightarrow> (Crash m, w1)
                | (_, w1) \<Rightarrow> (Continue, w1))))"

subsection \<open>Logging of errors\<close>

text \<open>The result of \<^verbatim>\<open>logError\<close> is what it logs.\<close>

definition logError :: "session \<Rightarrow> string \<Rightarrow> go_error \<Rightarrow> (string \<times> go_error) option" where
  "logError s msg err =
     (case s_ctx s of
        Some _ \<Rightarrow> None
      | None \<Rightarrow> if errors_Is err Canceled then None else Some (msg, err))"

subsection \<open>Specification\<close>

text \<open>
  A session in use: the turns of its goroutines and the calls of the application, interleaved. The
  answers of the network (\<open>net\<close>), which include the expiry of a deadline, may differ from step to step.
\<close>

inductive session_run :: "env \<Rightarrow> world \<Rightarrow> world \<Rightarrow> bool" for E w0 where
  start: "session_run E w0 w0"
| login: "session_run E w0 w \<Longrightarrow> session_run E w0 (snd (login_start (E\<lparr>e_dial := net\<rparr>) w))"
| finish: "session_run E w0 w \<Longrightarrow> i < length (s_conns (w_session w)) \<Longrightarrow>
    waited \<in> set (WaitConnect deadline (s_conns (w_session w) ! i)) \<Longrightarrow>
    session_run E w0 (snd (login_spawn E i waited w))"
| registered: "session_run E w0 w \<Longrightarrow> session_run E w0 (login_register w)"
| read: "session_run E w0 w \<Longrightarrow> i < length (s_conns (w_session w)) \<Longrightarrow> session_run E w0 (snd (server_read E pick i w))"
| pass: "session_run E w0 w \<Longrightarrow> i < length (s_conns (w_session w)) \<Longrightarrow> session_run E w0 (snd (server_pass E pick i w))"
| handle: "session_run E w0 w \<Longrightarrow> i < length (s_conns (w_session w)) \<Longrightarrow> session_run E w0 (snd (server_handle (E\<lparr>e_dial := net\<rparr>) i r w))"
| client: "session_run E w0 w \<Longrightarrow> session_run E w0 (snd (snd (client_turn E l w)))"
| latency: "session_run E w0 w \<Longrightarrow> session_run E w0 (snd (latency_turn E tick w))"
| transfer: "session_run E w0 w \<Longrightarrow> session_run E w0 (snd (transfer_start (E\<lparr>e_dial := net\<rparr>) addr w))"
| register: "session_run E w0 w \<Longrightarrow> i < length (s_conns (w_session w)) \<Longrightarrow> session_run E w0 (transfer_register (i, cb) w)"
| close: "session_run E w0 w \<Longrightarrow> session_run E w0 (snd (Session_CloseWithError E e w))"
| gone: "session_run E w0 w \<Longrightarrow> session_run E w0 (client_gone e w)"
| animation: "session_run E w0 w \<Longrightarrow> session_run E w0 (SetAnimation a w)"
| processor: "session_run E w0 w \<Longrightarrow> session_run E w0 (SetProcessor p w)"
| cache: "session_run E w0 w \<Longrightarrow> session_run E w0 (SetCache b w)"

text \<open>A client packet that the proxy knows, whatever is left in the header object.\<close>

definition known_packet :: "mclib \<Rightarrow> (u32 \<rightharpoonup> packet) \<Rightarrow> bytes \<Rightarrow> bool" where
  "known_packet L pool payload \<longleftrightarrow>
     (\<forall>h0. \<exists>h buf. mc_HeaderRead L h0 payload = (Ok (), h, buf) \<and> pool (h_PacketID h) \<noteq> None)"

text \<open>What a server sends that is not addressed to the proxy itself, and the event that forwards it.\<close>

fun for_player :: "any \<Rightarrow> bool" where
  "for_player (Raw _) = True"
| "for_player (Pk pk) = (case pk of Flush \<Rightarrow> False | Latency _ _ \<Rightarrow> False | Transfer _ \<Rightarrow> False
     | UpdateCache _ \<Rightarrow> False | _ \<Rightarrow> True)"

fun forwarded :: "any \<Rightarrow> client_event" where
  "forwarded (Raw b) = SentRaw b"
| "forwarded (Pk pk) = Sent pk"

fun server_turns :: "env \<Rightarrow> bool \<Rightarrow> nat \<Rightarrow> world \<Rightarrow> turn \<times> world" where
  "server_turns E pick 0 w = (Continue, w)"
| "server_turns E pick (Suc n) w =
     (case server_turn E pick w of (Continue, w1) \<Rightarrow> server_turns E pick n w1 | r \<Rightarrow> r)"

text \<open>Of the connections a session has dialled, only the current one may still be open.\<close>

definition one_open :: "session \<Rightarrow> bool" where
  "one_open s \<longleftrightarrow> session_wf s \<and>
     (\<forall>j < length (s_conns s). s_serverConn s \<noteq> Some j \<longrightarrow> c_once (s_conns s ! j))"

text \<open>What a call on one connection may do to the rest of the session.\<close>

definition keeps :: "world \<Rightarrow> world \<Rightarrow> bool" where
  "keeps w w' \<longleftrightarrow>
     s_conns (w_session w') = s_conns (w_session w) \<and> s_serverConn (w_session w') = s_serverConn (w_session w) \<and>
     s_ctx (w_session w') = s_ctx (w_session w) \<and> s_processor (w_session w') = s_processor (w_session w) \<and>
     (tracker_finite (s_tracker (w_session w)) \<longrightarrow> tracker_finite (s_tracker (w_session w')))"

section \<open>Lemmas\<close>

subsection \<open>Calls on a connection\<close>

lemma keeps_refl [simp]: "keeps w w"
  by (simp add: keeps_def)

lemma keeps_trans: "keeps a b \<Longrightarrow> keeps b c \<Longrightarrow> keeps a c"
  by (auto simp: keeps_def)

lemma keeps_headerPool [simp]: "keeps w (w\<lparr>headerPool := hs\<rparr>)"
  by (simp add: keeps_def)

lemma keeps_notify [simp]: "keeps w (notify_failure x a w)" "keeps w (notify_post x a w)"
  by (simp_all add: keeps_def notify_failure_def notify_post_def)

lemma keeps_sendGameData [simp]: "keeps w (sendGameData E gd w)"
proof -
  have "fst (clear_all (e_orders E) tk) = newTracker" for tk
    using clear_all_tracker [of "e_orders E" "fst tk" "snd tk"] by simp
  moreover have "tracker_finite newTracker" by (simp add: tracker_finite_def newTracker_def)
  ultimately show ?thesis by (simp add: keeps_def sendGameData_def Let_def case_prod_beta)
qed

lemma transfer_callback_keeps:
  assumes "transfer_callback E cb e (w, c) = (r, w', c')"
  shows "keeps w w'"
proof (cases e)
  case None
  let ?p = "Play (s_animation (w_session w)) (c_gameData c) (w_client w)"
  let ?w1 = "upd_s (\<lambda>s. s\<lparr>s_animation := fst ?p, s_client := snd ?p\<rparr>) w"
  let ?w2 = "sendGameData E (c_gameData c) ?w1"
  have "keeps w ?w1" by (simp add: keeps_def)
  then have w2: "keeps w ?w2" using keeps_sendGameData keeps_trans by blast
  obtain r3 w3 c3 where 3: "DoSpawn (e_lib E) (?w2, c) = (r3, w3, c3)" by (metis prod.exhaust)
  with DoSpawn_world [OF 3] have w3: "keeps ?w2 w3" by auto
  have "keeps w3 w'"
    using assms None 3
    by (cases r3) (auto simp: transfer_callback_def Let_def case_prod_beta keeps_def notify_post_def notify_failure_def)
  with w2 w3 show ?thesis by (blast intro: keeps_trans)
next
  case (Some x)
  with assms show ?thesis by auto
qed

text \<open>The contract of a call on one connection: it keeps the rest, and never reopens anything.\<close>

locale conn_call =
  fixes f :: "world \<times> callback conn \<Rightarrow> 'a \<times> world \<times> callback conn"
  assumes f_keeps: "f (w, c) = (r, w', c') \<Longrightarrow> keeps w w'"
    and f_once: "f (w, c) = (r, w', c') \<Longrightarrow> c_once c \<Longrightarrow> c_once c'"
begin

lemma with_conn_one_open:
  assumes "one_open (w_session w)" "i < length (s_conns (w_session w))"
  shows "one_open (w_session (snd (with_conn i f w))) \<and>
    length (s_conns (w_session (snd (with_conn i f w)))) = length (s_conns (w_session w)) \<and>
    s_serverConn (w_session (snd (with_conn i f w))) = s_serverConn (w_session w) \<and>
    s_ctx (w_session (snd (with_conn i f w))) = s_ctx (w_session w) \<and>
    s_processor (w_session (snd (with_conn i f w))) = s_processor (w_session w)"
proof -
  obtain r w' c' where f: "f (w, s_conns (w_session w) ! i) = (r, w', c')" by (metis prod.exhaust)
  from f_keeps [OF f] f_once [OF f] assms show ?thesis
    by (auto simp: with_conn_def f one_open_def session_wf_def keeps_def nth_list_update split: option.splits)
qed

end

lemma WritePacket_keeps:
  "WritePacket L pk (w, c) = (r, w', c') \<Longrightarrow> keeps w w' \<and> c_once c' = c_once c"
  using WritePacket_world [of L pk w c r w' c'] WritePacket_frame [of L pk w c r w' c'] by auto

lemma read_world:
  fixes w :: world
  assumes "read L (w, c) = (r, w', c')"
  shows "\<exists>hs. w' = w\<lparr>headerPool := hs\<rparr>"
proof -
  have same: "\<exists>hs. w = w\<lparr>headerPool := hs\<rparr>" by (rule exI [of _ "headerPool w"]) simp
  have "\<exists>hs. w' = w\<lparr>headerPool := hs\<rparr>" if "decode_server_packet L b (w, d) = (r, w', c')" for b d
    using that
    by (auto simp: decode_server_packet_def headerPool_Get_def headerPool_Put_def Let_def
        split: prod.splits res.splits option.splits list.splits)
  with same assms show ?thesis
    by (auto simp: read_def Let_def split: prod.splits res.splits list.splits if_splits)
qed

lemma read_keeps:
  assumes "read L (w, c) = (r, w', c')"
  shows "keeps w w' \<and> c_once c' = c_once c"
  using read_world [OF assms] read_frame [OF assms] by auto

lemma transfer_callback_once:
  "transfer_callback E cb e (w, c) = (r, w', c') \<Longrightarrow> keeps w w' \<and> c_once c' = c_once c"
  using transfer_callback_keeps transfer_callback_frame spawn_frameD(13) by blast

lemma handle_expected_keeps:
  assumes "handle_expected (transfer_callback E) L pk (w, c) = (r, w', c')"
  shows "keeps w w' \<and> c_once c' = c_once c"
proof (cases rule: packet_kind_cases [of pk])
  case (5 st)
  with assms show ?thesis
    by (auto simp: handle_expected_def handlePlayStatus_def conn_upd_defs Let_def
        split: if_splits prod.splits res.splits option.splits
        dest!: transfer_callback_once)
next
  case 6
  with assms show ?thesis by (simp add: handle_expected_other) (auto simp: deferPacket_def)
qed (use assms in \<open>auto simp: handle_expected_def handleConnectionResponse_def handleStartGame_def
      handleItemRegistry_def handleChunkRadiusUpdated_def conn_upd_defs Let_def
      split: if_splits prod.splits res.splits dest!: WritePacket_keeps\<close>)

lemma handle_all_keeps:
  "handle_all (transfer_callback E) L pks (w, c) = (r, w', c') \<Longrightarrow> keeps w w' \<and> c_once c' = c_once c"
proof (induction pks arbitrary: w c)
  case (Cons pk pks)
  obtain r1 w1 c1 where 1: "handle_expected (transfer_callback E) L pk (w, c) = (r1, w1, c1)" by (metis prod.exhaust)
  from handle_expected_keeps [OF 1] Cons.prems 1 Cons.IH [of w1 c1] show ?case
    by (cases r1) (auto intro: keeps_trans)
qed simp

lemma pass_keeps:
  assumes "ReadPacket_pass (transfer_callback E) L pick (w, c) = Inl (r, w', c') \<or>
    ReadPacket_pass (transfer_callback E) L pick (w, c) = Inr (w', c')"
  shows "keeps w w' \<and> c_once c' = c_once c"
proof -
  obtain r1 w1 c1 where 1: "read L (w, c) = (r1, w1, c1)" by (metis prod.exhaust)
  note k1 = read_keeps [OF 1]
  show ?thesis
  proof (cases "\<not> c_spawned c \<and> c_ctx c = None \<and> (\<exists>pk. r1 = Ok (Pk pk))")
    case True
    then obtain pk where pk: "r1 = Ok (Pk pk)" by blast
    obtain r2 w2 c2 where 2: "handlePacket (transfer_callback E) L pk (w1, c1) = (r2, w2, c2)" by (metis prod.exhaust)
    then have "keeps w1 w2 \<and> c_once c2 = c_once c1" unfolding handlePacket_def using handle_all_keeps by blast
    with assms True 1 2 pk k1 show ?thesis
      by (cases r2) (auto simp: ReadPacket_pass_def intro: keeps_trans)
  next
    case False
    with assms 1 k1 show ?thesis
      by (auto simp: ReadPacket_pass_def deferPacket_def split: if_splits list.splits any.splits res.splits)
  qed
qed

lemma ReadPacket_keeps:
  assumes "ReadPacket (transfer_callback E) L pick fuel (w, c) = Some (r, w', c')"
  shows "keeps w w' \<and> c_once c' = c_once c"
proof -
  let ?R = "\<lambda>gc gc'. keeps (fst gc) (fst gc') \<and> c_once (snd gc') = c_once (snd gc)"
  have "?R (w, c) (w', c')"
    by (rule ReadPacket_passes [where R = ?R, OF assms]) (auto dest: pass_keeps [OF disjI1] pass_keeps [OF disjI2] intro: keeps_trans)
  then show ?thesis by simp
qed


interpretation write_call: conn_call "WritePacket L pk" for L pk
  by unfold_locales (auto dest: WritePacket_keeps)

interpretation connect_call: conn_call "DoConnect L" for L
  by unfold_locales
     (auto simp: DoConnect_def split: option.splits res.splits dest: WritePacket_keeps)

interpretation spawn_call: conn_call "DoSpawn L" for L
  by unfold_locales (auto dest: DoSpawn_world DoSpawn_frame spawn_frameD(13))

interpretation close_call: conn_call "CloseWithError (transfer_callback E) e" for E e
  by unfold_locales (auto dest: CloseWithError_world split: if_splits option.splits)

interpretation register_call: conn_call "\<lambda>(w, c). ((), w, OnConnect cb c)" for cb
  by unfold_locales (auto simp: OnConnect_def)

interpretation batch_call: conn_call "\<lambda>(w, c). let (r, c1) = WriteBatch L bs c in (r, w, c1)" for L bs
  by unfold_locales
     (auto simp: WriteBatch_def split: option.splits prod.splits if_splits dest: write_compressing_frame)

interpretation read_call: conn_call "\<lambda>wc. case ReadPacket (transfer_callback E) L pick (Suc (length (s_data (c_reader (snd wc))))) wc of
    Some r \<Rightarrow> r | None \<Rightarrow> (Panic ''out of fuel'', wc)" for E L pick
  by unfold_locales (auto split: option.splits dest: ReadPacket_keeps simp del: ReadPacket_Suc)

interpretation pass_call: conn_call "\<lambda>wc. case ReadPacket_pass (transfer_callback E) L pick wc of
    Inl (r, wc1) \<Rightarrow> (Some r, wc1) | Inr wc1 \<Rightarrow> (None, wc1)" for E L pick
  by unfold_locales (auto split: sum.splits dest: pass_keeps [OF disjI1] pass_keeps [OF disjI2])

subsection \<open>Every operation keeps at most one connection open\<close>

lemma keeps_one_open: "keeps w w' \<Longrightarrow> one_open (w_session w) \<Longrightarrow> one_open (w_session w')"
  by (simp add: keeps_def one_open_def session_wf_def split: option.splits)

lemma one_open_upd_k [simp]: "one_open (s\<lparr>s_client := k\<rparr>) = one_open s"
  by (simp add: one_open_def session_wf_def split: option.split)

lemma one_open_upds [simp]:
  "one_open (s\<lparr>s_notices := ns\<rparr>) = one_open s" "one_open (s\<lparr>s_ctx := e\<rparr>) = one_open s"
  "one_open (s\<lparr>s_once := b\<rparr>) = one_open s" "one_open (s\<lparr>s_dials := ds\<rparr>) = one_open s"
  "one_open (s\<lparr>s_inFallback := b\<rparr>) = one_open s" "one_open (s\<lparr>s_latency := l\<rparr>) = one_open s"
  "one_open (s\<lparr>s_cache := bs\<rparr>) = one_open s" "one_open (s\<lparr>s_animation := an\<rparr>) = one_open s"
  "one_open (s\<lparr>s_processor := pr\<rparr>) = one_open s"
  by (simp_all add: one_open_def session_wf_def split: option.split)

lemma one_open_notify [simp]:
  "one_open (w_session (notify_failure x a w)) = one_open (w_session w)"
  "one_open (w_session (notify_post x a w)) = one_open (w_session w)"
  by (simp_all add: notify_failure_def notify_post_def)

lemma one_open_current:
  "one_open s \<Longrightarrow> s_serverConn s = Some i \<Longrightarrow> i < length (s_conns s)"
  by (simp add: one_open_def session_wf_def)

lemma close_current:
  assumes "one_open (w_session w)" "s_serverConn (w_session w) = Some i"
    "with_conn i (CloseWithError (transfer_callback E) e) w = (r, w')"
  shows "one_open (w_session w') \<and> (\<forall>j < length (s_conns (w_session w')). c_once (s_conns (w_session w') ! j)) \<and>
    s_serverConn (w_session w') = Some i \<and> length (s_conns (w_session w')) = length (s_conns (w_session w)) \<and> r = Ok ()"
proof -
  have i: "i < length (s_conns (w_session w))" using assms(1,2) by (rule one_open_current)
  from close_call.with_conn_one_open [OF assms(1) i, of E e] assms(3) have
    open': "one_open (w_session w')" "length (s_conns (w_session w')) = length (s_conns (w_session w))"
      "s_serverConn (w_session w') = s_serverConn (w_session w)" by simp_all
  moreover have "c_once (s_conns (w_session w') ! i) \<and> r = Ok ()"
    using assms(3) by (rule with_conn_close) (use i in auto)
  moreover from open' assms(2) have "c_once (s_conns (w_session w') ! j)"
    if "j < length (s_conns (w_session w'))" "j \<noteq> i" for j using that by (simp add: one_open_def)
  ultimately show ?thesis using assms(2) by metis
qed

lemma session_dial_one_open:
  assumes "one_open (w_session w)" "session_dial E addr w = (r, w')"
  shows "one_open (w_session w') \<and> (\<forall>i. r = Ok i \<longrightarrow> i < length (s_conns (w_session w')))"
proof (cases "s_ctx (w_session w)")
  case (Some e)
  with assms show ?thesis by (auto simp: session_dial_def)
next
  case None
  obtain r1 w1 where 1: "(case s_serverConn (w_session w) of None \<Rightarrow> (Ok (), w)
      | Some i \<Rightarrow> with_conn i (Conn_Close (transfer_callback E)) w) = (r1, w1)" by fastforce
  have w1: "one_open (w_session w1)" "\<forall>j < length (s_conns (w_session w1)). c_once (s_conns (w_session w1) ! j)" "r1 = Ok ()"
  proof (atomize (full), cases "s_serverConn (w_session w)")
    case None
    with 1 assms(1) show "one_open (w_session w1) \<and> (\<forall>j < length (s_conns (w_session w1)). c_once (s_conns (w_session w1) ! j)) \<and> r1 = Ok ()"
      by (auto simp: one_open_def)
  next
    case (Some i)
    with 1 close_current [OF assms(1) Some, of E "ErrorString ''closed by application''" r1 w1]
    show "one_open (w_session w1) \<and> (\<forall>j < length (s_conns (w_session w1)). c_once (s_conns (w_session w1) ! j)) \<and> r1 = Ok ()"
      by (simp add: Conn_Close_def [abs_def])
  qed
  have "session_dial E addr w = (let w2 = upd_s (\<lambda>s. s\<lparr>s_dials := s_dials s @ [addr]\<rparr>) w1
      in case e_dial E (length (s_dials (w_session w1))) addr of Err e \<Rightarrow> (Err e, w2) | Panic m \<Rightarrow> (Panic m, w2)
        | Ok io \<Rightarrow> (Ok (length (s_conns (w_session w2))), upd_s (\<lambda>s. s\<lparr>s_conns := s_conns s @
            [NewConn (e_lib E) io (k_info (w_client w2)) (SyncProtocol (e_opts E)) (s_cache (w_session w2))],
            s_serverAddr := addr, s_serverConn := Some (length (s_conns (w_session w2)))\<rparr>) w2))"
    using None 1 w1(3) by (cases "s_serverConn (w_session w)"; cases "e_dial E (length (s_dials (w_session w1))) addr")
      (simp_all add: session_dial_def Let_def)
  with w1 assms(2) show ?thesis
    by (auto simp: Let_def one_open_def session_wf_def nth_append split: res.splits option.splits)
qed

lemma transfer_start_one_open:
  assumes "one_open (w_session w)" "transfer_start E addr w = (r, w')"
  shows "one_open (w_session w') \<and> (\<forall>i cb. r = Ok (i, cb) \<longrightarrow> i < length (s_conns (w_session w')))"
proof -
  obtain ctx origin target where p: "ProcessPreTransfer (s_processor (w_session w)) NewContext
      (s_serverAddr (w_session w)) addr = (ctx, origin, target)" by (metis prod.exhaust)
  let ?w1 = "upd_s (\<lambda>s. s\<lparr>s_notices := s_notices s @ [NotedPreTransfer (s_serverAddr (w_session w)) addr]\<rparr>) w"
  obtain r2 w2 where 2: "session_dial E target (upd_k (sendMetadata True) ?w1) = (r2, w2)" by fastforce
  have w2: "one_open (w_session w2)" "\<forall>i. r2 = Ok i \<longrightarrow> i < length (s_conns (w_session w2))"
    using session_dial_one_open [OF _ 2] assms(1) by simp_all
  show ?thesis
  proof (cases r2)
    case (Ok i)
    obtain r3 w3 where 3: "with_conn i (DoConnect (e_lib E)) w2 = (r3, w3)" by fastforce
    with connect_call.with_conn_one_open [OF w2(1), of i "e_lib E"] w2(2) Ok
    have "one_open (w_session w3)" "i < length (s_conns (w_session w3))" by simp_all
    with assms p 2 3 Ok show ?thesis
      by (cases r3) (auto simp: transfer_start_def Let_def split: if_splits)
  qed (use assms p 2 w2 in \<open>auto simp: transfer_start_def Let_def split: if_splits\<close>)
qed

lemma transfer_register_one_open:
  assumes "one_open (w_session w)" "i < length (s_conns (w_session w))"
  shows "one_open (w_session (transfer_register (i, cb) w))"
  using register_call.with_conn_one_open [OF assms, of cb] by (simp add: transfer_register_def)

lemma TransferContext_one_open:
  assumes "one_open (w_session w)"
  shows "one_open (w_session (snd (TransferContext E addr w)))"
proof -
  obtain r w1 where 1: "transfer_start E addr w = (r, w1)" by fastforce
  from transfer_start_one_open [OF assms 1] 1 transfer_register_one_open [of w1] show ?thesis
    by (cases r) (auto simp: TransferContext_def)
qed

lemma fallback_one_open:
  assumes "one_open (w_session w)"
  shows "one_open (w_session (snd (fallback E w)))"
proof -
  have "one_open (w_session (snd (Session_Transfer E addr (upd_s (\<lambda>s. s\<lparr>s_inFallback := True\<rparr>) w))))" for addr
    using TransferContext_one_open assms by (simp add: Session_Transfer_def)
  with assms show ?thesis
    by (auto simp: fallback_def Let_def split: option.split res.split prod.splits) (metis snd_conv)+
qed

lemma Session_CloseWithError_one_open:
  assumes "one_open (w_session w)"
  shows "one_open (w_session (snd (Session_CloseWithError E e w)))"
proof -
  let ?w = "close_client e (upd_s (\<lambda>s. s\<lparr>s_once := True\<rparr>) w)"
  have w: "one_open (w_session ?w)" using assms by (simp add: close_client_def Let_def)
  obtain r w1 where 1: "close_server E e ?w = (r, w1)" by fastforce
  have "one_open (w_session w1)"
  proof (cases "s_serverConn (w_session ?w)")
    case None
    with 1 w show ?thesis by (simp add: close_server_def)
  next
    case (Some i)
    with 1 close_current [OF w Some, of E e r w1] show ?thesis by (simp add: close_server_def)
  qed
  with assms 1 show ?thesis
    by (cases r) (simp_all add: Session_CloseWithError_def Let_def)
qed

lemma leave_after_snd: "snd (leave_after rw) = snd rw"
  by (auto simp: leave_after_def split: prod.split res.split)

lemma after_write_one_open:
  "one_open (w_session w) \<Longrightarrow> one_open (w_session (snd (after_write E msg rk w)))"
  by (simp add: after_write_def Let_def leave_after_snd Session_CloseWithError_one_open split: option.split)

lemma server_failed_one_open:
  assumes "one_open (w_session w)" "i < length (s_conns (w_session w))"
  shows "one_open (w_session (snd (server_failed E i e w)))"
proof -
  let ?e = "Wrapf ''failed to read packet from server'' e"
  obtain r w1 where 1: "with_conn i (CloseWithError (transfer_callback E) ?e) w = (r, w1)" by fastforce
  with close_call.with_conn_one_open [OF assms, of E ?e] have w1: "one_open (w_session w1)" by simp
  obtain r2 w2 where 2: "fallback E w1 = (r2, w2)" by fastforce
  with fallback_one_open [OF w1, of E] have "one_open (w_session w2)" by simp
  with assms(1) w1 1 2 show ?thesis
    by (cases r; cases r2) (simp_all add: server_failed_def leave_after_snd Session_CloseWithError_one_open)
qed

lemma track_one_open: "one_open (w_session w) \<Longrightarrow> one_open (w_session (track E pk w))"
proof -
  have "tracker_finite t \<Longrightarrow> tracker_finite (fold tracker_handlePacket pks t)" for pks t
    by (induction pks arbitrary: t) (simp_all add: tracker_handlePacket_finite)
  then show "one_open (w_session w) \<Longrightarrow> one_open (w_session (track E pk w))"
    by (simp add: track_def one_open_def session_wf_def split: option.splits)
qed

lemma forward_one_open:
  assumes "one_open (w_session w)"
  shows "one_open (w_session (snd (forward_packet E pk w)))" "one_open (w_session (snd (forward_raw E b w)))"
  using assms
  by (simp_all add: forward_packet_def forward_raw_def Let_def case_prod_beta after_write_one_open track_one_open)

lemma server_handle_one_open:
  assumes "one_open (w_session w)" "i < length (s_conns (w_session w))"
  shows "one_open (w_session (snd (server_handle E i r w)))"
proof (cases r)
  case (Ok x)
  have t: "one_open (w_session w1)" if "Session_Transfer E addr w = (r1, w1)" for addr r1 w1
    using TransferContext_one_open [OF assms(1), of "with_timeout minute E" addr] that by (simp add: Session_Transfer_def)
  have c: "one_open (w_session (SetCache b w))" for b
    using assms(1) by (simp add: SetCache_def Let_def case_prod_beta)
  show ?thesis
  proof (cases x)
    case (Pk pk)
    with Ok assms t c show ?thesis
      by (auto simp: server_handle_def forward_one_open after_write_one_open split: packet.split prod.split res.split)
  qed (use Ok assms in \<open>simp add: server_handle_def forward_one_open\<close>)
qed (use assms in \<open>simp_all add: server_handle_def server_failed_one_open\<close>)

text \<open>Neither loop over a batch changes more of the world than the pool of contexts.\<close>

lemma same_pool: "\<exists>q. w = w\<lparr>pkCtxPool := q\<rparr>" for w :: world
  by (rule exI [of _ "pkCtxPool w"]) simp

lemma decode_pool: "decodeAndCreateContext E l p w = (r, l', w') \<Longrightarrow> \<exists>q. w' = w\<lparr>pkCtxPool := q\<rparr>"
  using same_pool [of w]
  by (auto simp: decodeAndCreateContext_def Let_def case_prod_beta
      split: prod.splits res.splits option.splits if_splits list.splits)

lemma decode_batch_pool: "decode_batch E l ps w = (r, l', w') \<Longrightarrow> \<exists>q. w' = w\<lparr>pkCtxPool := q\<rparr>"
proof (induction ps arbitrary: l w r l' w')
  case (Cons p ps)
  obtain r1 l1 w1 where 1: "decodeAndCreateContext E l p w = (r1, l1, w1)" by (metis prod.exhaust)
  obtain r2 l2 w2 where 2: "decode_batch E l1 ps w1 = (r2, l2, w2)" by (metis prod.exhaust)
  from decode_pool [OF 1] Cons.IH [OF 2] Cons.prems 1 2 show ?case
    by (cases r1; cases r2) auto
qed (simp add: same_pool)

lemma encode_batch_pool: "encode_batch E l cs w = (r, l', w') \<Longrightarrow> \<exists>q. w' = w\<lparr>pkCtxPool := q\<rparr>"
proof (induction cs arbitrary: l w r l' w')
  case (Cons ctx cs)
  let ?w1 = "w\<lparr>pkCtxPool := ReturnPacketContext ctx (pkCtxPool w)\<rparr>"
  let ?raw = "(pc_decoded ctx = None \<or> \<not> pc_modified ctx) \<and> proto_ID (k_Proto (w_client w)) = e_CurrentProtocol E"
  show ?case
  proof (cases "pc_canceled ctx \<or> ?raw")
    case True
    obtain r1 l1 w1 where 1: "encode_batch E l cs ?w1 = (r1, l1, w1)" by (metis prod.exhaust)
    with Cons.IH [OF 1] True Cons.prems show ?thesis by (cases r1) (auto simp: Let_def split: if_splits)
  next
    case False
    show ?thesis
    proof (cases "pc_decoded ctx")
      case None
      with False Cons.prems same_pool [of w] show ?thesis by auto
    next
      case (Some pk)
      let ?l1 = "l\<lparr>l_header := (l_header l)\<lparr>h_PacketID := pk_ID (e_lib E) pk\<rparr>\<rparr>"
      let ?proto = "if SyncProtocol (e_opts E) then k_Proto (w_client w) else mc_DefaultProtocol (e_lib E)"
      obtain m b where m: "Marshal (e_lib E) (proto_NewWriter ?proto (l_shieldID l)) pk
          (mc_HeaderWrite (e_lib E) (l_header ?l1)) = (m, b)" by fastforce
      obtain r1 l1 w1 where 1: "encode_batch E ?l1 cs w = (r1, l1, w1)" by (metis prod.exhaust)
      from False Some m 1 Cons.prems Cons.IH [OF 1] same_pool [of w] show ?thesis
        by (cases m; cases r1) (auto simp: Let_def split: if_splits)
    qed
  qed
qed (simp add: same_pool)

lemma batch_keeps:
  "decode_batch E l ps w = (r, l', w') \<Longrightarrow> keeps w w'" "encode_batch E l cs w = (r2, l', w') \<Longrightarrow> keeps w w'"
  by (auto simp: keeps_def dest: decode_batch_pool encode_batch_pool)

lemma handleClientBatch_one_open:
  assumes "one_open (w_session w)" "handleClientBatch E l ps w = (r, l', w')"
  shows "one_open (w_session w')"
proof -
  obtain r1 l1 w1 where 1: "decode_batch E l ps w = (r1, l1, w1)" by (metis prod.exhaust)
  then have w1: "one_open (w_session w1)" using assms(1) batch_keeps(1) keeps_one_open by blast
  show ?thesis
  proof (cases r1)
    case (Ok cs)
    obtain r2 l2 w2 where 2: "encode_batch E l1 (ProcessClient (s_processor (w_session w1)) cs) w1 = (r2, l2, w2)"
      by (metis prod.exhaust)
    then have w2: "one_open (w_session w2)" using w1 batch_keeps(2) keeps_one_open by blast
    show ?thesis
    proof (cases r2)
      case bs: (Ok bs)
      show ?thesis
      proof (cases "s_serverConn (w_session w2)")
        case None
        with assms(2) 1 2 Ok bs w2 show ?thesis by (auto simp: handleClientBatch_def recover_batch_def)
      next
        case (Some i)
        let ?f = "\<lambda>(g, c). let (r, c1) = WriteBatch (e_lib E) bs c in (r, g, c1)"
        obtain r3 w3 where 3: "with_conn i ?f w2 = (r3, w3)" by fastforce
        with batch_call.with_conn_one_open [OF w2 one_open_current [OF w2 Some], of "e_lib E" bs]
        have "one_open (w_session w3)" by simp
        with assms(2) 1 2 3 Ok bs Some show ?thesis
          by (cases r3) (auto simp: handleClientBatch_def recover_batch_def Let_def)
      qed
    qed (use assms(2) 1 2 Ok w2 in \<open>auto simp: handleClientBatch_def recover_batch_def\<close>)
  qed (use assms(2) 1 w1 in \<open>auto simp: handleClientBatch_def recover_batch_def\<close>)
qed

lemma client_turn_one_open:
  assumes "one_open (w_session w)"
  shows "one_open (w_session (snd (snd (client_turn E l w))))"
proof (cases "s_ctx (w_session w)")
  case (Some e)
  with assms show ?thesis
    by (simp add: client_turn_def case_prod_beta leave_after_snd Session_CloseWithError_one_open Let_def)
next
  case None
  obtain r k where r: "k_ReadBatchBytes (w_client w) = (r, k)" by fastforce
  let ?w1 = "upd_k (\<lambda>_. k) w"
  have w1: "one_open (w_session ?w1)" using assms by simp
  show ?thesis
  proof (cases r)
    case (Ok ps)
    obtain r2 l2 w2 where 2: "handleClientBatch E l ps ?w1 = (r2, l2, w2)" by (metis prod.exhaust)
    note w2 = handleClientBatch_one_open [OF w1 2]
    show ?thesis
    proof (cases r2)
      case (Err e)
      show ?thesis
      proof (cases "s_serverConn (w_session w2)")
        case (Some i)
        from close_call.with_conn_one_open [OF w2 one_open_current [OF w2 Some], of E "Wrapf ''failed to write packet to server'' e"]
        show ?thesis using None r Ok 2 Err Some by (simp add: client_turn_def case_prod_beta leave_after_snd Let_def)
      qed (use None r Ok 2 Err w2 in \<open>simp add: client_turn_def Let_def\<close>)
    qed (use None r Ok 2 w2 in \<open>simp_all add: client_turn_def Let_def\<close>)
  qed (use None r w1 in \<open>simp_all add: client_turn_def case_prod_beta leave_after_snd Session_CloseWithError_one_open Let_def\<close>)
qed

lemma latency_turn_one_open:
  assumes "one_open (w_session w)"
  shows "one_open (w_session (snd (latency_turn E tick w)))"
proof (cases tick)
  case None
  with assms show ?thesis
    by (simp add: latency_turn_def leave_after_snd Session_CloseWithError_one_open split: option.split)
next
  case (Some now)
  show ?thesis
  proof (cases "s_serverConn (w_session w)")
    case conn: (Some i)
    let ?f = "WritePacket (e_lib E) (Latency (k_Latency (w_client w) * 2) now)"
    obtain r w1 where "with_conn i ?f w = (r, w1)" by fastforce
    with write_call.with_conn_one_open [OF assms one_open_current [OF assms conn], of "e_lib E"
        "Latency (k_Latency (w_client w) * 2) now"] Some conn
    show ?thesis by (cases r) (simp_all add: latency_turn_def)
  qed (use Some assms in \<open>simp add: latency_turn_def\<close>)
qed

lemma login_start_one_open:
  assumes "one_open (w_session w)"
  shows "one_open (w_session (snd (login_start E w)))"
proof (cases "Discover (e_discovery E) (w_client w)")
  case (Ok addr)
  obtain r w1 where 1: "session_dial E addr w = (r, w1)" by fastforce
  note w1 = session_dial_one_open [OF assms 1]
  show ?thesis
  proof (cases r)
    case (Ok i)
    obtain r2 w2 where 2: "with_conn i (DoConnect (e_lib E)) w1 = (r2, w2)" by fastforce
    with connect_call.with_conn_one_open [of w1 i "e_lib E"] w1 Ok have "one_open (w_session w2)" by simp
    with Ok 1 2 \<open>Discover (e_discovery E) (w_client w) = Ok addr\<close> show ?thesis
      by (cases r2) (simp_all add: login_start_def)
  qed (use 1 w1 \<open>Discover (e_discovery E) (w_client w) = Ok addr\<close> in \<open>simp_all add: login_start_def\<close>)
qed (use assms in \<open>simp_all add: login_start_def\<close>)

lemma login_spawn_one_open:
  assumes "one_open (w_session w)" "i < length (s_conns (w_session w))"
  shows "one_open (w_session (snd (login_spawn E i waited w)))"
proof (cases waited)
  case (Some e)
  let ?f = "CloseWithError (transfer_callback E) (Wrapf ''connection sequence failed'' e)"
  obtain r w1 where "with_conn i ?f w = (r, w1)" by fastforce
  with close_call.with_conn_one_open [OF assms, of E "Wrapf ''connection sequence failed'' e"] Some show ?thesis
    by (cases r) (simp_all add: login_spawn_def)
next
  case None
  let ?gd = "snd (ProcessStartGame (s_processor (w_session w)) NewContext (c_gameData (s_conns (w_session w) ! i)))"
  let ?w1 = "upd_s (\<lambda>s. s\<lparr>s_notices := s_notices s @ [NotedStartGame]\<rparr>) w"
  obtain r k where k: "k_StartGame ?gd (w_client ?w1) = (r, k)" by fastforce
  let ?w2 = "upd_k (\<lambda>_. k) ?w1"
  have w2: "one_open (w_session ?w2)" "i < length (s_conns (w_session ?w2))" using assms by simp_all
  obtain r3 w3 where 3: "with_conn i (DoSpawn (e_lib E)) ?w2 = (r3, w3)" by fastforce
  with spawn_call.with_conn_one_open [OF w2, of "e_lib E"] have "one_open (w_session w3)" by simp
  with None k 3 w2 show ?thesis
    by (cases r; cases r3) (simp_all add: login_spawn_def Let_def case_prod_beta)
qed

lemma session_run_one_open:
  "session_run E w0 w \<Longrightarrow> one_open (w_session w0) \<Longrightarrow> one_open (w_session w)"
proof (induction rule: session_run.induct)
  case (read w i pick)
  with read_call.with_conn_one_open [of w i E "e_lib E" pick] show ?case by (simp add: server_read_def)
next
  case (pass w i pick)
  with pass_call.with_conn_one_open [of w i E "e_lib E" pick] show ?case by (simp add: server_pass_def)
next
  case (transfer w net addr)
  obtain r w1 where "transfer_start (E\<lparr>e_dial := net\<rparr>) addr w = (r, w1)" by fastforce
  with transfer transfer_start_one_open show ?case by simp
qed (simp_all add: login_start_one_open login_spawn_one_open server_handle_one_open client_turn_one_open
    latency_turn_one_open transfer_register_one_open Session_CloseWithError_one_open login_register_def client_gone_def SetAnimation_def
    SetProcessor_def SetCache_def Let_def case_prod_beta)

subsection \<open>Batches that pass through\<close>

definition raw_context :: "bytes \<Rightarrow> packet_context" where
  "raw_context b = \<lparr>pc_canceled = False, pc_modified = False, pc_raw = Some b, pc_decoded = None\<rparr>"

lemma raw_context_simps [simp]:
  "\<not> pc_canceled (raw_context b)" "\<not> pc_modified (raw_context b)" "pc_raw (raw_context b) = Some b"
  "pc_decoded (raw_context b) = None"
  by (simp_all add: raw_context_def)

lemma decode_raw:
  assumes "pool_clean (pkCtxPool w)" "\<not> EnableAllClientDecode (e_opts E)" "ClientDecode (e_opts E) = {}"
    "SyncProtocol (e_opts E) \<or> proto_ID (k_Proto (w_client w)) = e_CurrentProtocol E"
    "known_packet (e_lib E) (l_pool l) p"
  shows "\<exists>h q. decodeAndCreateContext E l p w = (Ok (Some (raw_context p)), l\<lparr>l_header := h\<rparr>, w\<lparr>pkCtxPool := q\<rparr>) \<and> pool_clean q"
proof -
  obtain h buf f where h: "mc_HeaderRead (e_lib E) (l_header l) p = (Ok (), h, buf)" "l_pool l (h_PacketID h) = Some f"
    using assms(5) [unfolded known_packet_def, rule_format, of "l_header l"] by auto
  obtain c q where q: "NewPacketContext (Some p) None (pkCtxPool w) = (c, q)" by fastforce
  from NewPacketContext_clean [OF assms(1) q] have "c = raw_context p" "pool_clean q"
    by (simp_all add: raw_context_def)
  with h q assms(2-4) show ?thesis
    by (intro exI [of _ h] exI [of _ q]) (simp add: decodeAndCreateContext_def Let_def)
qed

lemma decode_batch_raw:
  assumes "pool_clean (pkCtxPool w)" "\<not> EnableAllClientDecode (e_opts E)" "ClientDecode (e_opts E) = {}"
    "SyncProtocol (e_opts E) \<or> proto_ID (k_Proto (w_client w)) = e_CurrentProtocol E"
    "list_all (known_packet (e_lib E) (l_pool l)) ps"
  shows "\<exists>h q. decode_batch E l ps w = (Ok (map raw_context ps), l\<lparr>l_header := h\<rparr>, w\<lparr>pkCtxPool := q\<rparr>) \<and> pool_clean q"
  using assms
proof (induction ps arbitrary: l w)
  case Nil
  then show ?case by (intro exI [of _ "l_header l"] exI [of _ "pkCtxPool w"]) simp
next
  case (Cons p ps)
  from decode_raw [of w E l p] Cons.prems obtain h q where
    1: "decodeAndCreateContext E l p w = (Ok (Some (raw_context p)), l\<lparr>l_header := h\<rparr>, w\<lparr>pkCtxPool := q\<rparr>)" "pool_clean q"
    by auto
  from Cons.IH [of "w\<lparr>pkCtxPool := q\<rparr>" "l\<lparr>l_header := h\<rparr>"] 1(2) Cons.prems obtain h' q' where
    "decode_batch E (l\<lparr>l_header := h\<rparr>) ps (w\<lparr>pkCtxPool := q\<rparr>) =
      (Ok (map raw_context ps), l\<lparr>l_header := h'\<rparr>, w\<lparr>pkCtxPool := q'\<rparr>)" "pool_clean q'" by auto
  with 1 show ?case by auto
qed

lemma encode_batch_raw:
  assumes "proto_ID (k_Proto (w_client w)) = e_CurrentProtocol E"
  shows "\<exists>q. encode_batch E l (map raw_context ps) w = (Ok ps, l, w\<lparr>pkCtxPool := q\<rparr>)"
  using assms
proof (induction ps arbitrary: w)
  case Nil
  then show ?case by (intro exI [of _ "pkCtxPool w"]) simp
next
  case (Cons p ps)
  then obtain q where "encode_batch E l (map raw_context ps)
      (w\<lparr>pkCtxPool := ReturnPacketContext (raw_context p) (pkCtxPool w)\<rparr>) = (Ok ps, l, w\<lparr>pkCtxPool := q\<rparr>)"
    using Cons.IH [of "w\<lparr>pkCtxPool := ReturnPacketContext (raw_context p) (pkCtxPool w)\<rparr>"] by auto
  with Cons.prems show ?case by auto
qed

lemma NopProcessor_simps [simp]:
  "ProcessClient NopProcessor cs = cs" "ProcessServer NopProcessor c = c" "ProcessFlush NopProcessor x = x"
  by (simp_all add: NopProcessor_def)

subsection \<open>Forwarding what was deferred\<close>

lemma server_read_deferred:
  assumes "i < length (s_conns (w_session w))" "c = s_conns (w_session w) ! i" "c_spawned c" "c_ctx c = None"
    "c_deferred c = x # rest"
  shows "server_read E pick i w = (Ok x, upd_s (\<lambda>s. s\<lparr>s_conns := (s_conns s)[i := c\<lparr>c_deferred := rest\<rparr>]\<rparr>) w)"
  using assms by (simp add: server_read_def with_conn_def)

lemma server_handle_player:
  assumes "for_player (Pk pk)"
  shows "server_handle E i (Ok (Pk pk)) w = forward_packet E pk w"
  using assms by (cases pk) (simp_all add: server_handle_def)

lemma forward_packet_nop:
  assumes "s_processor (w_session w) = NopProcessor" "pool_clean (pkCtxPool w)" "k_answers (w_client w) = []"
  shows "\<exists>q t. forward_packet E pk w = (Continue, upd_s (\<lambda>s. s\<lparr>s_tracker := t,
      s_client := (s_client s)\<lparr>k_trace := k_trace (s_client s) @ [Sent pk]\<rparr>\<rparr>) (w\<lparr>pkCtxPool := q\<rparr>)) \<and> pool_clean q"
proof -
  obtain c q where q: "NewPacketContext None (Some pk) (pkCtxPool w) = (c, q)" by fastforce
  note c = NewPacketContext_clean [OF assms(2) q]
  then show ?thesis
    using assms(1,3) q
    by (intro exI [of _ q] exI [of _ "s_tracker (w_session (track E pk w))"]) (simp add: forward_packet_def Let_def track_def after_write_def k_WritePacket_def
        k_call.simps upd_s_def upd_k_def)
qed

lemma forward_raw_nop:
  assumes "s_processor (w_session w) = NopProcessor" "pool_clean (pkCtxPool w)" "k_answers (w_client w) = []"
  shows "\<exists>q. forward_raw E b w = (Continue, upd_s (\<lambda>s. s\<lparr>
      s_client := (s_client s)\<lparr>k_trace := k_trace (s_client s) @ [SentRaw b]\<rparr>\<rparr>) (w\<lparr>pkCtxPool := q\<rparr>)) \<and> pool_clean q"
proof -
  obtain c q where q: "NewPacketContext (Some b) None (pkCtxPool w) = (c, q)" by fastforce
  note c = NewPacketContext_clean [OF assms(2) q]
  then show ?thesis
    using assms(1,3) q
    by (intro exI [of _ q]) (simp add: forward_raw_def Let_def after_write_def k_Write_def
        k_call.simps upd_s_def upd_k_def)
qed

text \<open>The states in which a server loop only forwards.\<close>

definition forwarding :: "nat \<Rightarrow> any list \<Rightarrow> world \<Rightarrow> bool" where
  "forwarding i xs w \<longleftrightarrow>
     s_ctx (w_session w) = None \<and> s_serverConn (w_session w) = Some i \<and> i < length (s_conns (w_session w)) \<and>
     c_spawned (s_conns (w_session w) ! i) \<and> c_ctx (s_conns (w_session w) ! i) = None \<and>
     c_deferred (s_conns (w_session w) ! i) = xs \<and> s_processor (w_session w) = NopProcessor \<and>
     pool_clean (pkCtxPool w) \<and> k_answers (w_client w) = []"

lemma server_turn_forwards:
  assumes "forwarding i (x # xs) w" "for_player x"
  obtains w' where "server_turn E pick w = (Continue, w')" "forwarding i xs w'"
    "k_trace (w_client w') = k_trace (w_client w) @ [forwarded x]"
proof -
  let ?c = "s_conns (w_session w) ! i"
  let ?w1 = "upd_s (\<lambda>s. s\<lparr>s_conns := (s_conns s)[i := ?c\<lparr>c_deferred := xs\<rparr>]\<rparr>) w"
  have 1: "server_read E pick i w = (Ok x, ?w1)"
    using assms(1) by (intro server_read_deferred) (simp_all add: forwarding_def)
  have turn: "server_turn E pick w = server_handle E i (Ok x) ?w1"
    using assms(1) 1 by (simp add: server_turn_def forwarding_def)
  have pre: "s_processor (w_session ?w1) = NopProcessor" "pool_clean (pkCtxPool ?w1)" "k_answers (w_client ?w1) = []"
    using assms(1) by (simp_all add: forwarding_def)
  show thesis
  proof (cases x)
    case (Pk pk)
    with forward_packet_nop [OF pre, of E pk] obtain q t where
      "server_turn E pick w = (Continue, upd_s (\<lambda>s. s\<lparr>s_tracker := t,
        s_client := (s_client s)\<lparr>k_trace := k_trace (s_client s) @ [Sent pk]\<rparr>\<rparr>) (?w1\<lparr>pkCtxPool := q\<rparr>))" "pool_clean q"
      using turn assms(2) by (auto simp: server_handle_player)
    with assms(1) Pk that show thesis by (simp add: forwarding_def)
  next
    case (Raw b)
    with forward_raw_nop [OF pre, of E b] obtain q where
      "server_turn E pick w = (Continue, upd_s (\<lambda>s. s\<lparr>
        s_client := (s_client s)\<lparr>k_trace := k_trace (s_client s) @ [SentRaw b]\<rparr>\<rparr>) (?w1\<lparr>pkCtxPool := q\<rparr>))" "pool_clean q"
      using turn by (auto simp: server_handle_def)
    with assms(1) Raw that show thesis by (simp add: forwarding_def)
  qed
qed

lemma server_turns_forward:
  "forwarding i xs w \<Longrightarrow> list_all for_player xs \<Longrightarrow>
   \<exists>w'. server_turns E pick (length xs) w = (Continue, w') \<and> forwarding i [] w' \<and>
     k_trace (w_client w') = k_trace (w_client w) @ map forwarded xs"
proof (induction xs arbitrary: w)
  case (Cons x xs)
  then obtain w1 where 1: "server_turn E pick w = (Continue, w1)" "forwarding i xs w1"
    "k_trace (w_client w1) = k_trace (w_client w) @ [forwarded x]"
    using server_turn_forwards [of i x xs w E pick] by auto
  with Cons.IH [OF 1(2)] Cons.prems(2) show ?case by auto
qed auto

lemma close_server_frame:
  assumes "close_server E e w = (r, w')"
  shows "r = Ok () \<and> s_once (w_session w') = s_once (w_session w) \<and> s_dials (w_session w') = s_dials (w_session w)"
proof (cases "s_serverConn (w_session w)")
  case (Some i)
  with assms have "with_conn i (CloseWithError (transfer_callback E) e) w = (r, w')" by (simp add: close_server_def)
  then show ?thesis by (rule with_conn_close) simp
qed (use assms in \<open>simp add: close_server_def\<close>)

lemma close_leaves:
  assumes "leave_after (Session_CloseWithError E e w) = (t, w')"
  shows "t = Leave \<and> s_once (w_session w') \<and> s_dials (w_session w') = s_dials (w_session w)"
proof (cases "s_once (w_session w)")
  case True
  with assms show ?thesis by (auto simp: Session_CloseWithError_def leave_after_def)
next
  case False
  obtain r w1 where 1: "close_server E e (close_client e (upd_s (\<lambda>s. s\<lparr>s_once := True\<rparr>) w)) = (r, w1)" by fastforce
  from close_server_frame [OF 1] False assms 1 show ?thesis
    by (auto simp: Session_CloseWithError_def leave_after_def close_client_def Let_def)
qed

subsection \<open>A login and a transfer\<close>

lemma session_dial_Ok:
  assumes "one_open (w_session w)" "s_ctx (w_session w) = None" "\<And>n. e_dial E n addr = Ok io"
  obtains w' where "session_dial E addr w = (Ok (length (s_conns (w_session w))), w')" "one_open (w_session w')"
    "length (s_conns (w_session w')) = Suc (length (s_conns (w_session w)))"
    "s_serverConn (w_session w') = Some (length (s_conns (w_session w)))" "s_ctx (w_session w') = None"
    "s_processor (w_session w') = s_processor (w_session w)"
proof -
  obtain r w' where d: "session_dial E addr w = (r, w')" by fastforce
  from session_dial_one_open [OF assms(1) d] have "one_open (w_session w')" by simp
  moreover have "r = Ok (length (s_conns (w_session w))) \<and>
      length (s_conns (w_session w')) = Suc (length (s_conns (w_session w))) \<and>
      s_serverConn (w_session w') = Some (length (s_conns (w_session w))) \<and> s_ctx (w_session w') = None \<and>
      s_processor (w_session w') = s_processor (w_session w)"
  proof (cases "s_serverConn (w_session w)")
    case None
    with assms d show ?thesis by (auto simp: session_dial_def Let_def)
  next
    case (Some i)
    obtain r1 w1 where 1: "with_conn i (CloseWithError (transfer_callback E) (ErrorString ''closed by application'')) w = (r1, w1)"
      by fastforce
    with close_call.with_conn_one_open [OF assms(1) one_open_current [OF assms(1) Some], of E
        "ErrorString ''closed by application''"] close_current [OF assms(1) Some 1]
    show ?thesis using assms Some d by (auto simp: session_dial_def Conn_Close_def [abs_def] Let_def)
  qed
  ultimately show thesis using d that by blast
qed

lemma login_start_shape:
  assumes "one_open (w_session w)" "s_ctx (w_session w) = None" "Discover (e_discovery E) (w_client w) = Ok addr"
    "\<And>n. e_dial E n addr = Ok io"
  shows "length (s_conns (w_session (snd (login_start E w)))) = Suc (length (s_conns (w_session w))) \<and>
    s_ctx (w_session (snd (login_start E w))) = None \<and>
    s_processor (w_session (snd (login_start E w))) = s_processor (w_session w)"
proof -
  obtain w1 where w1: "session_dial E addr w = (Ok (length (s_conns (w_session w))), w1)" "one_open (w_session w1)"
    "length (s_conns (w_session w1)) = Suc (length (s_conns (w_session w)))" "s_ctx (w_session w1) = None"
    "s_processor (w_session w1) = s_processor (w_session w)"
    by (rule session_dial_Ok [OF assms(1,2,4)])
  obtain r w2 where "with_conn (length (s_conns (w_session w))) (DoConnect (e_lib E)) w1 = (r, w2)" by fastforce
  with connect_call.with_conn_one_open [OF w1(2), of "length (s_conns (w_session w))" "e_lib E"] w1 assms(3)
  show ?thesis by (cases r) (auto simp: login_start_def)
qed

lemma transfer_start_shape:
  assumes "one_open (w_session w)" "s_ctx (w_session w) = None" "s_processor (w_session w) = NopProcessor"
    "\<And>n. e_dial E n addr = Ok io"
  shows "length (s_conns (w_session (snd (transfer_start E addr w)))) = Suc (length (s_conns (w_session w))) \<and>
    s_serverConn (w_session (snd (transfer_start E addr w))) = Some (length (s_conns (w_session w)))"
proof -
  let ?w0 = "upd_k (sendMetadata True) (upd_s (\<lambda>s. s\<lparr>s_notices := s_notices s @ [NotedPreTransfer (s_serverAddr (w_session w)) addr]\<rparr>) w)"
  have w0: "one_open (w_session ?w0)" "s_ctx (w_session ?w0) = None" using assms by simp_all
  have conns: "s_conns (w_session ?w0) = s_conns (w_session w)" by simp
  obtain w1 where w1: "session_dial E addr ?w0 = (Ok (length (s_conns (w_session w))), w1)" "one_open (w_session w1)"
    "length (s_conns (w_session w1)) = Suc (length (s_conns (w_session w)))"
    "s_serverConn (w_session w1) = Some (length (s_conns (w_session w)))"
    by (rule session_dial_Ok [OF w0 assms(4), unfolded conns])
  obtain r w2 where "with_conn (length (s_conns (w_session w))) (DoConnect (e_lib E)) w1 = (r, w2)" by fastforce
  with connect_call.with_conn_one_open [OF w1(2), of "length (s_conns (w_session w))" "e_lib E"] w1 assms(3)
  show ?thesis
    by (cases r) (auto simp: transfer_start_def NopProcessor_def NewContext_def Context_Cancelled_def Let_def
        notify_failure_def)
qed

section \<open>Properties\<close>

text \<open>
  C3. However the goroutines of a session and the calls of the application interleave, of all the
  connections the session has dialled at most the current one is open: every other one has been
  closed.
\<close>

theorem at_most_one_open_connection:
  assumes "session_run E w0 w" "w_session w0 = NewSession n client" "j < length (s_conns (w_session w))"
    "s_serverConn (w_session w) \<noteq> Some j"
  shows "c_once (s_conns (w_session w) ! j)"
proof -
  have "one_open (w_session w0)"
    using assms(2) by (simp add: one_open_def session_wf_def NewSession_def tracker_finite_def newTracker_def)
  from session_run_one_open [OF assms(1) this] assms(3,4) show ?thesis by (simp add: one_open_def)
qed

theorem at_most_one_open_connection_witness:
  "\<exists>w. session_run demo_env demo_world w \<and> length (s_conns (w_session w)) = 2 \<and>
    s_serverConn (w_session w) = Some 1 \<and> c_once (s_conns (w_session w) ! 0)"
proof -
  let ?w1 = "snd (login_start demo_env demo_world)"
  let ?w2 = "snd (transfer_start demo_env ''arena'' ?w1)"
  have run1: "session_run demo_env demo_world ?w1"
    using session_run.login [OF session_run.start, of demo_env demo_world "e_dial demo_env"] by simp
  have run2: "session_run demo_env demo_world ?w2"
    using session_run.transfer [OF run1, of "e_dial demo_env" "''arena''"] by simp
  have fresh: "one_open (w_session demo_world)"
    by (simp add: one_open_def session_wf_def NewSession_def tracker_finite_def newTracker_def)
  have io: "e_dial demo_env n a = Ok (\<lparr>s_data = [], s_end = EOF\<rparr>, \<lparr>k_out = [], k_faults = []\<rparr>)" if "a \<noteq> ''down''" for n a
    using that by (simp add: demo_env_def)
  have "length (s_conns (w_session ?w1)) = 1 \<and> s_ctx (w_session ?w1) = None \<and> s_processor (w_session ?w1) = NopProcessor"
    using login_start_shape [OF fresh, of demo_env "''lobby''"] io [of "''lobby''"]
    by (simp add: NewSession_def demo_env_def NewStaticDiscovery_def)
  with transfer_start_shape [OF session_run_one_open [OF run1 fresh], of demo_env "''arena''"] io [of "''arena''"]
  have w2: "length (s_conns (w_session ?w2)) = 2" "s_serverConn (w_session ?w2) = Some 1" by simp_all
  with at_most_one_open_connection [OF run2, of 0 demo_client 0] run2 show ?thesis by fastforce
qed

text \<open>
  A batch from a player on the current protocol, none of whose packets is to be decoded, reaches
  the server unchanged: \<^verbatim>\<open>handleClientBatch\<close> succeeds, one batch frame goes out, and the server
  recovers exactly the payloads of the player, in order.
\<close>

lemma client_batch_reaches_server:
  assumes "pool_clean (pkCtxPool w)" "s_processor (w_session w) = NopProcessor"
    and "\<not> EnableAllClientDecode (e_opts E)" "ClientDecode (e_opts E) = {}"
    and "proto_ID (k_Proto (w_client w)) = e_CurrentProtocol E"
    and "list_all (known_packet (e_lib E) (l_pool l)) ps" "ps \<noteq> []"
    and "s_serverConn (w_session w) = Some i" "i < length (s_conns (w_session w))" "c = s_conns (w_session w) ! i"
    and "c_ctx c = None" "writer_wf (c_writer c)" "k_faults (w_w (c_writer c)) = []" "snappy_codec (e_lib E)"
    and "length (batch_buffer ps) < 2 ^ 31" "list_all (\<lambda>p. length p < 2 ^ 31) ps"
  shows "\<exists>l' w' out b. handleClientBatch E l ps w = (Ok (), l', w') \<and>
    k_out (w_w (c_writer (s_conns (w_session w') ! i))) = k_out (w_w (c_writer c)) @ out \<and>
    server_receive (e_lib E) \<lparr>s_data = out, s_end = EOF\<rparr> = (Ok (True, b), \<lparr>s_data = [], s_end = EOF\<rparr>) \<and>
    read_many read_batch_item (length ps) \<lparr>s_data = b, s_end = EOF\<rparr> = (Ok ps, \<lparr>s_data = [], s_end = EOF\<rparr>)"
proof -
  obtain h q where 1: "decode_batch E l ps w = (Ok (map raw_context ps), l\<lparr>l_header := h\<rparr>, w\<lparr>pkCtxPool := q\<rparr>)"
    using decode_batch_raw [OF assms(1,3,4) _ assms(6)] assms(5) by blast
  obtain q' where 2: "encode_batch E (l\<lparr>l_header := h\<rparr>) (map raw_context ps) (w\<lparr>pkCtxPool := q\<rparr>) =
      (Ok ps, l\<lparr>l_header := h\<rparr>, w\<lparr>pkCtxPool := q'\<rparr>)"
    using encode_batch_raw [of "w\<lparr>pkCtxPool := q\<rparr>" E "l\<lparr>l_header := h\<rparr>" ps] assms(5) by auto
  obtain wr out where 3: "WriteBatch (e_lib E) ps c = (Ok (), c\<lparr>c_writer := wr\<rparr>)"
    "k_out (w_w wr) = k_out (w_w (c_writer c)) @ out"
    "\<forall>rest e. \<exists>b. server_receive (e_lib E) \<lparr>s_data = out @ rest, s_end = e\<rparr> = (Ok (True, b), \<lparr>s_data = rest, s_end = e\<rparr>) \<and>
       read_many read_batch_item (length ps) \<lparr>s_data = b, s_end = EOF\<rparr> = (Ok ps, \<lparr>s_data = [], s_end = EOF\<rparr>)"
    using WriteBatch_sends [OF assms(11-16)] assms(7) by blast
  from 3(3) obtain b where "server_receive (e_lib E) \<lparr>s_data = out, s_end = EOF\<rparr> = (Ok (True, b), \<lparr>s_data = [], s_end = EOF\<rparr>)"
    "read_many read_batch_item (length ps) \<lparr>s_data = b, s_end = EOF\<rparr> = (Ok ps, \<lparr>s_data = [], s_end = EOF\<rparr>)"
    by (metis append_Nil2)
  with 1 2 3(1,2) assms(2,8,9,10) show ?thesis
    by (simp add: handleClientBatch_def recover_batch_def with_conn_def)
qed

text \<open>The world of the demonstrations below: a session with one spawned connection.\<close>

definition demo_session_world :: "any list \<Rightarrow> world" where
  "demo_session_world xs = upd_s (\<lambda>s. s\<lparr>s_serverConn := Some 0,
     s_conns := [(demo_conn [])\<lparr>c_spawned := True, c_connected := True, c_deferred := xs\<rparr>]\<rparr>) demo_world"

lemma demo_session_simps:
  "pkCtxPool (demo_session_world xs) = []" "s_processor (w_session (demo_session_world xs)) = NopProcessor"
  "w_client (demo_session_world xs) = demo_client" "s_serverConn (w_session (demo_session_world xs)) = Some 0"
  "s_conns (w_session (demo_session_world xs)) = [(demo_conn [])\<lparr>c_spawned := True, c_connected := True, c_deferred := xs\<rparr>]"
  "s_ctx (w_session (demo_session_world xs)) = None" "s_inFallback (w_session (demo_session_world xs)) = False"
  "s_once (w_session (demo_session_world xs)) = False" "s_dials (w_session (demo_session_world xs)) = []"
  by (simp_all add: demo_session_world_def NewSession_def)

definition demo_loop :: client_loop where
  "demo_loop = \<lparr>l_header = zero_header, l_pool = demo_pool, l_shieldID = 0\<rparr>"

lemma demo_known: "known_packet demo_lib demo_pool [9, 0, 0, 0, 0, 0, 7]"
  by (simp add: known_packet_def demo_lib_def demo_HeaderRead_def demo_r32_def demo_take_def demo_pool_def)

lemma client_batch_reaches_server_witness:
  "\<exists>l' w' out b. handleClientBatch demo_env demo_loop [[9, 0, 0, 0, 0, 0, 7]] (demo_session_world []) = (Ok (), l', w') \<and>
    k_out (w_w (c_writer (s_conns (w_session w') ! 0))) = out \<and>
    server_receive demo_lib \<lparr>s_data = out, s_end = EOF\<rparr> = (Ok (True, b), \<lparr>s_data = [], s_end = EOF\<rparr>)"
proof -
  let ?w = "demo_session_world []" and ?p = "[9, 0, 0, 0, 0, 0, 7] :: bytes"
  let ?c = "(demo_conn [])\<lparr>c_spawned := True, c_connected := True, c_deferred := []\<rparr> :: callback conn"
  have "pool_clean (pkCtxPool ?w)" "s_processor (w_session ?w) = NopProcessor"
    "\<not> EnableAllClientDecode (e_opts demo_env)" "ClientDecode (e_opts demo_env) = {}"
    "proto_ID (k_Proto (w_client ?w)) = e_CurrentProtocol demo_env"
    "list_all (known_packet (e_lib demo_env) (l_pool demo_loop)) [?p]" "[?p] \<noteq> []"
    "s_serverConn (w_session ?w) = Some 0" "0 < length (s_conns (w_session ?w))" "?c = s_conns (w_session ?w) ! 0"
    "c_ctx ?c = None" "writer_wf (c_writer ?c)" "k_faults (w_w (c_writer ?c)) = []" "snappy_codec (e_lib demo_env)"
    "length (batch_buffer [?p]) < 2 ^ 31" "list_all (\<lambda>p. length p < 2 ^ 31) [?p]"
    by (simp_all add: demo_session_simps DefaultOpts_def demo_client_info_def demo_proto_def demo_loop_def demo_known
        demo_conn_simps demo_snappy_codec)
  from client_batch_reaches_server [OF this] show ?thesis by (auto simp: demo_conn_simps)
qed

text \<open>
  C38. With protocol synchronisation on, a player who is not on the current protocol cannot play: the
  first packet that is not listed for decoding is kept raw when it arrives, and is dereferenced as a
  decoded packet when it is sent on. The recovered panic ends the client loop and closes the
  connection to the server.
\<close>

theorem sync_protocol_breaks_legacy_players:
  assumes "SyncProtocol (e_opts E)" "proto_ID (k_Proto (w_client w)) \<noteq> e_CurrentProtocol E"
    and "\<not> EnableAllClientDecode (e_opts E)" "ClientDecode (e_opts E) = {}"
    and "pool_clean (pkCtxPool w)" "s_processor (w_session w) = NopProcessor"
    and "known_packet (e_lib E) (l_pool l) p" "list_all (known_packet (e_lib E) (l_pool l)) ps"
  shows "\<exists>l' w'. handleClientBatch E l (p # ps) w = (Err (Recovered ''panic while handling batch''
    ''invalid memory address or nil pointer dereference''), l', w')"
proof -
  obtain h q where 1: "decode_batch E l (p # ps) w =
      (Ok (map raw_context (p # ps)), l\<lparr>l_header := h\<rparr>, w\<lparr>pkCtxPool := q\<rparr>)"
    using decode_batch_raw [OF assms(5,3,4), of l "p # ps"] assms(1,7,8) by auto
  with assms(2,6) show ?thesis
    by (simp add: handleClientBatch_def recover_batch_def)
qed

theorem sync_protocol_breaks_legacy_players_witness:
  "\<exists>l' w' e. handleClientBatch (demo_env\<lparr>e_opts := DefaultOpts\<lparr>SyncProtocol := True\<rparr>, e_CurrentProtocol := 801\<rparr>) demo_loop
     [[9, 0, 0, 0, 0, 0, 7]] (demo_session_world []) = (Err e, l', w')"
proof -
  let ?E = "demo_env\<lparr>e_opts := DefaultOpts\<lparr>SyncProtocol := True\<rparr>, e_CurrentProtocol := 801\<rparr>"
  have "SyncProtocol (e_opts ?E)" "proto_ID (k_Proto (w_client (demo_session_world []))) \<noteq> e_CurrentProtocol ?E"
    "\<not> EnableAllClientDecode (e_opts ?E)" "ClientDecode (e_opts ?E) = {}" "pool_clean (pkCtxPool (demo_session_world []))"
    "s_processor (w_session (demo_session_world [])) = NopProcessor"
    "known_packet (e_lib ?E) (l_pool demo_loop) [9, 0, 0, 0, 0, 0, 7]"
    "list_all (known_packet (e_lib ?E) (l_pool demo_loop)) []"
    by (simp_all add: demo_session_simps DefaultOpts_def demo_client_info_def demo_proto_def demo_loop_def demo_known)
  from sync_protocol_breaks_legacy_players [OF this] show ?thesis by blast
qed





text \<open>
  C37. A packet of the player that cannot be decoded, or a failed write, closes the connection to the
  server and ends the loop that reads from the player, but not the session: the player is neither
  told nor disconnected, and nothing reads from the player any more.
\<close>

theorem client_error_ends_loop_only:
  assumes "s_ctx (w_session w) = None" "k_batches (w_client w) = Ok ps # bs"
    and "handleClientBatch E l ps (upd_k (\<lambda>k. k\<lparr>k_batches := bs\<rparr>) w) = (Err e, l', w2)"
    and "s_serverConn (w_session w2) = Some i" "i < length (s_conns (w_session w2))"
    and "client_turn E l w = (t, l'', w3)"
  shows "t = Leave \<and> c_once (s_conns (w_session w3) ! i) \<and> s_ctx (w_session w3) = s_ctx (w_session w2) \<and>
    s_once (w_session w3) = s_once (w_session w2) \<and> w_client w3 = w_client w2"
proof -
  let ?e = "Wrapf ''failed to write packet to server'' e"
  obtain r w4 where 4: "with_conn i (CloseWithError (transfer_callback E) ?e) w2 = (r, w4)" by fastforce
  have k: "k_ReadBatchBytes (w_client w) = (Ok ps, (w_client w)\<lparr>k_batches := bs\<rparr>)"
    using assms(2) by (simp add: k_ReadBatchBytes_def)
  have w1: "upd_k (\<lambda>_. (w_client w)\<lparr>k_batches := bs\<rparr>) w = upd_k (\<lambda>k. k\<lparr>k_batches := bs\<rparr>) w"
    by (simp add: upd_k_def upd_s_def)
  from 4 show ?thesis
    by (rule with_conn_close) (use assms 4 in \<open>auto simp: client_turn_def k w1 leave_after_def Let_def\<close>)
qed

theorem client_error_ends_loop_only_witness:
  "\<exists>l' w3. client_turn demo_env demo_loop (upd_k (\<lambda>k. k\<lparr>k_batches := [Ok [[1]]]\<rparr>) (demo_session_world [])) = (Leave, l', w3) \<and>
    c_once (s_conns (w_session w3) ! 0) \<and> \<not> s_once (w_session w3) \<and> s_ctx (w_session w3) = None"
proof -
  let ?w = "upd_k (\<lambda>k. k\<lparr>k_batches := [Ok [[1]]]\<rparr>) (demo_session_world [])"
  let ?w2 = "upd_k (\<lambda>k. k\<lparr>k_batches := []\<rparr>) ?w"
  obtain t l' w3 where t: "client_turn demo_env demo_loop ?w = (t, l', w3)" by (metis prod.exhaust)
  have pre: "s_ctx (w_session ?w) = None" "k_batches (w_client ?w) = Ok [[1]] # []"
    "s_serverConn (w_session ?w2) = Some 0" "0 < length (s_conns (w_session ?w2))"
    by (simp_all add: demo_session_simps)
  have "handleClientBatch demo_env demo_loop [[1]] ?w2 = (Err (ErrorString ''failed to decode header''), demo_loop, ?w2)"
    by (simp add: handleClientBatch_def recover_batch_def decodeAndCreateContext_def demo_lib_def demo_HeaderRead_def
        demo_r32_def demo_take_def demo_loop_def Let_def)
  from client_error_ends_loop_only [OF pre(1,2) this pre(3,4) t] t show ?thesis
    by (simp add: demo_session_simps)
qed

end
