(* ===== verification/Session_History.thy ===== *)
theory Session_History
  imports Handler
begin

text \<open>
  What holds of a session for good. \<open>evolves\<close> is the history of a session in its world: who the player
  is never changes, what was sent to the player, dialled or reported to the processor is never taken
  back, the first cause of a close stays, a closed session dials nothing, and of the registry only the
  entry of the player's own account is touched. Every step of \<open>session_run\<close> is such an evolution. On
  this rest the end of the three loops after a close, and the process-wide invariant of the registry.
\<close>

section \<open>Definitions\<close>

definition k_evolves :: "mc_conn \<Rightarrow> mc_conn \<Rightarrow> bool" where
  "k_evolves k k' \<longleftrightarrow> k_info k' = k_info k \<and> k_XUID k' = k_XUID k \<and> k_DisplayName k' = k_DisplayName k \<and>
     prefix (k_trace k) (k_trace k')"

text \<open>The registry entry of an account, changed by the session \<open>i\<close> of that account.\<close>

definition own_entry :: "string \<Rightarrow> nat \<Rightarrow> registry \<Rightarrow> registry \<Rightarrow> bool" where
  "own_entry u i r r' \<longleftrightarrow> (\<forall>v. v \<noteq> u \<longrightarrow> r' v = r v) \<and> r' u \<in> {r u, Some i, None}"

definition evolves :: "world \<Rightarrow> world \<Rightarrow> bool" where
  "evolves w w' \<longleftrightarrow>
     s_id (w_session w') = s_id (w_session w) \<and> k_evolves (w_client w) (w_client w') \<and>
     prefix (s_dials (w_session w)) (s_dials (w_session w')) \<and>
     prefix (s_notices (w_session w)) (s_notices (w_session w')) \<and>
     (s_once (w_session w) \<longrightarrow> s_once (w_session w')) \<and>
     (s_once (w_session w') \<longrightarrow> s_once (w_session w) \<or> s_ctx (w_session w') \<noteq> None) \<and>
     (s_ctx (w_session w) \<noteq> None \<longrightarrow>
        s_ctx (w_session w') = s_ctx (w_session w) \<and> s_dials (w_session w') = s_dials (w_session w)) \<and>
     own_entry (k_XUID (w_client w)) (s_id (w_session w)) (w_registry w) (w_registry w')"

section \<open>Lemmas\<close>

subsection \<open>The player's connection\<close>

lemma k_evolves_refl [simp]: "k_evolves k k"
  by (simp add: k_evolves_def)

lemma k_evolves_trans: "k_evolves a b \<Longrightarrow> k_evolves b c \<Longrightarrow> k_evolves a c"
  by (auto simp: k_evolves_def intro: prefix_order.trans)

lemma k_evolves_call: "k_call ev k = (r, k') \<Longrightarrow> k_evolves k k'"
  by (drule k_call_frame) (auto simp: k_evolves_def)

lemma k_evolves_send: "k_evolves k k' \<Longrightarrow> k_evolves k (k_send pk k')"
  using k_send_frame [of pk k'] by (auto simp: k_evolves_def prefix_def)

lemma k_evolves_send_all: "k_evolves k k' \<Longrightarrow> k_evolves k (k_send_all pks k')"
  by (induction pks arbitrary: k') (simp_all add: k_evolves_send)

lemma k_evolves_sleep: "k_evolves k k' \<Longrightarrow> k_evolves k (k_sleep ns k')"
  by (auto simp: k_evolves_def k_sleep_def prefix_def)

lemma k_evolves_fold: "(\<And>x k'. k_evolves k k' \<Longrightarrow> k_evolves k (f x k')) \<Longrightarrow> k_evolves k k' \<Longrightarrow> k_evolves k (fold f xs k')"
  by (induction xs arbitrary: k') simp_all

lemmas k_evolves_intros = k_evolves_send k_evolves_send_all k_evolves_sleep

lemma k_evolves_ease_step: "k_evolves k k' \<Longrightarrow> k_evolves k (ease_step a i k')"
  by (simp add: ease_step_def Let_def k_evolves_intros)

lemma k_evolves_Sync: "k_evolves k (snd (Sync b k))"
  by (simp add: Sync_def k_evolves_intros)

lemma k_evolves_Play: "k_evolves k (snd (Play a gd k))"
proof -
  have "k_evolves k (snd (Ease_Play e k))" for e
    unfolding Ease_Play_def Let_def case_prod_beta snd_conv
    by (intro k_evolves_sleep k_evolves_fold k_evolves_ease_step k_evolves_send k_evolves_Sync)
  moreover have "k_evolves k (snd (Smooth_Play s k))" for s
    by (simp add: Smooth_Play_def Let_def case_prod_beta k_evolves_intros k_evolves_Sync)
  ultimately show ?thesis
    by (cases a) (simp_all add: Dimension_Play_def sendDimension_def Fade_Play_def Let_def case_prod_beta k_evolves_intros)
qed

lemma k_evolves_Clear: "k_evolves k (snd (Clear M a gd k))"
  by (cases a) (simp_all add: Dimension_Clear_def sendDimension_def Let_def k_evolves_intros)

lemma k_evolves_clear_all: "k_evolves k (snd (clear_all ord (t, k)))"
  by (simp add: clear_all_def clearEffects_def clearEntities_def clearBossBars_def clearPlayers_def
      clearScoreboards_def k_evolves_intros)

lemma k_evolves_StartGame: "k_evolves k (snd (k_StartGame gd k))"
proof -
  obtain r k' where 1: "k_call (StartedGame gd) k = (r, k')" by fastforce
  with k_evolves_call [OF 1] show ?thesis by (cases r) (auto simp: k_StartGame_def k_evolves_def)
qed

lemma k_evolves_ReadBatchBytes: "k_evolves k (snd (k_ReadBatchBytes k))"
  by (simp add: k_ReadBatchBytes_def k_evolves_def split: list.split)

lemma k_evolves_calls:
  "k_evolves k (snd (k_WritePacket pk k))" "k_evolves k (snd (k_Write b k))" "k_evolves k (snd (k_Flush k))"
  "k_evolves k (snd (k_Close k))"
  using k_evolves_call [OF prod.collapse [symmetric]]
  by (simp_all add: k_WritePacket_def k_Write_def k_Flush_def k_Close_def)

lemma k_evolves_metadata: "k_evolves k (sendMetadata b k)"
  by (simp add: sendMetadata_def k_evolves_intros)

subsection \<open>The world\<close>

lemma own_entry_refl [simp]: "own_entry u i r r"
  by (simp add: own_entry_def)

lemma own_entry_trans: "own_entry u i r r' \<Longrightarrow> own_entry u i r' r'' \<Longrightarrow> own_entry u i r r''"
  by (auto simp: own_entry_def)

lemma own_entry_ops [simp]: "own_entry u i r (RemoveSession u r)" "own_entry u i r (AddSession u i r)"
  by (simp_all add: own_entry_def RemoveSession_def AddSession_def)

lemma evolves_refl [simp]: "evolves w w"
  by (simp add: evolves_def)

lemma evolves_trans [trans]:
  assumes "evolves a b" "evolves b c"
  shows "evolves a c"
proof -
  from assms have k: "k_evolves (w_client a) (w_client c)" "k_XUID (w_client b) = k_XUID (w_client a)"
    by (auto simp: evolves_def k_evolves_def intro: prefix_order.trans)
  from assms have "prefix (s_dials (w_session a)) (s_dials (w_session c))"
    "prefix (s_notices (w_session a)) (s_notices (w_session c))"
    by (auto simp: evolves_def intro: prefix_order.trans)
  with assms k show ?thesis unfolding evolves_def by (auto intro: own_entry_trans)
qed

lemma evolves_pools [simp]: "evolves w (w\<lparr>headerPool := hs\<rparr>)" "evolves w (w\<lparr>pkCtxPool := q\<rparr>)"
  by (simp_all add: evolves_def)

lemma evolves_upd_k: "k_evolves (w_client w) (f (w_client w)) \<Longrightarrow> evolves w (upd_k f w)"
  by (simp add: evolves_def)

lemma evolves_notify [simp]: "evolves w (notify_failure x a w)" "evolves w (notify_post x a w)"
  by (simp_all add: evolves_def notify_failure_def notify_post_def)

lemma evolves_sendGameData: "evolves w (sendGameData E gd w)"
proof -
  let ?k1 = "k_send_all (level_chunks (e_int32 E) gd) (w_client w)"
  let ?k2 = "snd (clear_all (e_orders E) (s_tracker (w_session w), ?k1))"
  have "k_evolves (w_client w) ?k2"
    using k_evolves_trans [OF k_evolves_send_all [OF k_evolves_refl] k_evolves_clear_all] .
  then show ?thesis
    by (simp add: evolves_def sendGameData_def Let_def case_prod_beta k_evolves_send_all)
qed

lemma transfer_callback_evolves:
  assumes "transfer_callback E cb e (w, c) = (r, w', c')"
  shows "evolves w w'"
proof (cases e)
  case None
  let ?p = "Play (s_animation (w_session w)) (c_gameData c) (w_client w)"
  let ?w1 = "upd_s (\<lambda>s. s\<lparr>s_animation := fst ?p, s_client := snd ?p\<rparr>) w"
  let ?w2 = "sendGameData E (c_gameData c) ?w1"
  have "evolves w ?w1" by (simp add: evolves_def k_evolves_Play)
  also have "evolves ?w1 ?w2" by (rule evolves_sendGameData)
  finally have w2: "evolves w ?w2" .
  obtain r3 w3 c3 where 3: "DoSpawn (e_lib E) (?w2, c) = (r3, w3, c3)" by (metis prod.exhaust)
  with DoSpawn_world [OF 3] have "evolves ?w2 w3" by auto
  with w2 have w3: "evolves w w3" by (rule evolves_trans)
  have "evolves w3 w'"
    using assms None 3
    by (cases r3) (auto simp: transfer_callback_def Let_def case_prod_beta evolves_def notify_post_def notify_failure_def k_evolves_Clear)
  with w3 show ?thesis by (rule evolves_trans)
qed (use assms in auto)

text \<open>The contract of a call on one connection, as far as the history is concerned.\<close>

locale conn_history =
  fixes f :: "world \<times> callback conn \<Rightarrow> 'a \<times> world \<times> callback conn"
  assumes f_evolves: "f (w, c) = (r, w', c') \<Longrightarrow> evolves w w'"
begin

lemma with_conn_evolves: "with_conn i f w = (r, w') \<Longrightarrow> evolves w w'"
proof -
  assume w': "with_conn i f w = (r, w')"
  obtain r1 w1 c1 where 1: "f (w, s_conns (w_session w) ! i) = (r1, w1, c1)" by (metis prod.exhaust)
  have "evolves w1 (upd_s (\<lambda>s. s\<lparr>s_conns := (s_conns s)[i := c1]\<rparr>) w1)" by (simp add: evolves_def)
  with f_evolves [OF 1] w' 1 show ?thesis by (auto simp: with_conn_def intro: evolves_trans)
qed

end

lemma WritePacket_evolves: "WritePacket L pk (w, c) = (r, w', c') \<Longrightarrow> evolves w w'"
  by (drule WritePacket_world) auto

lemma read_evolves: "read L (w, c) = (r, w', c') \<Longrightarrow> evolves w w'"
  by (drule read_world) auto

lemma handle_expected_evolves:
  assumes "handle_expected (transfer_callback E) L pk (w, c) = (r, w', c')"
  shows "evolves w w'"
proof (cases rule: packet_kind_cases [of pk])
  case (5 st)
  with assms show ?thesis
    by (auto simp: handle_expected_def handlePlayStatus_def conn_upd_defs Let_def
        split: if_splits prod.splits res.splits option.splits dest!: transfer_callback_evolves)
next
  case 6
  with assms show ?thesis by (simp add: handle_expected_other)
qed (use assms in \<open>auto simp: handle_expected_def handleConnectionResponse_def handleStartGame_def
      handleItemRegistry_def handleChunkRadiusUpdated_def conn_upd_defs Let_def
      split: if_splits prod.splits res.splits dest!: WritePacket_evolves\<close>)

lemma handle_all_evolves: "handle_all (transfer_callback E) L pks (w, c) = (r, w', c') \<Longrightarrow> evolves w w'"
proof (induction pks arbitrary: w c)
  case (Cons pk pks)
  obtain r1 w1 c1 where 1: "handle_expected (transfer_callback E) L pk (w, c) = (r1, w1, c1)" by (metis prod.exhaust)
  from handle_expected_evolves [OF 1] Cons.prems 1 Cons.IH [of w1 c1] show ?case
    by (cases r1) (auto intro: evolves_trans)
qed simp

lemma pass_evolves:
  assumes "ReadPacket_pass (transfer_callback E) L pick (w, c) = Inl (r, w', c') \<or>
    ReadPacket_pass (transfer_callback E) L pick (w, c) = Inr (w', c')"
  shows "evolves w w'"
proof -
  obtain r1 w1 c1 where 1: "read L (w, c) = (r1, w1, c1)" by (metis prod.exhaust)
  note w1 = read_evolves [OF 1]
  show ?thesis
  proof (cases "\<not> c_spawned c \<and> c_ctx c = None \<and> (\<exists>pk. r1 = Ok (Pk pk))")
    case True
    then obtain pk where pk: "r1 = Ok (Pk pk)" by blast
    obtain r2 w2 c2 where 2: "handlePacket (transfer_callback E) L pk (w1, c1) = (r2, w2, c2)" by (metis prod.exhaust)
    then have "evolves w1 w2" unfolding handlePacket_def by (rule handle_all_evolves)
    with assms True 1 2 pk w1 show ?thesis
      by (cases r2) (auto simp: ReadPacket_pass_def intro: evolves_trans)
  next
    case False
    with assms 1 w1 show ?thesis
      by (auto simp: ReadPacket_pass_def split: if_splits list.splits any.splits res.splits)
  qed
qed

lemma ReadPacket_evolves:
  assumes "ReadPacket (transfer_callback E) L pick fuel (w, c) = Some (r, w', c')"
  shows "evolves w w'"
proof -
  have "evolves (fst (w, c)) (fst (w', c'))"
    by (rule ReadPacket_passes [where R = "\<lambda>gc gc'. evolves (fst gc) (fst gc')", OF assms])
       (auto dest: pass_evolves [OF disjI1] pass_evolves [OF disjI2] intro: evolves_trans)
  then show ?thesis by simp
qed

interpretation write_history: conn_history "WritePacket L pk" for L pk
  by unfold_locales (rule WritePacket_evolves)

interpretation connect_history: conn_history "DoConnect L" for L
  by unfold_locales (auto simp: DoConnect_def split: option.splits res.splits dest: WritePacket_evolves)

interpretation spawn_history: conn_history "DoSpawn L" for L
  by unfold_locales (auto dest!: DoSpawn_world)

interpretation close_history: conn_history "CloseWithError (transfer_callback E) e" for E e
  by unfold_locales (auto dest!: CloseWithError_world split: if_splits option.splits)

interpretation register_history: conn_history "\<lambda>(w, c). ((), w, OnConnect cb c)" for cb
  by unfold_locales auto

interpretation batch_history: conn_history "\<lambda>(w, c). let (r, c1) = WriteBatch L bs c in (r, w, c1)" for L bs
  by unfold_locales (auto split: prod.splits)

interpretation read_history: conn_history "\<lambda>wc. case ReadPacket (transfer_callback E) L pick (Suc (length (s_data (c_reader (snd wc))))) wc of
    Some r \<Rightarrow> r | None \<Rightarrow> (Panic ''out of fuel'', wc)" for E L pick
  by unfold_locales (auto split: option.splits dest: ReadPacket_evolves simp del: ReadPacket_Suc)

interpretation pass_history: conn_history "\<lambda>wc. case ReadPacket_pass (transfer_callback E) L pick wc of
    Inl (r, wc1) \<Rightarrow> (Some r, wc1) | Inr wc1 \<Rightarrow> (None, wc1)" for E L pick
  by unfold_locales (auto split: sum.splits dest: pass_evolves [OF disjI1] pass_evolves [OF disjI2])

lemmas conn_evolves = write_history.with_conn_evolves connect_history.with_conn_evolves
  spawn_history.with_conn_evolves close_history.with_conn_evolves register_history.with_conn_evolves
  batch_history.with_conn_evolves read_history.with_conn_evolves

subsection \<open>Operations of the session\<close>

lemma conn_close_evolves:
  assumes "with_conn i (CloseWithError (transfer_callback E) e) w = (r, w')"
  shows "evolves w w'" "r = Ok ()" "s_ctx (w_session w') = s_ctx (w_session w)" "w_registry w' = w_registry w"
proof -
  show "evolves w w'" using assms by (rule close_history.with_conn_evolves)
  from assms show "r = Ok ()" "s_ctx (w_session w') = s_ctx (w_session w)" "w_registry w' = w_registry w"
    by (rule with_conn_close; simp)+
qed

lemma Session_CloseWithError_evolves:
  assumes "Session_CloseWithError E e w = (r, w')"
  shows "evolves w w'"
proof (cases "s_once (w_session w)")
  case False
  let ?w1 = "close_client e (upd_s (\<lambda>s. s\<lparr>s_once := True\<rparr>) w)"
  obtain r2 w2 where 2: "close_server E e ?w1 = (r2, w2)" by fastforce
  have k1: "k_evolves (w_client w) (w_client ?w1)" "s_id (w_session ?w1) = s_id (w_session w)"
    "s_dials (w_session ?w1) = s_dials (w_session w)" "prefix (s_notices (w_session w)) (s_notices (w_session ?w1))"
    "s_ctx (w_session ?w1) = s_ctx (w_session w)" "s_once (w_session ?w1)" "w_registry ?w1 = w_registry w"
    by (auto simp: close_client_def Let_def intro: k_evolves_trans [OF k_evolves_send k_evolves_calls(4)])
  have "evolves ?w1 w2" "r2 = Ok ()" "s_ctx (w_session w2) = s_ctx (w_session ?w1)" "w_registry w2 = w_registry ?w1"
    using 2 by (auto simp: close_server_def split: option.splits dest: conn_close_evolves)
  with k1 2 assms False show ?thesis
    by (auto simp: Session_CloseWithError_def Let_def evolves_def k_evolves_def
        intro: prefix_order.trans split: option.splits)
qed (use assms in auto)

lemma session_dial_evolves:
  assumes "session_dial E addr w = (r, w')"
  shows "evolves w w'"
proof (cases "s_ctx (w_session w)")
  case None
  obtain r1 w1 where 1: "(case s_serverConn (w_session w) of None \<Rightarrow> (Ok (), w)
      | Some i \<Rightarrow> with_conn i (Conn_Close (transfer_callback E)) w) = (r1, w1)" by fastforce
  then have w1: "evolves w w1" "s_ctx (w_session w1) = None"
    using None by (auto simp: Conn_Close_def [abs_def] split: option.splits dest: conn_close_evolves)
  then have "evolves w1 w'"
    using assms None 1 by (auto simp: session_dial_def Let_def evolves_def split: res.splits)
  with w1(1) show ?thesis by (rule evolves_trans)
qed (use assms in \<open>auto simp: session_dial_def\<close>)

lemma transfer_start_evolves:
  assumes "transfer_start E addr w = (r, w')"
  shows "evolves w w'"
proof -
  obtain ctx origin target where p: "ProcessPreTransfer (s_processor (w_session w)) NewContext
      (s_serverAddr (w_session w)) addr = (ctx, origin, target)" by (metis prod.exhaust)
  let ?w1 = "upd_s (\<lambda>s. s\<lparr>s_notices := s_notices s @ [NotedPreTransfer (s_serverAddr (w_session w)) addr]\<rparr>) w"
  let ?w2 = "upd_k (sendMetadata True) ?w1"
  have w1: "evolves w ?w1" "evolves ?w1 ?w2" by (simp add: evolves_def, simp add: evolves_upd_k k_evolves_metadata)
  obtain r3 w3 where 3: "session_dial E target ?w2 = (r3, w3)" by fastforce
  note w3 = evolves_trans [OF evolves_trans [OF w1] session_dial_evolves [OF 3]]
  obtain w4 where w4: "evolves w3 w4" "w' \<in> {?w1, w3, w4} \<or> (\<exists>x a. w' \<in> {notify_failure x a w3, notify_failure x a w4})"
  proof (cases r3)
    case (Ok i)
    obtain r4 w4 where 4: "with_conn i (DoConnect (e_lib E)) w3 = (r4, w4)" by fastforce
    then have "evolves w3 w4" by (rule connect_history.with_conn_evolves)
    with that [of w4] assms p 3 4 Ok show ?thesis
      by (cases r4) (auto simp: transfer_start_def Let_def split: if_splits)
  qed (use that [of w3] assms p 3 in \<open>auto simp: transfer_start_def Let_def split: if_splits\<close>)
  with w1 w3 show ?thesis by (auto intro: evolves_trans [OF _ evolves_notify(1)] evolves_trans [OF w3])
qed

lemma transfer_register_evolves: "evolves w (transfer_register icb w)"
  using register_history.with_conn_evolves [OF prod.collapse [symmetric]]
  by (simp add: transfer_register_def case_prod_beta)

lemma TransferContext_evolves: "TransferContext E addr w = (r, w') \<Longrightarrow> evolves w w'"
  by (auto simp: TransferContext_def split: prod.splits res.splits dest!: transfer_start_evolves
      intro: evolves_trans [OF _ transfer_register_evolves])

lemma Session_Transfer_evolves: "Session_Transfer E addr w = (r, w') \<Longrightarrow> evolves w w'"
  unfolding Session_Transfer_def by (rule TransferContext_evolves)

lemma fallback_evolves:
  assumes "fallback E w = (r, w')"
  shows "evolves w w'"
proof -
  have "evolves w (upd_s (\<lambda>s. s\<lparr>s_inFallback := True\<rparr>) w)" by (simp add: evolves_def)
  with assms show ?thesis
    by (auto simp: fallback_def Let_def split: option.splits if_splits res.splits prod.splits
        dest!: Session_Transfer_evolves intro: evolves_trans)
qed

lemma login_start_evolves: "login_start E w = (r, w') \<Longrightarrow> evolves w w'"
  by (auto simp: login_start_def split: res.splits prod.splits
      dest!: session_dial_evolves connect_history.with_conn_evolves intro: evolves_trans)

lemma login_spawn_evolves:
  assumes "login_spawn E i waited w = (r, w')"
  shows "evolves w w'"
proof (cases waited)
  case (Some e)
  with assms show ?thesis
    by (auto simp: login_spawn_def split: prod.splits res.splits dest!: conn_close_evolves(1))
next
  case None
  let ?gd = "snd (ProcessStartGame (s_processor (w_session w)) NewContext (c_gameData (s_conns (w_session w) ! i)))"
  let ?w1 = "upd_s (\<lambda>s. s\<lparr>s_notices := s_notices s @ [NotedStartGame]\<rparr>) w"
  let ?w2 = "upd_k (\<lambda>_. snd (k_StartGame ?gd (w_client ?w1))) ?w1"
  have "evolves w ?w1" by (simp add: evolves_def)
  moreover have "evolves ?w1 ?w2" by (rule evolves_upd_k) (rule k_evolves_StartGame)
  ultimately have w2: "evolves w ?w2" by (rule evolves_trans)
  obtain r3 k where k: "k_StartGame ?gd (w_client ?w1) = (r3, k)" by fastforce
  with assms None w2 show ?thesis
    by (cases r3) (auto simp: login_spawn_def Let_def case_prod_beta
        dest!: spawn_history.with_conn_evolves intro: evolves_trans)
qed

lemma login_register_evolves: "evolves w (login_register w)"
  by (simp add: login_register_def evolves_def)

subsection \<open>Turns of the loops\<close>

lemma leave_evolves: "evolves w (snd (leave_after (Session_CloseWithError E e w)))"
  using Session_CloseWithError_evolves [OF prod.collapse [symmetric]] by (simp add: leave_after_snd)

lemma after_write_evolves:
  assumes "k_evolves (w_client w) (snd rk)"
  shows "evolves w (snd (after_write E msg rk w))"
proof -
  have "evolves w (upd_k (\<lambda>_. snd rk) w)" using assms by (rule evolves_upd_k)
  then show ?thesis
    by (auto simp: after_write_def Let_def split: option.split intro: evolves_trans [OF _ leave_evolves])
qed

lemma forward_evolves: "evolves w (snd (forward_packet E pk w))" "evolves w (snd (forward_raw E b w))"
proof -
  have t: "evolves (w\<lparr>pkCtxPool := q\<rparr>) (track E p (w\<lparr>pkCtxPool := q\<rparr>))" for p q
    by (simp add: track_def evolves_def)
  show "evolves w (snd (forward_packet E pk w))"
    by (auto simp: forward_packet_def Let_def case_prod_beta k_evolves_calls
        intro!: evolves_trans [OF evolves_trans [OF evolves_pools(2) t] after_write_evolves])
  show "evolves w (snd (forward_raw E b w))"
    by (auto simp: forward_raw_def Let_def case_prod_beta k_evolves_calls
        intro!: evolves_trans [OF evolves_pools(2) after_write_evolves])
qed

lemma server_failed_evolves: "evolves w (snd (server_failed E i e w))"
  by (auto simp: server_failed_def split: prod.splits res.splits
      dest!: conn_close_evolves(1) fallback_evolves intro: evolves_trans evolves_trans [OF evolves_trans leave_evolves])

lemma evolves_set: "evolves w (SetAnimation a w)" "evolves w (SetProcessor p w)" "evolves w (client_gone e w)"
  by (simp_all add: evolves_def SetAnimation_def SetProcessor_def client_gone_def split: option.split)

lemma SetCache_evolves: "evolves w (SetCache b w)"
  by (simp add: SetCache_def Let_def case_prod_beta) (simp add: evolves_def)

lemma server_handle_evolves: "evolves w (snd (server_handle E i r w))"
proof -
  have "evolves w (upd_s (\<lambda>s. s\<lparr>s_latency := l\<rparr>) w)" for l by (simp add: evolves_def)
  then show ?thesis
    by (auto simp: server_handle_def server_failed_evolves forward_evolves SetCache_evolves after_write_evolves k_evolves_calls
        split: res.split any.split packet.split prod.split dest: Session_Transfer_evolves)
qed

lemma batch_evolves:
  "decode_batch E l ps w = (r, l', w') \<Longrightarrow> evolves w w'" "encode_batch E l cs w = (r2, l', w') \<Longrightarrow> evolves w w'"
  by (auto dest: decode_batch_pool encode_batch_pool)

lemma handleClientBatch_evolves:
  assumes "handleClientBatch E l ps w = (r, l', w')"
  shows "evolves w w'"
proof -
  obtain r1 l1 w1 where 1: "decode_batch E l ps w = (r1, l1, w1)" by (metis prod.exhaust)
  note w1 = batch_evolves(1) [OF 1]
  show ?thesis
  proof (cases r1)
    case (Ok cs)
    obtain r2 l2 w2 where 2: "encode_batch E l1 (ProcessClient (s_processor (w_session w1)) cs) w1 = (r2, l2, w2)"
      by (metis prod.exhaust)
    note w2 = evolves_trans [OF w1 batch_evolves(2) [OF 2]]
    show ?thesis
    proof (cases "\<exists>bs i. r2 = Ok bs \<and> s_serverConn (w_session w2) = Some i")
      case True
      then obtain bs i where i: "r2 = Ok bs" "s_serverConn (w_session w2) = Some i" by blast
      let ?f = "\<lambda>(g, c). let (r, c1) = WriteBatch (e_lib E) bs c in (r, g, c1)"
      obtain r3 w3 where 3: "with_conn i ?f w2 = (r3, w3)" by fastforce
      from assms 1 2 3 Ok i evolves_trans [OF w2 batch_history.with_conn_evolves [OF 3]] show ?thesis
        by (cases r3) (auto simp: handleClientBatch_def recover_batch_def Let_def)
    qed (use assms 1 2 Ok w2 in \<open>auto simp: handleClientBatch_def recover_batch_def split: res.splits option.splits\<close>)
  qed (use assms 1 w1 in \<open>auto simp: handleClientBatch_def recover_batch_def\<close>)
qed

lemma client_turn_evolves: "evolves w (snd (snd (client_turn E l w)))"
proof (cases "s_ctx (w_session w)")
  case (Some e)
  then show ?thesis by (simp add: client_turn_def case_prod_beta leave_evolves Let_def)
next
  case None
  obtain r k where r: "k_ReadBatchBytes (w_client w) = (r, k)" by fastforce
  let ?w1 = "upd_k (\<lambda>_. k) w"
  have w1: "evolves w ?w1" using k_evolves_ReadBatchBytes [of "w_client w"] r by (simp add: evolves_upd_k)
  show ?thesis
  proof (cases r)
    case (Ok ps)
    obtain r2 l2 w2 where 2: "handleClientBatch E l ps ?w1 = (r2, l2, w2)" by (metis prod.exhaust)
    note w2 = evolves_trans [OF w1 handleClientBatch_evolves [OF 2]]
    have "evolves w (snd (with_conn i (CloseWithError (transfer_callback E) e) w2))" for i e
      using w2 close_history.with_conn_evolves [OF prod.collapse [symmetric]] by (rule evolves_trans)
    then show ?thesis using None r Ok 2 w2
      by (cases r2) (auto simp: client_turn_def case_prod_beta leave_after_snd Let_def split: option.split)
  qed (use None r w1 evolves_trans [OF w1 leave_evolves] in \<open>simp_all add: client_turn_def case_prod_beta Let_def\<close>)
qed

lemma latency_turn_evolves: "evolves w (snd (latency_turn E tick w))"
  by (auto simp: latency_turn_def leave_evolves split: option.split prod.split res.split
      dest: write_history.with_conn_evolves)

lemma server_read_evolves: "evolves w (snd (server_read E pick i w))"
  unfolding server_read_def by (rule read_history.with_conn_evolves [OF prod.collapse [symmetric]])

lemma server_pass_evolves: "evolves w (snd (server_pass E pick i w))"
  unfolding server_pass_def by (rule pass_history.with_conn_evolves [OF prod.collapse [symmetric]])

lemma session_run_evolves: "session_run E w0 w \<Longrightarrow> evolves w0 w"
proof (induction rule: session_run.induct)
  case (login w net)
  from this(2) login_start_evolves [OF prod.collapse [symmetric]] show ?case by (rule evolves_trans)
next
  case (finish w i waited deadline)
  from this(4) login_spawn_evolves [OF prod.collapse [symmetric]] show ?case by (rule evolves_trans)
next
  case (transfer w net addr)
  from this(2) transfer_start_evolves [OF prod.collapse [symmetric]] show ?case by (rule evolves_trans)
next
  case (close w e)
  from this(2) Session_CloseWithError_evolves [OF prod.collapse [symmetric]] show ?case by (rule evolves_trans)
qed (auto intro: evolves_trans [OF _ login_register_evolves] evolves_trans [OF _ server_read_evolves]
    evolves_trans [OF _ server_pass_evolves]
    evolves_trans [OF _ server_handle_evolves] evolves_trans [OF _ client_turn_evolves]
    evolves_trans [OF _ latency_turn_evolves] evolves_trans [OF _ transfer_register_evolves]
    evolves_trans [OF _ SetCache_evolves] evolves_trans [OF _ evolves_set(1)] evolves_trans [OF _ evolves_set(2)]
    evolves_trans [OF _ evolves_set(3)])

text \<open>A session whose context is done: the next turn of each loop closes it and leaves.\<close>

lemma done_session_leaves:
  assumes "s_ctx (w_session w) = Some e"
  shows "fst (server_turn E pick w) = Leave" "s_once (w_session (snd (server_turn E pick w)))"
    "fst (client_turn E l w) = Leave" "s_once (w_session (snd (snd (client_turn E l w))))"
    "fst (latency_turn E None w) = Leave" "s_once (w_session (snd (latency_turn E None w)))"
proof -
  obtain t w' where 1: "leave_after (Session_CloseWithError E e w) = (t, w')" by fastforce
  then have "t = Leave" "s_once (w_session w')" using close_leaves by auto
  with assms 1 show "fst (server_turn E pick w) = Leave" "s_once (w_session (snd (server_turn E pick w)))"
    "fst (client_turn E l w) = Leave" "s_once (w_session (snd (snd (client_turn E l w))))"
    "fst (latency_turn E None w) = Leave" "s_once (w_session (snd (latency_turn E None w)))"
    by (simp_all add: server_turn_def client_turn_def latency_turn_def)
qed

text \<open>A read that was under way fails; its turn leaves, or the next one does.\<close>

lemma done_session_read_fails:
  assumes "s_ctx (w_session w) = Some e"
  shows "fst (server_handle E i (Err e') w) = (if s_serverConn (w_session w) = Some i then Leave else Continue)"
proof (cases "s_serverConn (w_session w) = Some i")
  case True
  obtain r w1 where 1: "with_conn i (CloseWithError (transfer_callback E) (Wrapf ''failed to read packet from server'' e')) w = (r, w1)"
    by fastforce
  with conn_close_evolves [OF 1] assms have "fallback E w1 = (Err e, w1)" "r = Ok ()" by (simp_all add: fallback_def)
  moreover obtain t w' where 2: "leave_after (Session_CloseWithError E (Wrapf ''fallback failed'' e) w1) = (t, w')" by fastforce
  moreover have "t = Leave" using close_leaves [OF 2] by blast
  ultimately show ?thesis using True 1 by (simp add: server_handle_def server_failed_def)
qed (simp add: server_handle_def server_failed_def)

section \<open>Properties\<close>





text \<open>
  \<^verbatim>\<open>LoginContext\<close> registers the session without looking whether it is still open. If it was closed
  after the player had been spawned and before that point, the registry keeps a closed session: the
  account is found by every lookup, and no later close of the session takes it out again.
\<close>

lemma closed_session_stays_registered:
  assumes "Session_CloseWithError E e w = (r, w1)" "w2 = login_register w1"
  shows "s_once (w_session w2) \<and>
    GetSession (k_XUID (w_client w)) (w_registry w2) = Some (s_id (w_session w)) \<and>
    Session_CloseWithError E e' w2 = (Ok (), w2)"
proof -
  have "leave_after (Session_CloseWithError E e w) = (case r of Panic m \<Rightarrow> Crash m | _ \<Rightarrow> Leave, w1)"
    unfolding assms(1) by (cases r) (simp_all add: leave_after_def)
  from close_leaves [OF this] have "s_once (w_session w1)" by blast
  with Session_CloseWithError_evolves [OF assms(1)] assms(2) show ?thesis
    by (simp add: login_register_def AddSession_def GetSession_def evolves_def k_evolves_def)
qed

lemma closed_session_stays_registered_witness:
  "\<exists>w1. Session_CloseWithError demo_env EOF demo_world = (Ok (), w1) \<and>
    GetSession ''1'' (w_registry (login_register w1)) = Some 0 \<and> s_once (w_session (login_register w1))"
proof -
  obtain r w1 where 1: "Session_CloseWithError demo_env EOF demo_world = (r, w1)" by fastforce
  have "r = Ok ()" using session_close_effect [OF _ _ _ 1] by (simp add: session_wf_def NewSession_def tracker_finite_def newTracker_def)
  with closed_session_stays_registered [OF 1 refl] 1 show ?thesis by (simp add: NewSession_def)
qed

text \<open>
  The loops close the session before they log the error that ended them. By then the context of the
  session is done, which is where \<^verbatim>\<open>logError\<close> returns: no error of a write to the player, a flush or
  a read from the player is ever logged.
\<close>

lemma errors_after_close_not_logged:
  assumes "s_once (w_session w) \<longrightarrow> s_ctx (w_session w) \<noteq> None" "Session_CloseWithError E e w = (r, w')"
  shows "logError (w_session w') msg err = None"
proof -
  have "s_once (w_session w')" using close_leaves [of E e w] assms(2) by (cases r) (auto simp: leave_after_def)
  with Session_CloseWithError_evolves [OF assms(2)] assms(1) have "s_ctx (w_session w') \<noteq> None"
    by (auto simp: evolves_def)
  then show ?thesis by (auto simp: logError_def split: option.split)
qed

end
