(* ===== verification/Connection_Sequence.thy ===== *)
theory Connection_Sequence
  imports Session
begin

text \<open>
  The connection sequence of a downstream connection as a session drives it: what \<open>connect_callback\<close>
  gives for the callback of a transfer (\<open>transfer\<close>), with the starting state of a connection just
  dialled. The runs are those of \<open>conn_run\<close>, with whatever the server sends.
\<close>

section \<open>Definitions\<close>

text \<open>A connection on which the request has been sent and a callback may have been registered.\<close>

definition dialled_conn ::
  "mclib \<Rightarrow> stream \<times> sink \<Rightarrow> client_info \<Rightarrow> bool \<Rightarrow> bytes \<Rightarrow> writer \<Rightarrow> callback option \<Rightarrow> callback conn" where
  "dialled_conn L io client sync cache wr cb = (NewConn L io client sync cache)\<lparr>c_writer := wr, c_onConnect := cb\<rparr>"

text \<open>The packets that the sequence consumes, and the two it also keeps.\<close>

definition expected_packets :: "bool \<Rightarrow> u64 \<Rightarrow> i64 \<Rightarrow> start_game \<Rightarrow> item_entry list \<Rightarrow> any list" where
  "expected_packets modern rid uid sg items =
     [Pk (ConnectionResponse rid uid), Pk (StartGame sg)] @ (if modern then [Pk (ItemRegistry items)] else [])"

section \<open>Lemmas\<close>

lemma dialled_conn_init:
  assumes "ids_ok L"
  shows "conn_seq L (dialled_conn L io client sync cache wr cb) = seq_init \<and> conn_inv L (dialled_conn L io client sync cache wr cb)"
  by (simp add: dialled_conn_def conn_seq_def seq_init_def conn_phase_def conn_inv_def NewConn_def expect_def Let_def)

lemma dialled_run:
  assumes "ids_ok (e_lib E)"
    "conn_run (transfer_callback E) (e_lib E) (dialled_conn (e_lib E) io client sync cache wr cb) xs (w, c)"
  shows "conn_inv (e_lib E) c \<and> conn_seq (e_lib E) c =
      fold (seq_step (conn_modern (dialled_conn (e_lib E) io client sync cache wr cb))) xs seq_init \<and>
    seq_inv (conn_modern (dialled_conn (e_lib E) io client sync cache wr cb)) xs (conn_seq (e_lib E) c)"
proof -
  note init = dialled_conn_init [OF assms(1), of io client sync cache wr cb]
  from transfer.conn_run_refines [OF assms(1) _ assms(2)] init
  have "conn_inv (e_lib E) c" "conn_seq (e_lib E) c =
      fold (seq_step (conn_modern (dialled_conn (e_lib E) io client sync cache wr cb))) xs seq_init" by simp_all
  with seq_inv_fold [OF seq_inv_init, of _ xs] show ?thesis by simp
qed

lemma dialled_sync:
  "conn_run (transfer_callback E) L c0 xs wc \<Longrightarrow> c_syncProtocol (snd wc) = c_syncProtocol c0"
proof (induction rule: conn_run.induct)
  case (packet xs g c p g1 c1 u gc2)
  obtain g2 c2 where gc2: "gc2 = (g2, c2)" by fastforce
  with packet.hyps(4) have "c_syncProtocol c2 = c_syncProtocol c1"
    unfolding handlePacket_def using transfer.handle_all_reader by blast
  with read_frame [OF packet.hyps(3)] packet.IH gc2 show ?case by simp
next
  case (raw xs g c b g1 c1)
  with read_frame [OF raw.hyps(3)] show ?case by (simp add: deferPacket_def)
qed simp

subsection \<open>A complete sequence\<close>

definition demo_frame :: "u32 \<Rightarrow> bytes" where
  "demo_frame i = frame (1 # le32 i @ [0, 0])"

definition demo_response :: bytes where
  "demo_response = server_frame demo_lib False (server_body demo_lib demo_writer
     \<lparr>h_PacketID = 501, h_SenderSubClient = 0, h_TargetSubClient = 0\<rparr> (ConnectionResponse 7 9))"

definition demo_script :: bytes where
  "demo_script = demo_response @ demo_frame 9 @ demo_frame 11 @ demo_frame 162 @ demo_frame 70 @ demo_frame 2"

text \<open>Where the demonstration connection stands.\<close>

definition demo_at :: "u32 list \<Rightarrow> bytes \<Rightarrow> bool \<Rightarrow> callback conn \<Rightarrow> bool" where
  "demo_at ids rest con c \<longleftrightarrow>
     c_expectedIds c = ids \<and> c_reader c = \<lparr>s_data = rest, s_end = EOF\<rparr> \<and> c_connected c = con \<and>
     \<not> c_spawned c \<and> c_ctx c = None \<and>
     (ids \<in> {[501], [11], [162]} \<longrightarrow> writer_wf (c_writer c) \<and> k_faults (w_w (c_writer c)) = []) \<and>
     c_pool c = demo_pool \<and> c_protocol c = demo_proto \<and> \<not> c_syncProtocol c \<and> c_onConnect c = None"

lemma demo_read_vanilla:
  assumes "demo_at ids (demo_frame i @ rest) b c" "demo_pool i = Some pk" "\<not> spectrum_packet pk"
    "\<And>io buf. Marshal demo_lib io pk buf = (Ok pk, buf)"
  shows "\<exists>g'. read demo_lib (g, c) = (Ok (Pk pk), g', c\<lparr>c_reader := \<lparr>s_data = rest, s_end = EOF\<rparr>\<rparr>)"
proof -
  have "Reader_ReadPacket (c_reader c) = (Ok (1 # le32 i @ [0, 0]), \<lparr>s_data = rest, s_end = EOF\<rparr>)"
    using frames.dec_enc [of "1 # le32 i @ [0, 0]" rest EOF] assms(1) by (simp add: demo_at_def demo_frame_def)
  moreover have "mc_HeaderRead demo_lib h (le32 i @ [0, 0]) =
      (Ok (), \<lparr>h_PacketID = i, h_SenderSubClient = 0, h_TargetSubClient = 0\<rparr>, [])" for h
    by (simp add: demo_lib_def demo_HeaderRead_def demo_r32_le32)
  ultimately show ?thesis
    using assms by (simp add: read_def decode_server_packet_def demo_at_def case_prod_beta)
qed

lemma demo_packet:
  assumes "conn_run run demo_lib c0 xs (g, c)" "demo_at ids s b c"
    "read demo_lib (g, c) = (Ok (Pk pk), g1, c\<lparr>c_reader := \<lparr>s_data = rest, s_end = EOF\<rparr>\<rparr>)"
    "handle_expected run demo_lib pk (g1, c\<lparr>c_reader := \<lparr>s_data = rest, s_end = EOF\<rparr>\<rparr>) = (Ok (), g2, c2)"
  shows "conn_run run demo_lib c0 (xs @ [Pk pk]) (g2, c2)"
  using conn_run.packet [OF assms(1) _ assms(3), of "()" "(g2, c2)"] assms(2,4)
  by (simp add: demo_at_def handlePacket_def)

lemma demo_step_response:
  assumes "demo_at [501] (demo_response @ rest) False c"
  shows "\<exists>g1 g2 c2. read demo_lib (g, c) = (Ok (Pk (ConnectionResponse 7 9)), g1, c\<lparr>c_reader := \<lparr>s_data = rest, s_end = EOF\<rparr>\<rparr>) \<and>
    handle_expected run demo_lib (ConnectionResponse 7 9) (g1, c\<lparr>c_reader := \<lparr>s_data = rest, s_end = EOF\<rparr>\<rparr>) = (Ok (), g2, c2) \<and>
    demo_at [11] rest False c2"
proof -
  let ?h = "\<lparr>h_PacketID = 501, h_SenderSubClient = 0, h_TargetSubClient = 0\<rparr>"
  have len: "length (server_body demo_lib demo_writer ?h (ConnectionResponse 7 9)) < 2 ^ 31"
    by (simp add: server_body_def demo_lib_def Marshal_def ConnectionResponse_Marshal_def demo_writer_def demo_w64_def)
  have "read demo_lib (g, c) = (Ok (Pk (ConnectionResponse 7 9)), headerPool_Put ?h (snd (headerPool_Get g)),
      c\<lparr>c_reader := \<lparr>s_data = rest, s_end = EOF\<rparr>\<rparr>)"
    using assms len
    by (intro read_sent_packet [of demo_writer _ _ _ _ "ConnectionResponse 0 0" False])
       (simp_all add: demo_at_def demo_proto_def demo_io_codec demo_header_codec demo_snappy_codec header_ok_def
         factory_of_def registered_from_server_def demo_pool_def spectrum_id_defs demo_response_def)
  then show ?thesis
    using assms by (simp add: handle_expected_def handleConnectionResponse_def demo_at_def expect_def demo_lib_def spectrum_id_defs)
qed

lemma demo_pool_simps:
  "demo_pool 11 = Some (StartGame demo_start_game)"
  "demo_pool 162 = Some (ItemRegistry [\<lparr>it_Name = ''minecraft:shield'', it_RuntimeID = 355\<rparr>])"
  "demo_pool 70 = Some (ChunkRadiusUpdated 8)" "demo_pool 2 = Some (PlayStatus PlayStatusPlayerSpawn)"
  "demo_pool 9 = Some (OtherPacket 9 [])"
  by (simp_all add: demo_pool_def)

text \<open>One step of the demonstration for a vanilla packet.\<close>

lemma demo_step:
  assumes "conn_run run demo_lib c0 xs (g, c)" "demo_at ids (demo_frame i @ rest) b c" "demo_pool i = Some pk"
    "\<not> spectrum_packet pk" "\<And>io buf. Marshal demo_lib io pk buf = (Ok pk, buf)"
    and handled: "\<And>g1. \<exists>g2 c2. handle_expected run demo_lib pk (g1, c\<lparr>c_reader := \<lparr>s_data = rest, s_end = EOF\<rparr>\<rparr>) =
      (Ok (), g2, c2) \<and> demo_at ids' rest b' c2"
  shows "\<exists>g2 c2. conn_run run demo_lib c0 (xs @ [Pk pk]) (g2, c2) \<and> demo_at ids' rest b' c2"
proof -
  obtain g1 where read: "read demo_lib (g, c) = (Ok (Pk pk), g1, c\<lparr>c_reader := \<lparr>s_data = rest, s_end = EOF\<rparr>\<rparr>)"
    using demo_read_vanilla [OF assms(2-5)] by blast
  obtain g2 c2 where "handle_expected run demo_lib pk (g1, c\<lparr>c_reader := \<lparr>s_data = rest, s_end = EOF\<rparr>\<rparr>) = (Ok (), g2, c2)"
    "demo_at ids' rest b' c2" using handled by blast
  with demo_packet [OF assms(1,2) read] show ?thesis by blast
qed

lemma demo_step_other:
  assumes "demo_at ids (demo_frame 9 @ rest) b c" "9 \<notin> set ids"
  shows "\<exists>g2 c2. handle_expected run demo_lib (OtherPacket 9 []) (g1, c\<lparr>c_reader := \<lparr>s_data = rest, s_end = EOF\<rparr>\<rparr>) =
    (Ok (), g2, c2) \<and> demo_at ids rest b c2"
  using assms by (simp add: handle_expected_def demo_at_def deferPacket_def demo_lib_def)

lemma demo_step_startgame:
  assumes "demo_at [11] (demo_frame 11 @ rest) b c"
  shows "\<exists>g2 c2. handle_expected run demo_lib (StartGame sg) (g1, c\<lparr>c_reader := \<lparr>s_data = rest, s_end = EOF\<rparr>\<rparr>) =
    (Ok (), g2, c2) \<and> demo_at [162] rest b c2"
  using assms
  by (simp add: handle_expected_def handleStartGame_def demo_at_def expect_def demo_lib_def demo_proto_def)

lemma demo_step_items:
  assumes "demo_at [162] (demo_frame 162 @ rest) b c"
  shows "\<exists>g2 c2. handle_expected run demo_lib (ItemRegistry items) (g1, c\<lparr>c_reader := \<lparr>s_data = rest, s_end = EOF\<rparr>\<rparr>) =
    (Ok (), g2, c2) \<and> demo_at [70] rest b c2"
proof -
  let ?c = "c\<lparr>c_reader := \<lparr>s_data = rest, s_end = EOF\<rparr>, c_expectedIds := [70],
    c_gameData := (c_gameData c)\<lparr>gd_Items := items\<rparr>, c_shieldID := find_shield items (c_shieldID c)\<rparr>"
  obtain h g' where "headerPool_Get g1 = (h, g')" by fastforce
  then obtain w g2 where "WritePacket demo_lib (RequestChunkRadius 16) (g1, ?c) = (Ok (), g2, ?c\<lparr>c_writer := w\<rparr>)"
    using WritePacket_sends [of ?c demo_lib g1 h g' "RequestChunkRadius 16"] assms demo_snappy_codec
    by (auto simp: demo_at_def demo_lib_def Marshal_def)
  with assms show ?thesis
    by (simp add: handle_expected_def handleItemRegistry_def demo_at_def expect_def demo_lib_def Let_def)
qed

lemma demo_step_radius:
  assumes "demo_at [70] (demo_frame 70 @ rest) b c"
  shows "\<exists>g2 c2. handle_expected run demo_lib (ChunkRadiusUpdated rad) (g1, c\<lparr>c_reader := \<lparr>s_data = rest, s_end = EOF\<rparr>\<rparr>) =
    (Ok (), g2, c2) \<and> demo_at [2] rest b c2"
  using assms
  by (simp add: handle_expected_def handleChunkRadiusUpdated_def demo_at_def conn_upd_defs demo_lib_def Let_def)

lemma demo_step_status:
  assumes "demo_at [2] (demo_frame 2 @ rest) False c"
  shows "\<exists>g2 c2. handle_expected run demo_lib (PlayStatus st) (g1, c\<lparr>c_reader := \<lparr>s_data = rest, s_end = EOF\<rparr>\<rparr>) =
    (Ok (), g2, c2) \<and> demo_at [2] rest True c2"
  using assms
  by (simp add: handle_expected_def handlePlayStatus_def demo_at_def conn_upd_defs demo_lib_def Let_def)

definition demo_dialled :: "bytes \<Rightarrow> callback conn" where
  "demo_dialled input = dialled_conn demo_lib (\<lparr>s_data = input, s_end = EOF\<rparr>, \<lparr>k_out = [], k_faults = []\<rparr>)
     demo_client_info False [] (NewWriter \<lparr>k_out = [], k_faults = []\<rparr>) None"

definition demo_received :: "any list" where
  "demo_received = [Pk (ConnectionResponse 7 9), Pk (OtherPacket 9 []), Pk (StartGame demo_start_game),
     Pk (ItemRegistry [\<lparr>it_Name = ''minecraft:shield'', it_RuntimeID = 355\<rparr>]), Pk (ChunkRadiusUpdated 8),
     Pk (PlayStatus PlayStatusPlayerSpawn)]"

lemma demo_dialled_at: "demo_at [501] input False (demo_dialled input)"
  by (simp add: demo_at_def demo_dialled_def dialled_conn_def NewConn_def expect_def demo_lib_def demo_proto_def
      spectrum_id_defs Let_def) (simp add: NewWriter_def)

lemma demo_run:
  "\<exists>g c. conn_run run demo_lib (demo_dialled (demo_script @ rest)) demo_received (g :: 'w glob_scheme, c) \<and> demo_at [2] rest True c"
proof -
  let ?c0 = "demo_dialled (demo_script @ rest)"
  let ?r5 = "demo_frame 2 @ rest" let ?r4 = "demo_frame 70 @ ?r5" let ?r3 = "demo_frame 162 @ ?r4"
  let ?r2 = "demo_frame 11 @ ?r3" let ?r1 = "demo_frame 9 @ ?r2"
  have c0: "demo_at [501] (demo_response @ ?r1) False ?c0"
    using demo_dialled_at [of "demo_script @ rest"] by (simp add: demo_script_def)
  obtain g :: "'w glob_scheme" where "conn_run run demo_lib ?c0 [] (g, ?c0)" using conn_run.start by blast
  with demo_step_response [OF c0, of g run] demo_packet [OF _ c0]
  obtain g1 :: "'w glob_scheme" and c1 where 1: "conn_run run demo_lib ?c0 [Pk (ConnectionResponse 7 9)] (g1, c1)"
    "demo_at [11] ?r1 False c1" by (metis append_Nil)
  note m = Marshal_def demo_lib_def
  from demo_step [OF 1 demo_pool_simps(5) _ _ demo_step_other [OF 1(2)]]
  obtain g2 c2 where 2: "conn_run run demo_lib ?c0 ([Pk (ConnectionResponse 7 9)] @ [Pk (OtherPacket 9 [])]) (g2, c2)"
    "demo_at [11] ?r2 False c2" by (auto simp: m)
  from demo_step [OF 2 demo_pool_simps(1) _ _ demo_step_startgame [OF 2(2)]]
  obtain g3 c3 where 3: "conn_run run demo_lib ?c0 (([Pk (ConnectionResponse 7 9)] @ [Pk (OtherPacket 9 [])]) @
      [Pk (StartGame demo_start_game)]) (g3, c3)" "demo_at [162] ?r3 False c3" by (auto simp: m)
  from demo_step [OF 3 demo_pool_simps(2) _ _ demo_step_items [OF 3(2)]]
  obtain g4 c4 where 4: "conn_run run demo_lib ?c0 ((([Pk (ConnectionResponse 7 9)] @ [Pk (OtherPacket 9 [])]) @
      [Pk (StartGame demo_start_game)]) @ [Pk (ItemRegistry [\<lparr>it_Name = ''minecraft:shield'', it_RuntimeID = 355\<rparr>])])
      (g4, c4)" "demo_at [70] ?r4 False c4" by (auto simp: m)
  from demo_step [OF 4 demo_pool_simps(3) _ _ demo_step_radius [OF 4(2)]]
  obtain g5 c5 where 5: "conn_run run demo_lib ?c0 (((([Pk (ConnectionResponse 7 9)] @ [Pk (OtherPacket 9 [])]) @
      [Pk (StartGame demo_start_game)]) @ [Pk (ItemRegistry [\<lparr>it_Name = ''minecraft:shield'', it_RuntimeID = 355\<rparr>])]) @
      [Pk (ChunkRadiusUpdated 8)]) (g5, c5)" "demo_at [2] ?r5 False c5" by (auto simp: m)
  from demo_step [OF 5 demo_pool_simps(4) _ _ demo_step_status [OF 5(2)]] show ?thesis
    by (auto simp: m demo_received_def)
qed

section \<open>Properties\<close>

text \<open>
  C1. A connection gets connected only by the complete sequence, in this order: connection response,
  start game, item registry (from protocol 776 on), chunk radius, play status, with anything in
  between. The first three are consumed; everything else that was received is deferred, the last
  two included, and nothing is lost, duplicated or reordered. The game data are those of the start
  game packet, under the identifiers of the connection response, with the items and the radius.
\<close>

theorem connection_sequence_in_order:
  assumes "ids_ok (e_lib E)" "c0 = dialled_conn (e_lib E) io client sync cache wr cb"
    and "conn_run (transfer_callback E) (e_lib E) c0 xs (w, c)" "c_connected c"
  shows "\<exists>sg items rad st.
    (let consumed = expected_packets (conn_modern c0) (c_runtimeID c) (c_uniqueID c) sg items;
         data = startgame_data sg (c_uniqueID c) (c_runtimeID c)
     in xs \<in> shuffles (c_deferred c) consumed \<and>
        subseq (consumed @ [Pk (ChunkRadiusUpdated rad), Pk (PlayStatus st)]) xs \<and>
        c_gameData c = (if conn_modern c0 then data\<lparr>gd_Items := items\<rparr> else data)\<lparr>gd_ChunkRadius := rad\<rparr>)"
proof -
  from dialled_run [OF assms(1) assms(3) [unfolded assms(2)]]
  have "seq_inv (conn_modern c0) xs (conn_seq (e_lib E) c)" unfolding assms(2) by blast
  then obtain sg items rad st where
    "xs \<in> shuffles (c_deferred c) (seq_consumed Connected (c_runtimeID c) (c_uniqueID c) sg items (conn_modern c0))"
    "subseq (seq_consumed Connected (c_runtimeID c) (c_uniqueID c) sg items (conn_modern c0) @ seq_kept Connected rad st) xs"
    "seq_data Connected (conn_modern c0) sg items rad (c_runtimeID c) (c_uniqueID c) (c_gameData c)"
    using assms(4) by (auto simp: conn_seq_def conn_phase_def elim: seq_invE)
  then show ?thesis
    by (intro exI [of _ sg] exI [of _ items] exI [of _ rad] exI [of _ st])
       (auto simp: seq_parts expected_packets_def)
qed

theorem connection_sequence_in_order_witness:
  "\<exists>w c sg items. conn_run (transfer_callback demo_env) demo_lib (demo_dialled demo_script) demo_received (w, c) \<and>
    c_connected c \<and> demo_received \<in> shuffles (c_deferred c) (expected_packets True (c_runtimeID c) (c_uniqueID c) sg items)"
proof -
  obtain w c where run: "conn_run (transfer_callback demo_env) demo_lib (demo_dialled demo_script) demo_received (w, c)"
    "demo_at [2] [] True c"
    using demo_run [of "transfer_callback demo_env" "[]"] by auto
  then have con: "c_connected c" by (simp add: demo_at_def)
  have modern: "conn_modern (demo_dialled demo_script)"
    by (simp add: conn_modern_def demo_dialled_def dialled_conn_def NewConn_def expect_def demo_lib_def demo_proto_def Let_def)
  from connection_sequence_in_order [OF _ demo_dialled_def [of demo_script, folded demo_simps(6)] _ con, of demo_received w]
    run(1) con demo_ids_ok modern show ?thesis by (auto simp: Let_def)
qed

text \<open>
  C25. \<^verbatim>\<open>ReadPacket\<close> always returns: as many recursive calls as there are bytes left on the stream, and
  one more, are enough, whatever the server sends and whatever the callback does.
\<close>

theorem ReadPacket_terminates:
  "\<exists>r. ReadPacket (transfer_callback E) L pick (Suc (length (s_data (c_reader c)))) (w, c) = Some r"
  by (rule transfer.ReadPacket_returns) simp

text \<open>
  C36. A second play status that arrives after the connection sequence and before the spawn closes the
  channel \<^verbatim>\<open>connected\<close> again: \<^verbatim>\<open>ReadPacket\<close> panics.
\<close>

theorem second_play_status_panics:
  assumes "ids_ok (e_lib E)" "conn_run (transfer_callback E) (e_lib E) (dialled_conn (e_lib E) io client False cache wr cb) xs (w, c)"
    and "c_connected c" "\<not> c_spawned c" "c_ctx c = None"
    and "read (e_lib E) (w, c) = (Ok (Pk (PlayStatus st)), w1, c1)"
  shows "\<exists>c2. ReadPacket (transfer_callback E) (e_lib E) pick (Suc n) (w, c) =
    Some (Panic ''close of closed channel'', w1, c2)"
proof -
  from dialled_run [OF assms(1,2)] assms(3) have "c_expectedIds c = [mc_IDPlayStatus (e_lib E)]"
    by (simp add: conn_inv_def)
  moreover have "\<not> c_syncProtocol c"
    using dialled_sync [OF assms(2)] by (simp add: dialled_conn_def NewConn_def expect_def Let_def)
  moreover have "c1 = c\<lparr>c_reader := snd (Reader_ReadPacket (c_reader c))\<rparr>" by (rule read_frame [OF assms(6)])
  ultimately show ?thesis
    using assms ids_ok_IDs(4) [OF assms(1)]
    by (simp add: handlePacket_def handle_expected_def handlePlayStatus_def deferPacket_def Let_def)
qed

theorem second_play_status_panics_witness:
  "\<exists>w c w1 c2. conn_run (transfer_callback demo_env) demo_lib (demo_dialled (demo_script @ demo_frame 2)) demo_received (w, c) \<and>
    ReadPacket (transfer_callback demo_env) demo_lib False 1 (w, c) = Some (Panic ''close of closed channel'', w1, c2)"
proof -
  obtain w c where run: "conn_run (transfer_callback demo_env) demo_lib (demo_dialled (demo_script @ demo_frame 2)) demo_received (w, c)"
    "demo_at [2] (demo_frame 2 @ []) True c"
    using demo_run [of "transfer_callback demo_env" "demo_frame 2"] by auto
  from run(2) have c: "c_connected c" "\<not> c_spawned c" "c_ctx c = None" by (simp_all add: demo_at_def)
  obtain w1 where "read demo_lib (w, c) = (Ok (Pk (PlayStatus PlayStatusPlayerSpawn)), w1, c\<lparr>c_reader := \<lparr>s_data = [], s_end = EOF\<rparr>\<rparr>)"
    using demo_read_vanilla [OF run(2) demo_pool_simps(4), of w] by (auto simp: Marshal_def demo_lib_def)
  from second_play_status_panics [OF _ _ c this [folded demo_simps(6)], of _ _ _ _ _ demo_received False 0] run(1) demo_ids_ok
  obtain c2 where "ReadPacket (transfer_callback demo_env) demo_lib False (Suc 0) (w, c) = Some (Panic ''close of closed channel'', w1, c2)"
    unfolding demo_dialled_def demo_simps(6) by blast
  with run(1) show ?thesis by (metis One_nat_def)
qed



end
