(* ===== verification/Api_Packet.thy ===== *)
theory Api_Packet
  imports Framing
begin

text \<open>
  The packets of the API service (\<^verbatim>\<open>api/packet\<close>): identifiers, string encoding, the four packet
  types with their encoders and decoders, and the pool of registered factories. A
  \<^verbatim>\<open>bytes.Buffer\<close> being written is its contents; one being read is a source that ends with
  \<^verbatim>\<open>io.EOF\<close>. Packet types that an application registers itself are not part of the model.
\<close>

section \<open>Definitions\<close>

subsection \<open>Identifiers and packet types\<close>

definition api_IDConnectionRequest :: u32 where "api_IDConnectionRequest = 0"
definition api_IDConnectionResponse :: u32 where "api_IDConnectionResponse = 1"
definition api_IDKick :: u32 where "api_IDKick = 2"
definition api_IDTransfer :: u32 where "api_IDTransfer = 3"

definition ResponseSuccess :: u8 where "ResponseSuccess = 0"
definition ResponseUnauthorized :: u8 where "ResponseUnauthorized = 1"
definition ResponseFail :: u8 where "ResponseFail = 2"

datatype api_packet =
    ApiConnectionRequest (Token: string)
  | ApiConnectionResponse (Response: u8)
  | ApiKick (Reason: string) (Kick_Username: string)
  | ApiTransfer (Api_Addr: string) (Transfer_Username: string)

text \<open>\<^verbatim>\<open>ID\<close> of each packet type, and the interface method that selects among them.\<close>

definition ApiConnectionRequest_ID :: u32 where
  "ApiConnectionRequest_ID = api_IDConnectionRequest"

definition ApiConnectionResponse_ID :: u32 where
  "ApiConnectionResponse_ID = api_IDConnectionResponse"

definition ApiKick_ID :: u32 where
  "ApiKick_ID = api_IDKick"

definition ApiTransfer_ID :: u32 where
  "ApiTransfer_ID = api_IDTransfer"

fun api_ID :: "api_packet \<Rightarrow> u32" where
  "api_ID (ApiConnectionRequest _) = ApiConnectionRequest_ID"
| "api_ID (ApiConnectionResponse _) = ApiConnectionResponse_ID"
| "api_ID (ApiKick _ _) = ApiKick_ID"
| "api_ID (ApiTransfer _ _) = ApiTransfer_ID"

subsection \<open>Strings\<close>

definition WriteString :: "bytes \<Rightarrow> string \<Rightarrow> bytes" where
  "WriteString buf s = buf @ le32 (word_of_nat (length s)) @ str_bytes s"

text \<open>
  Both errors are ignored: a missing length reads as zero, and the bytes that the buffer cannot
  supply stay zero in the freshly made slice.
\<close>

definition ReadString :: "stream \<Rightarrow> string \<times> stream" where
  "ReadString buf =
     (let (len, buf1) =
        (case binary_Read_le32 buf of
           (Ok n, b) \<Rightarrow> (unat n, b)
         | (Err _, b) \<Rightarrow> (0, b)
         | (Panic _, b) \<Rightarrow> (0, b));
        got = take len (s_data buf1)
      in (bytes_str (got @ replicate (len - length got) 0), buf1\<lparr>s_data := drop len (s_data buf1)\<rparr>))"

subsection \<open>Encoders and decoders\<close>

definition ApiConnectionRequest_Encode :: "string \<Rightarrow> bytes \<Rightarrow> bytes" where
  "ApiConnectionRequest_Encode tok buf = WriteString buf tok"

definition ApiConnectionRequest_Decode :: "stream \<Rightarrow> api_packet \<times> stream" where
  "ApiConnectionRequest_Decode buf =
     (let (tok, buf1) = ReadString buf in (ApiConnectionRequest tok, buf1))"

definition ApiConnectionResponse_Encode :: "u8 \<Rightarrow> bytes \<Rightarrow> bytes" where
  "ApiConnectionResponse_Encode r buf = buf @ [r]"

text \<open>
  The decoder fills in the receiver. \<^verbatim>\<open>ConnectionResponse.Decode\<close> passes \<^verbatim>\<open>pk.Response\<close> itself to
  \<^verbatim>\<open>binary.Read\<close>, not its address: the library takes one byte from the buffer and then refuses
  the argument, which is no pointer, so the field keeps its value.
\<close>

definition ApiConnectionResponse_Decode :: "u8 \<Rightarrow> stream \<Rightarrow> api_packet \<times> stream" where
  "ApiConnectionResponse_Decode r buf = (ApiConnectionResponse r, snd (ReadFull 1 buf))"

definition ApiKick_Encode :: "string \<Rightarrow> string \<Rightarrow> bytes \<Rightarrow> bytes" where
  "ApiKick_Encode reason username buf = WriteString (WriteString buf reason) username"

definition ApiKick_Decode :: "stream \<Rightarrow> api_packet \<times> stream" where
  "ApiKick_Decode buf =
     (let (reason, buf1) = ReadString buf; (username, buf2) = ReadString buf1
      in (ApiKick reason username, buf2))"

definition ApiTransfer_Encode :: "string \<Rightarrow> string \<Rightarrow> bytes \<Rightarrow> bytes" where
  "ApiTransfer_Encode addr username buf = WriteString (WriteString buf addr) username"

definition ApiTransfer_Decode :: "stream \<Rightarrow> api_packet \<times> stream" where
  "ApiTransfer_Decode buf =
     (let (addr, buf1) = ReadString buf; (username, buf2) = ReadString buf1
      in (ApiTransfer addr username, buf2))"

text \<open>The interface methods \<^verbatim>\<open>Encode\<close> and \<^verbatim>\<open>Decode\<close>.\<close>

fun api_Encode :: "api_packet \<Rightarrow> bytes \<Rightarrow> bytes" where
  "api_Encode (ApiConnectionRequest tok) buf = ApiConnectionRequest_Encode tok buf"
| "api_Encode (ApiConnectionResponse r) buf = ApiConnectionResponse_Encode r buf"
| "api_Encode (ApiKick reason username) buf = ApiKick_Encode reason username buf"
| "api_Encode (ApiTransfer addr username) buf = ApiTransfer_Encode addr username buf"

fun api_Decode :: "api_packet \<Rightarrow> stream \<Rightarrow> api_packet \<times> stream" where
  "api_Decode (ApiConnectionRequest _) buf = ApiConnectionRequest_Decode buf"
| "api_Decode (ApiConnectionResponse r) buf = ApiConnectionResponse_Decode r buf"
| "api_Decode (ApiKick _ _) buf = ApiKick_Decode buf"
| "api_Decode (ApiTransfer _ _) buf = ApiTransfer_Decode buf"

subsection \<open>The pool of factories\<close>

text \<open>A factory is represented by the zero value it returns.\<close>

type_synonym api_pool = "u32 \<rightharpoonup> api_packet"

definition api_Register :: "u32 \<Rightarrow> api_packet \<Rightarrow> api_pool \<Rightarrow> api_pool" where
  "api_Register i factory packets = packets(i \<mapsto> factory)"

definition api_packets :: api_pool where
  "api_packets =
     api_Register api_IDTransfer (ApiTransfer [] [])
       (api_Register api_IDKick (ApiKick [] [])
         (api_Register api_IDConnectionResponse (ApiConnectionResponse 0)
           (api_Register api_IDConnectionRequest (ApiConnectionRequest []) Map.empty)))"

text \<open>\<^verbatim>\<open>NewPool\<close> copies the registered factories into a fresh map.\<close>

definition api_NewPool :: "api_pool \<Rightarrow> api_pool" where
  "api_NewPool packets = (\<lambda>i. packets i)"

subsection \<open>Specification of encodable packets\<close>

text \<open>The strings fit their length prefix.\<close>

fun api_packet_ok :: "api_packet \<Rightarrow> bool" where
  "api_packet_ok (ApiConnectionRequest tok) = (length tok < 2 ^ 32)"
| "api_packet_ok (ApiConnectionResponse r) = True"
| "api_packet_ok (ApiKick reason username) = (length reason < 2 ^ 32 \<and> length username < 2 ^ 32)"
| "api_packet_ok (ApiTransfer addr username) = (length addr < 2 ^ 32 \<and> length username < 2 ^ 32)"

text \<open>What a receiver gets to see of a packet: the response code is lost.\<close>

fun api_received :: "api_packet \<Rightarrow> api_packet" where
  "api_received (ApiConnectionResponse r) = ApiConnectionResponse 0"
| "api_received pk = pk"

section \<open>Lemmas\<close>

lemmas api_id_const_defs = api_IDConnectionRequest_def api_IDConnectionResponse_def api_IDKick_def
  api_IDTransfer_def

lemmas api_ID_defs [simp] = ApiConnectionRequest_ID_def ApiConnectionResponse_ID_def ApiKick_ID_def
  ApiTransfer_ID_def

lemmas api_codec_defs [simp] = ApiConnectionRequest_Encode_def ApiConnectionRequest_Decode_def
  ApiConnectionResponse_Encode_def ApiConnectionResponse_Decode_def ApiKick_Encode_def
  ApiKick_Decode_def ApiTransfer_Encode_def ApiTransfer_Decode_def

lemma api_packets_ids [simp]:
  "api_packets api_IDConnectionRequest = Some (ApiConnectionRequest [])"
  "api_packets api_IDConnectionResponse = Some (ApiConnectionResponse 0)"
  "api_packets api_IDKick = Some (ApiKick [] [])"
  "api_packets api_IDTransfer = Some (ApiTransfer [] [])"
  by (simp_all add: api_packets_def api_Register_def api_id_const_defs)

lemma api_packets_dom: "api_packets i \<noteq> None \<longleftrightarrow> i \<le> 3"
proof -
  have "i \<le> 3 \<longleftrightarrow> unat i \<in> {0, 1, 2, 3}"
    by (auto simp: word_le_nat_alt)
  also have "\<dots> \<longleftrightarrow> i = 0 \<or> i = 1 \<or> i = 2 \<or> i = 3"
    by (auto simp: word_unat_eq_iff)
  finally show ?thesis
    by (auto simp: api_packets_def api_Register_def api_id_const_defs)
qed

lemma api_packets_factory_ID: "api_packets i = Some pk \<Longrightarrow> api_ID pk = i"
  by (auto simp: api_packets_def api_Register_def split: if_splits)

lemma api_NewPool_eq [simp]: "api_NewPool packets = packets"
  by (simp add: api_NewPool_def)

lemma api_Decode_ID [simp]: "api_ID (fst (api_Decode pk buf)) = api_ID pk"
  by (cases pk) (simp_all add: split_beta)

lemma WriteString_append: "WriteString buf s = buf @ WriteString [] s"
  by (simp add: WriteString_def)

lemma api_Encode_append: "api_Encode pk buf = buf @ api_Encode pk []"
  by (cases pk) (simp_all add: WriteString_def)

text \<open>Strings below 4 GiB form a self-delimiting code.\<close>

interpretation strings: stream_code "WriteString []"
  "\<lambda>buf. case ReadString buf of (s, buf') \<Rightarrow> (Ok s, buf')" "\<lambda>s. length s < 2 ^ 32"
  by unfold_locales (simp add: WriteString_def ReadString_def wire_simps)

lemma ReadString_WriteString [wire_simps]:
  assumes "length s < 2 ^ 32"
  shows "ReadString \<lparr>s_data = WriteString [] s @ rest, s_end = e\<rparr> = (s, \<lparr>s_data = rest, s_end = e\<rparr>)"
  using strings.dec_enc [OF assms, of rest e] by (simp split: prod.splits)

lemma api_Decode_Encode:
  assumes "api_packet_ok pk" "api_packets (api_ID pk) = Some zero"
  shows "api_Decode zero \<lparr>s_data = api_Encode pk [] @ rest, s_end = e\<rparr>
    = (api_received pk, \<lparr>s_data = rest, s_end = e\<rparr>)"
proof (cases pk)
  case (ApiKick r u)
  with assms have "ReadString \<lparr>s_data = WriteString [] r @ WriteString [] u @ rest, s_end = e\<rparr>
    = (r, \<lparr>s_data = WriteString [] u @ rest, s_end = e\<rparr>)" by (intro ReadString_WriteString) simp
  with assms ApiKick show ?thesis
    by (auto simp: WriteString_append [of "WriteString [] r"] ReadString_WriteString)
next
  case (ApiTransfer r u)
  with assms have "ReadString \<lparr>s_data = WriteString [] r @ WriteString [] u @ rest, s_end = e\<rparr>
    = (r, \<lparr>s_data = WriteString [] u @ rest, s_end = e\<rparr>)" by (intro ReadString_WriteString) simp
  with assms ApiTransfer show ?thesis
    by (auto simp: WriteString_append [of "WriteString [] r"] ReadString_WriteString)
next
  case (ApiConnectionResponse r)
  with assms show ?thesis by (auto simp: ReadFull_def)
qed (use assms in \<open>auto simp: ReadString_WriteString\<close>)

end
