(* ===== verification/Api_Service.thy ===== *)
theory Api_Service
  imports Api_Packet
begin

text \<open>
  The API service (\<^verbatim>\<open>api/api.go\<close>, \<^verbatim>\<open>api/client.go\<close>, \<^verbatim>\<open>api/dial.go\<close>,
  \<^verbatim>\<open>api/authentication.go\<close>): clients that exchange packets over frames, the service that
  authenticates them and runs the registered handlers, and the dialling side. The sessions that the
  built-in handlers act upon are reached through the record \<open>session_ops\<close>, whose fields are
  \<^verbatim>\<open>Registry.GetSessionByUsername\<close>, \<^verbatim>\<open>Session.Disconnect\<close> and \<^verbatim>\<open>Session.Transfer\<close> on a state \<open>'w\<close>.
\<close>

section \<open>Definitions\<close>

subsection \<open>Authentication\<close>

record secret_authentication =
  secret :: string

definition NewSecretBasedAuthentication :: "string \<Rightarrow> secret_authentication" where
  "NewSecretBasedAuthentication s = \<lparr>secret = s\<rparr>"

definition SecretBased_Authenticate :: "(bytes \<Rightarrow> bytes \<Rightarrow> bool) \<Rightarrow> secret_authentication \<Rightarrow> string \<Rightarrow> bool" where
  "SecretBased_Authenticate uni auth token = EqualFold uni (secret auth) token"

subsection \<open>Clients\<close>

record client =
  cl_reader :: stream
  cl_writer :: writer
  cl_pool :: api_pool
  cl_closed :: bool

definition newClient :: "stream \<Rightarrow> sink \<Rightarrow> api_pool \<Rightarrow> client" where
  "newClient r k pool = \<lparr>cl_reader = r, cl_writer = NewWriter k, cl_pool = pool, cl_closed = False\<rparr>"

text \<open>The decoding of one payload: identifier, factory, then the packet's own decoder.\<close>

definition decode_api_payload :: "api_pool \<Rightarrow> bytes \<Rightarrow> api_packet res" where
  "decode_api_payload pool payload =
     (case binary_Read_le32 \<lparr>s_data = payload, s_end = EOF\<rparr> of
        (Err e, _) \<Rightarrow> Err e
      | (Panic m, _) \<Rightarrow> Err (Recovered ''panic while decoding packet'' m)
      | (Ok packetID, buf) \<Rightarrow>
          (case pool packetID of
             None \<Rightarrow> Err (Errorf1 ''unknown packet ID: '' (uint packetID))
           | Some factory \<Rightarrow> Ok (fst (api_Decode factory buf))))"

definition Client_ReadPacket :: "client \<Rightarrow> api_packet res \<times> client" where
  "Client_ReadPacket c =
     (case Reader_ReadPacket (cl_reader c) of
        (Err e, r) \<Rightarrow> (Err e, c\<lparr>cl_reader := r\<rparr>)
      | (Panic m, r) \<Rightarrow> (Err (Recovered ''panic while decoding packet'' m), c\<lparr>cl_reader := r\<rparr>)
      | (Ok payload, r) \<Rightarrow> (decode_api_payload (cl_pool c) payload, c\<lparr>cl_reader := r\<rparr>))"

definition api_payload :: "api_packet \<Rightarrow> bytes" where
  "api_payload pk = api_Encode pk (le32 (api_ID pk))"

definition Client_WritePacket :: "api_packet \<Rightarrow> client \<Rightarrow> unit res \<times> client" where
  "Client_WritePacket pk c =
     (case Writer_Write (api_payload pk) (cl_writer c) of (r, w) \<Rightarrow> (r, c\<lparr>cl_writer := w\<rparr>))"

definition Client_Close :: "client \<Rightarrow> client" where
  "Client_Close c = c\<lparr>cl_closed := True\<rparr>"

subsection \<open>Handlers\<close>

type_synonym 'w handler = "api_packet \<Rightarrow> 'w \<Rightarrow> unit res \<times> 'w"

record 'w session_ops =
  so_byUsername :: "string \<Rightarrow> 'w \<Rightarrow> nat option"
  so_Disconnect :: "nat \<Rightarrow> string \<Rightarrow> 'w \<Rightarrow> unit res \<times> 'w"
  so_Transfer :: "nat \<Rightarrow> string \<Rightarrow> 'w \<Rightarrow> unit res \<times> 'w"

text \<open>
  The closures that \<^verbatim>\<open>NewAPI\<close> registers; their type assertions panic on another packet type. An
  error of a transfer is logged and otherwise ignored.
\<close>

fun handle_kick :: "'w session_ops \<Rightarrow> 'w handler" where
  "handle_kick ops (ApiKick reason username) w =
     (case so_byUsername ops username w of
        Some s \<Rightarrow> so_Disconnect ops s reason w
      | None \<Rightarrow> (Ok (), w))"
| "handle_kick ops _ w = (Panic ''interface conversion'', w)"

fun handle_transfer :: "'w session_ops \<Rightarrow> 'w handler" where
  "handle_transfer ops (ApiTransfer addr username) w =
     (case so_byUsername ops username w of
        Some s \<Rightarrow>
          (case so_Transfer ops s addr w of
             (Panic m, w1) \<Rightarrow> (Panic m, w1)
           | (_, w1) \<Rightarrow> (Ok (), w1))
      | None \<Rightarrow> (Ok (), w))"
| "handle_transfer ops _ w = (Panic ''interface conversion'', w)"

subsection \<open>The service\<close>

record 'w api =
  authentication :: "(string \<Rightarrow> bool) option"
  handlers :: "u32 \<rightharpoonup> 'w handler"
  listener :: "bool option"
  clients :: "i64 \<rightharpoonup> client"
  nextId :: i64
  api_closed :: bool

definition RegisterHandler :: "u32 \<Rightarrow> 'w handler \<Rightarrow> 'w api \<Rightarrow> 'w api" where
  "RegisterHandler pid h a = a\<lparr>handlers := (handlers a)(pid \<mapsto> h)\<rparr>"

definition NewAPI :: "'w session_ops \<Rightarrow> (string \<Rightarrow> bool) option \<Rightarrow> 'w api" where
  "NewAPI ops auth =
     RegisterHandler api_IDTransfer (handle_transfer ops)
       (RegisterHandler api_IDKick (handle_kick ops)
         \<lparr>authentication = auth, handlers = Map.empty, listener = None, clients = Map.empty,
          nextId = 0, api_closed = False\<rparr>)"

text \<open>\<^verbatim>\<open>Listen\<close>: \<open>listener\<close> is \<open>Some True\<close> for an open listener, \<open>Some False\<close> for a closed one.\<close>

definition API_Listen :: "go_error option \<Rightarrow> 'w api \<Rightarrow> go_error option \<times> 'w api" where
  "API_Listen net_err a =
     (case net_err of Some e \<Rightarrow> (Some e, a) | None \<Rightarrow> (None, a\<lparr>listener := Some True\<rparr>))"

text \<open>
  \<^verbatim>\<open>Accept\<close>: the argument is what the listener's own \<^verbatim>\<open>Accept\<close> returned. A nil listener is
  dereferenced. The result is the identifier under which the goroutine \<^verbatim>\<open>handle\<close> is started.
\<close>

definition API_Accept :: "go_error + (stream \<times> sink) \<Rightarrow> 'w api \<Rightarrow> i64 res \<times> 'w api" where
  "API_Accept incoming a =
     (case listener a of
        None \<Rightarrow> (Panic ''invalid memory address or nil pointer dereference'', a)
      | Some _ \<Rightarrow>
          (case incoming of
             Inl e \<Rightarrow> (Err e, a)
           | Inr (r, k) \<Rightarrow>
               (let i = nextId a; c = newClient r k (api_NewPool api_packets)
                in (Ok i, a\<lparr>clients := (clients a)(i \<mapsto> c), nextId := nextId a + 1\<rparr>))))"

text \<open>\<^verbatim>\<open>Clients\<close> ranges over the map in an order of the runtime's choice.\<close>

definition API_Clients :: "(i64 set \<Rightarrow> i64 list) \<Rightarrow> 'w api \<Rightarrow> client list" where
  "API_Clients order a = map (\<lambda>i. the (clients a i)) (order (dom (clients a)))"

definition API_Close :: "'w api \<Rightarrow> go_error option \<times> 'w api" where
  "API_Close a =
     (if api_closed a then (Some (ErrorString ''already closed''), a)
      else (None, a\<lparr>api_closed := True, listener := map_option (\<lambda>_. False) (listener a)\<rparr>))"

subsection \<open>Serving one client\<close>

text \<open>The first packet must be a connection request whose token the service accepts.\<close>

definition handle_request :: "(string \<Rightarrow> bool) option \<Rightarrow> client \<Rightarrow> bool \<times> client" where
  "handle_request auth c =
     (case Client_ReadPacket c of
        (Ok (ApiConnectionRequest tok), c1) \<Rightarrow>
          (if (case auth of None \<Rightarrow> False | Some f \<Rightarrow> \<not> f tok)
           then (False, snd (Client_WritePacket (ApiConnectionResponse ResponseUnauthorized) c1))
           else (case Client_WritePacket (ApiConnectionResponse ResponseSuccess) c1 of
                   (Ok _, c2) \<Rightarrow> (True, c2)
                 | (_, c2) \<Rightarrow> (False, c2)))
      | (_, c1) \<Rightarrow> (False, snd (Client_WritePacket (ApiConnectionResponse ResponseFail) c1)))"

definition handle_turn ::
  "bool \<Rightarrow> (u32 \<rightharpoonup> 'w handler) \<Rightarrow> client \<times> 'w \<Rightarrow> turn \<times> (client \<times> 'w)" where
  "handle_turn is_closed hs cw =
     (if is_closed then (Leave, cw)
      else (case Client_ReadPacket (fst cw) of
              (Ok pk, c1) \<Rightarrow>
                (case hs (api_ID pk) of
                   Some h \<Rightarrow>
                     (case h pk (snd cw) of
                        (Panic m, w1) \<Rightarrow> (Crash m, (c1, w1))
                      | (_, w1) \<Rightarrow> (Continue, (c1, w1)))
                 | None \<Rightarrow> (Continue, (c1, snd cw)))
            | (_, c1) \<Rightarrow> (Leave, (c1, snd cw))))"

lemma Client_ReadPacket_shrinks:
  "Client_ReadPacket c = (Ok pk, c1) \<Longrightarrow>
   length (s_data (cl_reader c1)) < length (s_data (cl_reader c))"
  by (auto simp: Client_ReadPacket_def split: prod.splits res.splits
      dest: Reader_ReadPacket_consumes)

lemma handle_turn_shrinks:
  "handle_turn b hs (c, w) = (Continue, (c1, w1)) \<Longrightarrow>
   length (s_data (cl_reader c1)) < length (s_data (cl_reader c))"
  by (auto simp: handle_turn_def split: if_splits prod.splits res.splits option.splits
      dest: Client_ReadPacket_shrinks)

text \<open>
  The loop. \<open>closes\<close> says at which turn the closed channel is first seen closed; every
  other turn reads at least one frame header, so the loop ends with the client's input.
\<close>

function handle_loop ::
  "(nat \<Rightarrow> bool) \<Rightarrow> nat \<Rightarrow> (u32 \<rightharpoonup> 'w handler) \<Rightarrow> client \<Rightarrow> 'w \<Rightarrow> turn \<times> client \<times> 'w" where
  "handle_loop closes n hs c w =
     (case handle_turn (closes n) hs (c, w) of
        (Continue, (c1, w1)) \<Rightarrow> handle_loop closes (Suc n) hs c1 w1
      | (t, (c1, w1)) \<Rightarrow> (t, c1, w1))"
  by pat_completeness auto
termination
  by (relation "measure (\<lambda>(closes, n, hs, c, w). length (s_data (cl_reader c)))")
     (auto dest: handle_turn_shrinks [OF sym])

declare handle_loop.simps [simp del]

text \<open>
  \<^verbatim>\<open>handle\<close>: the request, the loop, and the deferred removal and close, which run also when a
  handler panics (the panic then ends the process, outcome \<open>Panic\<close>).
\<close>

definition API_handle ::
  "(nat \<Rightarrow> bool) \<Rightarrow> client \<Rightarrow> i64 \<Rightarrow> 'w api \<Rightarrow> 'w \<Rightarrow> unit res \<times> client \<times> 'w api \<times> 'w" where
  "API_handle closes c i a w =
     (let fin = (\<lambda>r c' w'. (r, Client_Close c', a\<lparr>clients := (clients a)(i := None)\<rparr>, w'))
      in (case handle_request (authentication a) c of
            (False, c1) \<Rightarrow> fin (Ok ()) c1 w
          | (True, c1) \<Rightarrow>
              (case handle_loop closes 0 (handlers a) c1 w of
                 (Crash m, c2, w2) \<Rightarrow> fin (Panic m) c2 w2
               | (_, c2, w2) \<Rightarrow> fin (Ok ()) c2 w2)))"

subsection \<open>Dialling\<close>

text \<open>
  \<^verbatim>\<open>Dial\<close>: the argument \<open>net\<close> is the result of \<^verbatim>\<open>net.Dial\<close>, an error or the two ends of the
  connection. Every \<^verbatim>\<open>return nil, err\<close> after the deferred closure is installed sets the named
  result \<^verbatim>\<open>c\<close> to nil before the closure calls \<^verbatim>\<open>c.Close()\<close>, which dereferences it.
\<close>

definition Dial_fail :: "go_error \<Rightarrow> client \<Rightarrow> client res \<times> client option" where
  "Dial_fail e c = (Panic ''invalid memory address or nil pointer dereference'', Some c)"

definition Dial :: "go_error + (stream \<times> sink) \<Rightarrow> string \<Rightarrow> client res \<times> client option" where
  "Dial net token =
     (case net of
        Inl e \<Rightarrow> (Err e, None)
      | Inr (r, k) \<Rightarrow>
          (let c = newClient r k (api_NewPool api_packets) in
           case Client_WritePacket (ApiConnectionRequest token) c of
             (Err e, c1) \<Rightarrow> Dial_fail e c1
           | (Panic m, c1) \<Rightarrow> (Panic m, Some c1)
           | (Ok _, c1) \<Rightarrow>
               (case Client_ReadPacket c1 of
                  (Err e, c2) \<Rightarrow> Dial_fail e c2
                | (Panic m, c2) \<Rightarrow> (Panic m, Some c2)
                | (Ok (ApiConnectionResponse resp), c2) \<Rightarrow>
                    (if resp = ResponseFail then Dial_fail (ErrorString ''connection failed'') c2
                     else if resp = ResponseUnauthorized
                       then Dial_fail (ErrorString ''connection unauthorized'') c2
                     else if resp \<noteq> ResponseSuccess
                       then Dial_fail (Errorf1 ''received an unknown response code ''
                              (uint api_IDConnectionResponse)) c2
                     else (Ok c2, Some c2))
                | (Ok _, c2) \<Rightarrow>
                    Dial_fail (Errorf1 ''expected connection response, got ''
                      (uint api_IDConnectionResponse)) c2)))"

subsection \<open>Specification\<close>

text \<open>The sessions' operations return, with or without an error.\<close>

definition ops_return :: "'w session_ops \<Rightarrow> bool" where
  "ops_return ops \<longleftrightarrow>
     (\<forall>s x w m. fst (so_Disconnect ops s x w) \<noteq> Panic m \<and> fst (so_Transfer ops s x w) \<noteq> Panic m)"

text \<open>What a packet does to the sessions when the service has received it.\<close>

definition dispatch :: "(u32 \<rightharpoonup> 'w handler) \<Rightarrow> api_packet \<Rightarrow> 'w \<Rightarrow> 'w" where
  "dispatch hs pk w = (case hs (api_ID pk) of None \<Rightarrow> w | Some h \<Rightarrow> snd (h pk w))"

text \<open>The handlers of these packets return, each in the state that its predecessors left.\<close>

fun served :: "(u32 \<rightharpoonup> 'w handler) \<Rightarrow> api_packet list \<Rightarrow> 'w \<Rightarrow> bool" where
  "served hs [] w = True"
| "served hs (pk # pks) w \<longleftrightarrow> (\<forall>h m w'. hs (api_ID pk) = Some h \<longrightarrow> h pk w \<noteq> (Panic m, w')) \<and> served hs pks (dispatch hs pk w)"

definition sendable :: "api_packet \<Rightarrow> bool" where
  "sendable pk \<longleftrightarrow> api_packet_ok pk \<and> length (api_payload pk) < 2 ^ 32"

text \<open>
  The service under any sequence of accepted connections, finished handlers and closes;
  the counter is the number of connections accepted so far.
\<close>

inductive api_reach :: "'w session_ops \<Rightarrow> (string \<Rightarrow> bool) option \<Rightarrow> nat \<Rightarrow> 'w api \<Rightarrow> bool"
  for ops auth where
  new: "api_reach ops auth 0 (NewAPI ops auth)"
| listen: "api_reach ops auth n a \<Longrightarrow> api_reach ops auth n (snd (API_Listen e a))"
| accept: "api_reach ops auth n a \<Longrightarrow> API_Accept (Inr (r, k)) a = (Ok i, a') \<Longrightarrow>
    api_reach ops auth (Suc n) a'"
| handled: "api_reach ops auth n a \<Longrightarrow> API_handle closes c i a w = (r, c', a', w') \<Longrightarrow>
    api_reach ops auth n a'"
| close: "api_reach ops auth n a \<Longrightarrow> api_reach ops auth n (snd (API_Close a))"

section \<open>Lemmas\<close>

subsection \<open>Packets over frames\<close>

lemma api_payload_eq: "api_payload pk = le32 (api_ID pk) @ api_Encode pk []"
  by (simp add: api_payload_def api_Encode_append [of pk "le32 (api_ID pk)"])

lemma api_packets_zero: obtains zero where "api_packets (api_ID pk) = Some zero"
  by (cases pk) auto

lemma decode_api_payload:
  assumes "api_packet_ok pk"
  shows "decode_api_payload api_packets (api_payload pk) = Ok (api_received pk)"
proof -
  obtain zero where zero: "api_packets (api_ID pk) = Some zero" by (rule api_packets_zero)
  from api_Decode_Encode [OF assms zero, of "[]" EOF] zero show ?thesis
    by (simp add: decode_api_payload_def api_payload_eq wire_simps)
qed

text \<open>Packets whose code survives the trip form a self-delimiting code over frames.\<close>

interpretation api_wire: stream_code "\<lambda>pk. frame (api_payload pk)"
  "\<lambda>s. case Client_ReadPacket \<lparr>cl_reader = s, cl_writer = w, cl_pool = api_packets, cl_closed = b\<rparr>
       of (r, c) \<Rightarrow> (r, cl_reader c)"
  "\<lambda>pk. sendable pk \<and> api_received pk = pk" for w b
  by unfold_locales
     (simp add: Client_ReadPacket_def frames.dec_enc sendable_def decode_api_payload)

lemma Client_ReadPacket_sent:
  assumes "sendable pk" "cl_pool c = api_packets" "s_data (cl_reader c) = frame (api_payload pk) @ rest"
  shows "Client_ReadPacket c = (Ok (api_received pk), c\<lparr>cl_reader := (cl_reader c)\<lparr>s_data := rest\<rparr>\<rparr>)"
proof -
  have "cl_reader c = \<lparr>s_data = frame (api_payload pk) @ rest, s_end = s_end (cl_reader c)\<rparr>"
    using assms(3) by simp
  then have "Reader_ReadPacket (cl_reader c)
    = (Ok (api_payload pk), \<lparr>s_data = rest, s_end = s_end (cl_reader c)\<rparr>)"
    using frames.dec_enc assms(1) by (metis sendable_def)
  with assms(1,2) show ?thesis
    by (simp add: Client_ReadPacket_def decode_api_payload sendable_def)
qed

lemma Client_ReadPacket_frame:
  "Client_ReadPacket c = (r, c1) \<Longrightarrow> cl_writer c1 = cl_writer c"
  "Client_ReadPacket c = (r, c1) \<Longrightarrow> cl_pool c1 = cl_pool c"
  by (auto simp: Client_ReadPacket_def split: prod.splits res.splits)

lemma Client_WritePacket_frame [simp]:
  "cl_reader (snd (Client_WritePacket pk c)) = cl_reader c"
  "cl_pool (snd (Client_WritePacket pk c)) = cl_pool c"
  by (simp_all add: Client_WritePacket_def split: prod.splits)

lemma Client_WritePacket_clean:
  assumes "writer_wf (cl_writer c)" "k_faults (w_w (cl_writer c)) = []"
  obtains w where "Client_WritePacket pk c = (Ok (), c\<lparr>cl_writer := w\<rparr>)"
    "k_out (w_w w) = k_out (w_w (cl_writer c)) @ frame (api_payload pk)"
proof -
  obtain r w where w: "Writer_Write (api_payload pk) (cl_writer c) = (r, w)" by fastforce
  from Writer_Write_clean [OF assms w] w that show thesis
    by (simp add: Client_WritePacket_def)
qed

lemma Client_ReadPacket_no_panic [simp]: "Client_ReadPacket c \<noteq> (Panic m, c1)"
  by (auto simp: Client_ReadPacket_def decode_api_payload_def split: prod.splits res.splits option.splits)

lemma Client_ReadPacket_drained:
  "s_data (cl_reader c) = [] \<Longrightarrow> \<exists>e. Client_ReadPacket c = (Err e, c)"
  by (simp add: Client_ReadPacket_def Reader_ReadPacket_short)

subsection \<open>The packet loop\<close>

lemma handle_loop_dispatches:
  "served hs pks w \<Longrightarrow> list_all (\<lambda>pk. sendable pk \<and> api_received pk = pk) pks \<Longrightarrow> cl_pool c = api_packets \<Longrightarrow>
    s_data (cl_reader c) = concat (map (\<lambda>pk. frame (api_payload pk)) pks) \<Longrightarrow>
    \<exists>c'. handle_loop (\<lambda>_. False) n hs c w = (Leave, c', fold (dispatch hs) pks w) \<and>
      cl_writer c' = cl_writer c"
proof (induction pks arbitrary: c w n)
  case Nil
  then obtain e where "Client_ReadPacket c = (Err e, c)"
    using Client_ReadPacket_drained by fastforce
  then show ?case
    by (subst handle_loop.simps) (simp add: handle_turn_def)
next
  case (Cons pk pks)
  let ?c1 = "c\<lparr>cl_reader := (cl_reader c)\<lparr>s_data := concat (map (\<lambda>pk. frame (api_payload pk)) pks)\<rparr>\<rparr>"
  have read: "Client_ReadPacket c = (Ok pk, ?c1)"
    using Client_ReadPacket_sent [of pk c] Cons.prems by simp
  have turn: "handle_turn False hs (c, w) = (Continue, (?c1, dispatch hs pk w))"
  proof (cases "hs (api_ID pk)")
    case None
    with read show ?thesis by (simp add: handle_turn_def dispatch_def)
  next
    case (Some h)
    obtain r w1 where h: "h pk w = (r, w1)" by fastforce
    with Some Cons.prems(1) have "\<And>m. r \<noteq> Panic m" by auto
    with Some read h show ?thesis
      by (cases r) (auto simp: handle_turn_def dispatch_def)
  qed
  have "\<exists>c'. handle_loop (\<lambda>_. False) (Suc n) hs ?c1 (dispatch hs pk w) =
      (Leave, c', fold (dispatch hs) pks (dispatch hs pk w)) \<and> cl_writer c' = cl_writer ?c1"
    by (rule Cons.IH) (use Cons.prems in auto)
  with turn show ?case
    by (subst handle_loop.simps) simp
qed

lemma served_all:
  "\<forall>pk\<in>set pks. \<forall>h w m w'. hs (api_ID pk) = Some h \<longrightarrow> h pk w \<noteq> (Panic m, w') \<Longrightarrow> served hs pks w"
  by (induction pks arbitrary: w) auto

lemma handle_loop_no_crash:
  assumes "\<And>pk h w m w'. hs (api_ID pk) = Some h \<Longrightarrow> h pk w \<noteq> (Panic m, w')"
  shows "handle_loop closes n hs c w \<noteq> (Crash m, c', w')"
  using assms
proof (induction closes n hs c w rule: handle_loop.induct)
  case (1 closes n hs c w)
  obtain t c1 w1 where t: "handle_turn (closes n) hs (c, w) = (t, (c1, w1))"
    by (metis prod.exhaust)
  show ?case
  proof (cases t)
    case Continue
    with "1.IH" [OF t [symmetric]] "1.prems" t show ?thesis
      by (subst handle_loop.simps) simp
  next
    case (Crash m')
    with t "1.prems" show ?thesis
      by (auto simp: handle_turn_def split: if_splits prod.splits res.splits option.splits)
  qed (use t in \<open>subst handle_loop.simps, simp\<close>)
qed

lemma NewAPI_handlers:
  "handlers (NewAPI ops auth) =
     [api_IDKick \<mapsto> handle_kick ops, api_IDTransfer \<mapsto> handle_transfer ops]"
  by (simp add: NewAPI_def RegisterHandler_def)

lemma builtin_handlers_no_panic:
  assumes "ops_return ops" "handlers (NewAPI ops auth) (api_ID pk) = Some h"
  shows "h pk w \<noteq> (Panic m, w')"
proof -
  have "so_Disconnect ops s x w \<noteq> (Panic m, w')" "so_Transfer ops s x w \<noteq> (Panic m, w')" for s x
    using assms(1) unfolding ops_return_def by (metis fst_conv)+
  with assms(2) show ?thesis
    by (cases pk) (auto simp: NewAPI_handlers api_id_const_defs split: if_splits option.splits prod.splits res.splits)
qed

lemma builtin_handlers_return:
  assumes "ops_return ops"
  shows "\<forall>pk\<in>set pks. \<forall>h w m w'. handlers (NewAPI ops auth) (api_ID pk) = Some h \<longrightarrow> h pk w \<noteq> (Panic m, w')"
  using builtin_handlers_no_panic [OF assms] by blast

lemma handle_loop_preserves:
  assumes "\<And>pk h w. hs (api_ID pk) = Some h \<Longrightarrow> P w \<Longrightarrow> P (snd (h pk w))"
  shows "P w \<Longrightarrow> P (snd (snd (handle_loop closes n hs c w)))"
  using assms
proof (induction closes n hs c w rule: handle_loop.induct)
  case (1 closes n hs c w)
  obtain t c1 w1 where t: "handle_turn (closes n) hs (c, w) = (t, (c1, w1))"
    by (metis prod.exhaust)
  have "P w1"
  proof (cases "\<exists>pk c2 h. Client_ReadPacket c = (Ok pk, c2) \<and> hs (api_ID pk) = Some h \<and> \<not> closes n")
    case True
    then obtain pk c2 h where h: "Client_ReadPacket c = (Ok pk, c2)" "hs (api_ID pk) = Some h" "\<not> closes n" by blast
    obtain r w2 where 2: "h pk w = (r, w2)" by fastforce
    have "P w2" using "1.prems"(2) [OF h(2) "1.prems"(1)] 2 by simp
    with h 2 t show ?thesis by (cases r) (auto simp: handle_turn_def)
  next
    case False
    with t "1.prems"(1) show ?thesis
      by (auto simp: handle_turn_def split: if_splits prod.splits res.splits option.splits)
  qed
  with t "1.IH" [OF t [symmetric]] "1.prems"(2) show ?case
    by (cases t) (auto simp: handle_loop.simps [of closes n hs c w])
qed

text \<open>
  The contract between the service and the sessions: the operations that it performs on sessions it has
  looked up keep a property of them. Then so does the service, whatever its clients send.
\<close>

locale session_service =
  fixes ops :: "'w session_ops" and P :: "'w \<Rightarrow> bool"
  assumes keeps_Disconnect: "P w \<Longrightarrow> so_byUsername ops u w = Some s \<Longrightarrow> P (snd (so_Disconnect ops s reason w))"
    and keeps_Transfer: "P w \<Longrightarrow> so_byUsername ops u w = Some s \<Longrightarrow> P (snd (so_Transfer ops s addr w))"
begin

lemma handler_keeps:
  assumes "handlers (NewAPI ops auth) (api_ID pk) = Some h" "P w"
  shows "P (snd (h pk w))"
proof (cases pk)
  case (ApiKick reason u)
  with assms keeps_Disconnect [OF assms(2)] show ?thesis
    by (auto simp: NewAPI_handlers api_id_const_defs split: option.split)
next
  case (ApiTransfer addr u)
  have "P (snd (handle_transfer ops (ApiTransfer addr u) w))"
  proof (cases "so_byUsername ops u w")
    case (Some s)
    obtain r w1 where "so_Transfer ops s addr w = (r, w1)" by fastforce
    with keeps_Transfer [OF assms(2) Some, of addr] Some show ?thesis by (cases r) simp_all
  qed (simp add: assms(2))
  with assms(1) ApiTransfer show ?thesis by (auto simp: NewAPI_handlers api_id_const_defs)
qed (use assms in \<open>auto simp: NewAPI_handlers api_id_const_defs\<close>)

lemma API_handle_keeps:
  assumes "P w"
  shows "P (snd (snd (snd (API_handle closes c n (NewAPI ops auth) w))))"
proof -
  obtain b c1 where 1: "handle_request (authentication (NewAPI ops auth)) c = (b, c1)" by fastforce
  obtain t c2 w2 where 2: "handle_loop closes 0 (handlers (NewAPI ops auth)) c1 w = (t, c2, w2)" by (metis prod.exhaust)
  have "P w2"
    using handle_loop_preserves [where P = P and hs = "handlers (NewAPI ops auth)", of w closes 0 c1] handler_keeps assms 2
    by simp
  with 1 2 assms show ?thesis by (cases b; cases t) (simp_all add: API_handle_def Let_def)
qed

end

lemma API_Clients_set:
  assumes "finite (dom (clients a))" "\<And>S. finite S \<Longrightarrow> set (order S) = S"
  shows "set (API_Clients order a) = ran (clients a)"
  using assms by (force simp: API_Clients_def ran_def dom_def)

lemma authentication_NewAPI [simp]: "authentication (NewAPI ops auth) = auth"
  by (simp add: NewAPI_def RegisterHandler_def)

lemma handle_request_rejects:
  "fst (handle_request auth c) \<Longrightarrow>
   \<exists>tok c1. Client_ReadPacket c = (Ok (ApiConnectionRequest tok), c1) \<and> (\<forall>f. auth = Some f \<longrightarrow> f tok)"
  by (auto simp: handle_request_def split: prod.splits res.splits api_packet.splits if_splits option.splits)

lemma API_handle_clients:
  "API_handle closes c i a w = (r, c', a', w') \<Longrightarrow> a' = a\<lparr>clients := (clients a)(i := None)\<rparr> \<and> cl_closed c'"
  by (auto simp: API_handle_def Let_def Client_Close_def split: prod.splits bool.splits turn.splits)

text \<open>Accepted identifiers stay below the counter until the counter wraps around.\<close>

lemma api_reach_ids:
  "api_reach ops auth n a \<Longrightarrow>
   nextId a = word_of_nat n \<and> (n < 2 ^ 64 \<longrightarrow> (\<forall>i. clients a i \<noteq> None \<longrightarrow> unat i < n))"
proof (induction rule: api_reach.induct)
  case new
  then show ?case by (simp add: NewAPI_def RegisterHandler_def)
next
  case (listen n a e)
  then show ?case by (cases e) (simp_all add: API_Listen_def)
next
  case (accept n a r k i a')
  have a': "clients a' = (clients a)(nextId a \<mapsto> newClient r k (api_NewPool api_packets))"
    "nextId a' = nextId a + 1"
    using accept.hyps by (auto simp: API_Accept_def Let_def split: option.splits)
  have "unat (word_of_nat n :: i64) = n" if "n < 2 ^ 64"
    using that by (simp add: unat_of_nat)
  with a' accept.IH show ?case
    by (auto simp: less_Suc_eq)
next
  case (handled n a closes c i w r c' a' w')
  then show ?case by (auto dest!: API_handle_clients split: if_splits)
next
  case (close n a)
  then show ?case by (simp add: API_Close_def)
qed

lemma API_handle_serves:
  assumes ret: "served (handlers (NewAPI ops auth)) pks w"
    and "\<forall>f. auth = Some f \<longrightarrow> f tok"
    and "list_all (\<lambda>pk. sendable pk \<and> api_received pk = pk) (ApiConnectionRequest tok # pks)"
    and "a = NewAPI ops auth"
    and "c = newClient \<lparr>s_data = concat (map (\<lambda>pk. frame (api_payload pk))
               (ApiConnectionRequest tok # pks)), s_end = e\<rparr> \<lparr>k_out = [], k_faults = []\<rparr> api_packets"
  shows "\<exists>c' a'. API_handle (\<lambda>_. False) c i a w = (Ok (), c', a', fold (dispatch (handlers a)) pks w) \<and>
    k_out (w_w (cl_writer c')) = frame (api_payload (ApiConnectionResponse ResponseSuccess)) \<and>
    cl_closed c' \<and> clients a' i = None"
proof -
  let ?rest = "concat (map (\<lambda>pk. frame (api_payload pk)) pks)"
  let ?c1 = "c\<lparr>cl_reader := \<lparr>s_data = ?rest, s_end = e\<rparr>\<rparr>"
  have read: "Client_ReadPacket c = (Ok (ApiConnectionRequest tok), ?c1)"
    using Client_ReadPacket_sent [of "ApiConnectionRequest tok" c ?rest] assms(3,5)
    by (simp add: newClient_def)
  obtain wr where wr: "Client_WritePacket (ApiConnectionResponse ResponseSuccess) ?c1
      = (Ok (), ?c1\<lparr>cl_writer := wr\<rparr>)"
    "k_out (w_w wr) = frame (api_payload (ApiConnectionResponse ResponseSuccess))"
    using Client_WritePacket_clean [of ?c1 "ApiConnectionResponse ResponseSuccess"] assms(5)
    by (auto simp: newClient_def NewWriter_def writer_wf_def)
  have req: "handle_request auth c = (True, ?c1\<lparr>cl_writer := wr\<rparr>)"
    using read wr assms(2) by (auto simp: handle_request_def split: option.splits)
  obtain c' where "handle_loop (\<lambda>_. False) 0 (handlers a) (?c1\<lparr>cl_writer := wr\<rparr>) w
      = (Leave, c', fold (dispatch (handlers a)) pks w)" "cl_writer c' = wr"
    using handle_loop_dispatches [of "handlers a" pks w "?c1\<lparr>cl_writer := wr\<rparr>" 0] assms(2-) ret
    by (auto simp: newClient_def)
  with req wr(2) assms(4) show ?thesis
    by (simp add: API_handle_def Client_Close_def)
qed

subsection \<open>A concrete run\<close>

text \<open>
  A client that sends a valid token and then kicks and transfers the player \<^verbatim>\<open>u\<close>; the
  sessions are a log of the messages they were sent.
\<close>

definition demo_ops :: "string list session_ops" where
  "demo_ops = \<lparr>so_byUsername = (\<lambda>u w. if u = ''u'' then Some 0 else None),
     so_Disconnect = (\<lambda>s m w. (Ok (), w @ [m])), so_Transfer = (\<lambda>s m w. (Err EOF, w @ [m]))\<rparr>"

definition demo_packets :: "api_packet list" where
  "demo_packets = [ApiKick ''bye'' ''u'', ApiTransfer ''addr'' ''u'', ApiKick ''x'' ''v'']"

definition demo_api_client :: client where
  "demo_api_client = newClient \<lparr>s_data = concat (map (\<lambda>pk. frame (api_payload pk))
     (ApiConnectionRequest ''key'' # demo_packets)), s_end = EOF\<rparr> \<lparr>k_out = [], k_faults = []\<rparr> api_packets"

lemma demo_ops_return: "ops_return demo_ops"
  by (simp add: ops_return_def demo_ops_def)

lemma demo_accepts: "\<forall>f. Some (\<lambda>t. t = ''key'') = Some f \<longrightarrow> f ''key''"
  by auto

lemma demo_sendable:
  "list_all (\<lambda>pk. sendable pk \<and> api_received pk = pk) (ApiConnectionRequest ''key'' # demo_packets)"
  by (simp add: demo_packets_def sendable_def api_payload_eq WriteString_def)

lemma demo_dispatch:
  "fold (dispatch (handlers (NewAPI demo_ops auth))) demo_packets [] = [''bye'', ''addr'']"
  by (simp add: demo_packets_def dispatch_def NewAPI_handlers api_id_const_defs demo_ops_def)

section \<open>Properties\<close>

text \<open>
  C18. A client whose token is accepted and that then sends any sequence of requests gets a
  success response, every request is carried out exactly once and in the order sent, and at the
  end the service has closed the client and forgotten it.
\<close>

theorem handle_serves_in_order:
  assumes "ops_return ops" "\<forall>f. auth = Some f \<longrightarrow> f tok"
    and "list_all (\<lambda>pk. sendable pk \<and> api_received pk = pk) (ApiConnectionRequest tok # pks)"
    and "a = NewAPI ops auth"
    and "c = newClient \<lparr>s_data = concat (map (\<lambda>pk. frame (api_payload pk))
               (ApiConnectionRequest tok # pks)), s_end = e\<rparr> \<lparr>k_out = [], k_faults = []\<rparr> api_packets"
  shows "\<exists>c' a'. API_handle (\<lambda>_. False) c i a w = (Ok (), c', a', fold (dispatch (handlers a)) pks w) \<and>
    k_out (w_w (cl_writer c')) = frame (api_payload (ApiConnectionResponse ResponseSuccess)) \<and>
    cl_closed c' \<and> clients a' i = None"
  using API_handle_serves [OF served_all [OF builtin_handlers_return [OF assms(1)]] assms(2-)] .

theorem handle_serves_in_order_witness:
  "\<exists>c' a'. API_handle (\<lambda>_. False) demo_api_client 0 (NewAPI demo_ops (Some (\<lambda>t. t = ''key''))) []
     = (Ok (), c', a', [''bye'', ''addr'']) \<and>
   k_out (w_w (cl_writer c')) = frame (api_payload (ApiConnectionResponse ResponseSuccess)) \<and>
   cl_closed c' \<and> clients a' 0 = None"
  using handle_serves_in_order [OF demo_ops_return demo_accepts demo_sendable refl demo_api_client_def,
      where i = 0 and w = "[]"]
  by (simp only: demo_dispatch)

text \<open>
  C19. The sessions are touched only for authorised clients: whatever bytes a client sends and
  whenever the service is closed, if handling it changed the state of the sessions, then its first
  packet was a connection request whose token the configured authentication accepts.
\<close>

theorem handle_requires_authentication:
  assumes "API_handle closes c i a w = (r, c', a', w')" "w' \<noteq> w"
  shows "\<exists>tok c1. Client_ReadPacket c = (Ok (ApiConnectionRequest tok), c1) \<and>
    (\<forall>f. authentication a = Some f \<longrightarrow> f tok)"
proof (rule handle_request_rejects)
  show "fst (handle_request (authentication a) c)"
    using assms by (auto simp: API_handle_def Let_def split: prod.splits bool.splits)
qed

theorem handle_requires_authentication_witness:
  "\<exists>tok c1. Client_ReadPacket demo_api_client = (Ok (ApiConnectionRequest tok), c1) \<and> tok = ''key''"
proof -
  obtain c' a' where run: "API_handle (\<lambda>_. False) demo_api_client 0
      (NewAPI demo_ops (Some (\<lambda>t. t = ''key''))) [] = (Ok (), c', a', [''bye'', ''addr''])"
    using API_handle_serves [OF served_all [OF builtin_handlers_return [OF demo_ops_return]] demo_accepts demo_sendable refl demo_api_client_def,
      where i = 0 and w = "[]"]
    by (auto simp: demo_dispatch)
  from handle_requires_authentication [OF run] show ?thesis
    by auto
qed



text \<open>
  The identifier of an accepted client never replaces a client still being served, for
  the first $2^{64}$ connections.
\<close>

lemma Accept_fresh_id:
  assumes "api_reach ops auth n a" "n < 2 ^ 64" "API_Accept (Inr (r, k)) a = (Ok i, a')"
  shows "clients a i = None \<and> (\<exists>c. clients a' = (clients a)(i \<mapsto> c))"
proof -
  have i: "i = nextId a" and a': "\<exists>c. clients a' = (clients a)(i \<mapsto> c)"
    using assms(3) by (auto simp: API_Accept_def Let_def split: option.splits)
  from api_reach_ids [OF assms(1)] assms(2) have "unat i = n"
    "\<And>j. clients a j \<noteq> None \<Longrightarrow> unat j < n"
    by (auto simp: i unat_of_nat)
  then have "clients a i = None" by fastforce
  with a' show ?thesis by simp
qed

lemma Accept_fresh_id_witness:
  "\<exists>a i a'. API_Accept (Inr (\<lparr>s_data = [], s_end = EOF\<rparr>, \<lparr>k_out = [], k_faults = []\<rparr>)) a = (Ok i, a') \<and>
    clients (a :: string list api) i = None \<and> clients a' i \<noteq> None \<and> i = 1"
proof -
  let ?io = "(\<lparr>s_data = [], s_end = EOF\<rparr>, \<lparr>k_out = [], k_faults = []\<rparr>)"
  let ?a0 = "snd (API_Listen None (NewAPI demo_ops None))"
  let ?a1 = "snd (API_Accept (Inr ?io) ?a0)"
  have "API_Accept (Inr ?io) ?a0 = (Ok 0, ?a1)"
    by (simp add: API_Accept_def API_Listen_def NewAPI_def RegisterHandler_def)
  then have reach: "api_reach demo_ops None 1 ?a1"
    using api_reach.accept [OF api_reach.listen [OF api_reach.new, of demo_ops None None]] by fastforce
  have acc: "API_Accept (Inr ?io) ?a1 = (Ok 1, snd (API_Accept (Inr ?io) ?a1))"
    by (simp add: API_Accept_def API_Listen_def NewAPI_def RegisterHandler_def)
  have "clients ?a1 1 = None \<and> (\<exists>c. clients (snd (API_Accept (Inr ?io) ?a1)) = (clients ?a1)(1 \<mapsto> c))"
    using Accept_fresh_id [OF reach _ acc] by simp
  with acc show ?thesis by fastforce
qed

text \<open>
  A secret of ASCII characters admits exactly the tokens that differ from it in the case
  of letters only.
\<close>

lemma secret_admits_case_variants:
  assumes "list_all (\<lambda>b. b < 128) (str_bytes s)" "list_all (\<lambda>b. b < 128) (str_bytes token)"
  shows "SecretBased_Authenticate uni (NewSecretBasedAuthentication s) token \<longleftrightarrow>
    map to_lower (str_bytes s) = map to_lower (str_bytes token)"
  using assms by (simp add: SecretBased_Authenticate_def NewSecretBasedAuthentication_def EqualFold_ascii)

lemma secret_admits_case_variants_witness:
  "SecretBased_Authenticate (\<lambda>_ _. False) (NewSecretBasedAuthentication ''Secret1'') ''sEcReT1'' \<and>
   \<not> SecretBased_Authenticate (\<lambda>_ _. False) (NewSecretBasedAuthentication ''Secret1'') ''secret2''"
proof -
  have ascii: "list_all (\<lambda>b. b < 128) (str_bytes s)"
    if "s \<in> {''Secret1'', ''sEcReT1'', ''secret2''}" for s
    using that by (auto simp: str_bytes_def char_byte_def)
  show ?thesis
    using secret_admits_case_variants [OF ascii ascii, of "''Secret1''" "''sEcReT1''"]
      secret_admits_case_variants [OF ascii ascii, of "''Secret1''" "''secret2''"]
    by (simp add: str_bytes_def char_byte_def to_lower_def is_upper_def)
qed

text \<open>
  C40. Whatever response code the service sends, \<^verbatim>\<open>Dial\<close> reports success: the code is lost by
  \<^verbatim>\<open>ConnectionResponse.Decode\<close>, so a client with a rejected token is handed an open client.
\<close>

theorem Dial_accepts_every_response:
  "\<exists>c. fst (Dial (Inr (\<lparr>s_data = frame (api_payload (ApiConnectionResponse code)), s_end = e\<rparr>,
      \<lparr>k_out = [], k_faults = []\<rparr>)) token) = Ok c \<and>
    k_out (w_w (cl_writer c)) = frame (api_payload (ApiConnectionRequest token))"
proof -
  let ?r = "\<lparr>s_data = frame (api_payload (ApiConnectionResponse code)), s_end = e\<rparr>"
  let ?c = "newClient ?r \<lparr>k_out = [], k_faults = []\<rparr> api_packets"
  obtain wr where wr: "Client_WritePacket (ApiConnectionRequest token) ?c = (Ok (), ?c\<lparr>cl_writer := wr\<rparr>)"
    "k_out (w_w wr) = frame (api_payload (ApiConnectionRequest token))"
    using Client_WritePacket_clean [of ?c "ApiConnectionRequest token"]
    by (auto simp: newClient_def NewWriter_def writer_wf_def)
  have "Client_ReadPacket (?c\<lparr>cl_writer := wr\<rparr>) =
      (Ok (ApiConnectionResponse 0), ?c\<lparr>cl_writer := wr, cl_reader := \<lparr>s_data = [], s_end = e\<rparr>\<rparr>)"
    using Client_ReadPacket_sent [of "ApiConnectionResponse code" "?c\<lparr>cl_writer := wr\<rparr>" "[]"]
    by (simp add: newClient_def sendable_def api_payload_eq)
  with wr show ?thesis
    by (simp add: Dial_def ResponseFail_def ResponseUnauthorized_def ResponseSuccess_def)
qed

text \<open>
  \<^verbatim>\<open>Dial\<close> never returns an error once the connection is established: every failing branch
  ends in a nil dereference inside its deferred close, and the connection stays open.
\<close>

lemma Dial_failure_panics:
  assumes "Dial (Inr (r, k)) token = (res, c)"
  shows "(\<exists>c'. res = Ok c') \<or>
    (\<exists>m c'. res = Panic m \<and> c = Some c' \<and> \<not> cl_closed c')"
proof -
  have closed: "\<not> cl_closed (snd (Client_WritePacket pk (newClient r k p)))"
    "cl_closed (snd (Client_ReadPacket c)) = cl_closed c" for pk p c
    by (auto simp: newClient_def Client_WritePacket_def Client_ReadPacket_def
        split: prod.splits res.splits)
  obtain r1 c1 where 1: "Client_WritePacket (ApiConnectionRequest token) (newClient r k api_packets) = (r1, c1)"
    by fastforce
  obtain r2 c2 where 2: "Client_ReadPacket c1 = (r2, c2)" by fastforce
  from closed(1) [of "ApiConnectionRequest token" api_packets] closed(2) [of c1] 1 2
  have "\<not> cl_closed c1" "\<not> cl_closed c2" by simp_all
  with assms 1 2 show ?thesis
    by (auto simp: Dial_def Dial_fail_def split: res.splits api_packet.splits if_splits)
qed

lemma Dial_failure_panics_witness:
  "\<exists>m c. Dial (Inr (\<lparr>s_data = [], s_end = EOF\<rparr>, \<lparr>k_out = [], k_faults = []\<rparr>)) ''key'' = (Panic m, Some c) \<and>
    \<not> cl_closed c"
proof -
  let ?d = "Dial (Inr (\<lparr>s_data = [], s_end = EOF\<rparr>, \<lparr>k_out = [], k_faults = []\<rparr>)) ''key''"
  have "fst ?d = Panic ''invalid memory address or nil pointer dereference''"
    by (simp add: Dial_def Dial_fail_def newClient_def Client_WritePacket_def NewWriter_def
        Writer_Write_def PutUint32_be_def write_two_def sink_Write.simps Client_ReadPacket_def
        Reader_ReadPacket_short)
  with Dial_failure_panics [of "\<lparr>s_data = [], s_end = EOF\<rparr>" "\<lparr>k_out = [], k_faults = []\<rparr>" "''key''"
      "fst ?d" "snd ?d"] show ?thesis
    by (metis prod.collapse res.distinct(3) res.inject(3))
qed

end
