(* ===== verification/Transport.thy ===== *)
theory Transport
  imports Prelude
begin

text \<open>
  The transports (\<^verbatim>\<open>transport/spectral.go\<close>, \<^verbatim>\<open>transport/quic.go\<close>): one connection per server
  address, kept in a map and shared by the streams of all sessions. Connections \<open>'c\<close> and streams
  \<open>'st\<close> belong to the libraries, whose calls are parameters: the outcome of dialling and, per
  connection, the outcome of opening a stream. For every established connection a goroutine waits
  until it is done; \<open>watchers\<close> are the waiting ones. Both transports are interpretations of
  \<open>connection_cache\<close>. Their operations run under the mutex of the transport, so each is one step.
\<close>

section \<open>Definitions\<close>

record 'c transport =
  connections :: "string \<rightharpoonup> 'c"
  watchers :: "('c \<times> string) list"

definition NewSpectral :: "'c transport" where
  "NewSpectral = \<lparr>connections = Map.empty, watchers = []\<rparr>"

definition NewQUIC :: "'c transport" where
  "NewQUIC = \<lparr>connections = Map.empty, watchers = []\<rparr>"

definition Spectral_Dial ::
  "('c \<Rightarrow> go_error + 'st) \<Rightarrow> (string \<Rightarrow> go_error + 'c) \<Rightarrow> string \<Rightarrow> 'c transport \<Rightarrow> 'st res \<times> 'c transport" where
  "Spectral_Dial OpenStream spectral_Dial addr s =
     (let finish = (\<lambda>conn s1.
        (case OpenStream conn of
           Inl e \<Rightarrow> (Err e, s1\<lparr>connections := (connections s1)(addr := None)\<rparr>)
         | Inr stream \<Rightarrow> (Ok stream, s1)))
      in case connections s addr of
           Some conn \<Rightarrow> finish conn s
         | None \<Rightarrow>
             (case spectral_Dial addr of
                Inl e \<Rightarrow> (Err e, s)
              | Inr c \<Rightarrow>
                  finish c (s\<lparr>connections := (connections s)(addr \<mapsto> c), watchers := (c, addr) # watchers s\<rparr>)))"

text \<open>The goroutine of \<^verbatim>\<open>Spectral.Dial\<close>, once the connection's context is done.\<close>

definition Spectral_done :: "'c \<Rightarrow> string \<Rightarrow> 'c transport \<Rightarrow> 'c transport" where
  "Spectral_done conn addr s =
     (let s1 = (if connections s addr = Some conn then s\<lparr>connections := (connections s)(addr := None)\<rparr> else s)
      in s1\<lparr>watchers := remove1 (conn, addr) (watchers s1)\<rparr>)"

text \<open>The settings with which QUIC connections are dialled (times in nanoseconds).\<close>

record quic_settings =
  InsecureSkipVerify :: bool
  NextProtos :: "string list"
  MaxIdleTimeout :: int
  InitialStreamReceiveWindow :: int
  InitialConnectionReceiveWindow :: int
  KeepAlivePeriod :: int
  InitialPacketSize :: int

definition quic_dial_settings :: quic_settings where
  "quic_dial_settings =
     \<lparr>InsecureSkipVerify = True, NextProtos = [''spectrum''], MaxIdleTimeout = 10 * 1000000000,
      InitialStreamReceiveWindow = 1024 * 1024 * 10, InitialConnectionReceiveWindow = 1024 * 1024 * 10,
      KeepAlivePeriod = 0, InitialPacketSize = 1350\<rparr>"

definition QUIC_Dial ::
  "('c \<Rightarrow> go_error + 'st) \<Rightarrow> (quic_settings \<Rightarrow> string \<Rightarrow> go_error + 'c) \<Rightarrow> string \<Rightarrow> 'c transport \<Rightarrow>
   'st res \<times> 'c transport" where
  "QUIC_Dial OpenStreamSync DialAddr addr q =
     (let finish = (\<lambda>conn q1.
        (case OpenStreamSync conn of
           Inl e \<Rightarrow> (Err e, q1\<lparr>connections := (connections q1)(addr := None)\<rparr>)
         | Inr stream \<Rightarrow> (Ok stream, q1)))
      in case connections q addr of
           Some conn \<Rightarrow> finish conn q
         | None \<Rightarrow>
             (case DialAddr quic_dial_settings addr of
                Inl e \<Rightarrow> (Err e, q)
              | Inr c \<Rightarrow>
                  finish c (q\<lparr>connections := (connections q)(addr \<mapsto> c), watchers := (c, addr) # watchers q\<rparr>)))"

definition QUIC_done :: "'c \<Rightarrow> string \<Rightarrow> 'c transport \<Rightarrow> 'c transport" where
  "QUIC_done conn addr q =
     (let q1 = (if connections q addr = Some conn then q\<lparr>connections := (connections q)(addr := None)\<rparr> else q)
      in q1\<lparr>watchers := remove1 (conn, addr) (watchers q1)\<rparr>)"

subsection \<open>Specification\<close>

text \<open>Every kept connection is watched, under the address it is kept for.\<close>

definition transport_inv :: "'c transport \<Rightarrow> bool" where
  "transport_inv t \<longleftrightarrow> (\<forall>addr c. connections t addr = Some c \<longrightarrow> (c, addr) \<in> set (watchers t))"

text \<open>
  A transport in use: dials, each with its own outcomes, and connections that end. The dialler of
  a step returns a connection that no goroutine is watching yet: a new object.
\<close>

inductive transport_run ::
  "(('c \<Rightarrow> go_error + 'st) \<Rightarrow> (string \<Rightarrow> go_error + 'c) \<Rightarrow> string \<Rightarrow> 'c transport \<Rightarrow> 'st res \<times> 'c transport) \<Rightarrow>
   ('c \<Rightarrow> string \<Rightarrow> 'c transport \<Rightarrow> 'c transport) \<Rightarrow> 'c transport \<Rightarrow> 'c transport \<Rightarrow> bool"
  for Dial ended t0 where
  start: "transport_run Dial ended t0 t0"
| dial: "transport_run Dial ended t0 t \<Longrightarrow> (\<forall>c. dial addr = Inr c \<longrightarrow> c \<notin> fst ` set (watchers t)) \<Longrightarrow>
    transport_run Dial ended t0 (snd (Dial op dial addr t))"
| ended: "transport_run Dial ended t0 t \<Longrightarrow> (c, addr) \<in> set (watchers t) \<Longrightarrow>
    transport_run Dial ended t0 (ended c addr t)"

section \<open>Lemmas\<close>

text \<open>The contract of a connection cache: what dialling does in each situation.\<close>

locale connection_cache =
  fixes Dial :: "('c \<Rightarrow> go_error + 'st) \<Rightarrow> (string \<Rightarrow> go_error + 'c) \<Rightarrow> string \<Rightarrow> 'c transport \<Rightarrow> 'st res \<times> 'c transport"
    and ended :: "'c \<Rightarrow> string \<Rightarrow> 'c transport \<Rightarrow> 'c transport"
  assumes on_hit: "connections t addr = Some c \<Longrightarrow> op c = Inr st \<Longrightarrow> Dial op dial addr t = (Ok st, t)"
    and on_hit_fail: "connections t addr = Some c \<Longrightarrow> op c = Inl e \<Longrightarrow>
      Dial op dial addr t = (Err e, t\<lparr>connections := (connections t)(addr := None)\<rparr>)"
    and on_miss_fail: "connections t addr = None \<Longrightarrow> dial addr = Inl e \<Longrightarrow> Dial op dial addr t = (Err e, t)"
    and on_miss: "connections t addr = None \<Longrightarrow> dial addr = Inr c \<Longrightarrow> op c = Inr st \<Longrightarrow>
      Dial op dial addr t =
        (Ok st, t\<lparr>connections := (connections t)(addr \<mapsto> c), watchers := (c, addr) # watchers t\<rparr>)"
    and on_miss_open_fail: "connections t addr = None \<Longrightarrow> dial addr = Inr c \<Longrightarrow> op c = Inl e \<Longrightarrow>
      Dial op dial addr t =
        (Err e, t\<lparr>connections := (connections t)(addr := None), watchers := (c, addr) # watchers t\<rparr>)"
    and done_eq: "ended c addr t =
      t\<lparr>connections := (if connections t addr = Some c then (connections t)(addr := None) else connections t),
        watchers := remove1 (c, addr) (watchers t)\<rparr>"
begin

lemma Dial_cases:
  obtains (hit) c st where "connections t addr = Some c" "op c = Inr st" "Dial op dial addr t = (Ok st, t)"
  | (fail) e where "Dial op dial addr t = (Err e, t)" "connections t addr = None"
  | (hit_fail) c e where "connections t addr = Some c" "op c = Inl e"
      "Dial op dial addr t = (Err e, t\<lparr>connections := (connections t)(addr := None)\<rparr>)"
  | (miss) c st where "connections t addr = None" "dial addr = Inr c" "op c = Inr st" "Dial op dial addr t =
      (Ok st, t\<lparr>connections := (connections t)(addr \<mapsto> c), watchers := (c, addr) # watchers t\<rparr>)"
  | (miss_open_fail) c e where "connections t addr = None" "dial addr = Inr c" "op c = Inl e" "Dial op dial addr t =
      (Err e, t\<lparr>connections := (connections t)(addr := None), watchers := (c, addr) # watchers t\<rparr>)"
proof (cases "connections t addr")
  case None
  then show thesis
  proof (cases "dial addr")
    case (Inl e)
    with None fail on_miss_fail show thesis by blast
  next
    case (Inr c)
    with None miss miss_open_fail on_miss on_miss_open_fail show thesis by (cases "op c") blast+
  qed
next
  case (Some c)
  with hit hit_fail on_hit on_hit_fail show thesis by (cases "op c") blast+
qed

lemma Dial_inv: "transport_inv t \<Longrightarrow> transport_inv (snd (Dial op dial addr t))"
  by (cases rule: Dial_cases [of t addr op dial]) (auto simp: transport_inv_def)

lemma done_inv:
  assumes "transport_inv t"
  shows "transport_inv (ended c addr t)"
  unfolding transport_inv_def
proof (intro allI impI)
  fix a d assume "connections (ended c addr t) a = Some d"
  then have "connections t a = Some d" "(d, a) \<noteq> (c, addr)"
    by (auto simp: done_eq split: if_splits)
  with assms show "(d, a) \<in> set (watchers (ended c addr t))"
    by (auto simp: transport_inv_def done_eq in_set_remove1)
qed

text \<open>A watched pair is watched once, and a connection for one address only.\<close>

lemma run_inv:
  assumes "transport_run Dial ended t0 t" "transport_inv t0" "distinct (map fst (watchers t0))"
  shows "transport_inv t \<and> distinct (map fst (watchers t))"
  using assms(1)
proof induction
  case (dial t dl addr op)
  then have "distinct (map fst (watchers (snd (Dial op dl addr t))))"
    by (cases rule: Dial_cases [of t addr op dl]) auto
  with dial Dial_inv show ?case by blast
next
  case (ended t c addr)
  have "distinct (map fst (remove1 (c, addr) (watchers t)))"
    using ended.IH by (meson distinct_map distinct_remove1 inj_on_subset set_remove1_subset)
  with ended.IH done_inv show ?case by (simp add: done_eq)
qed (use assms in simp)

text \<open>When a connection has ended, its address is dialled anew, unless that has happened already.\<close>

lemma done_forgets:
  assumes "transport_run Dial ended t0 t" "transport_inv t0" "distinct (map fst (watchers t0))"
    "(c, addr) \<in> set (watchers t)"
  shows "\<forall>a. connections (ended c addr t) a \<noteq> Some c"
proof -
  have inv: "transport_inv t" "distinct (map fst (watchers t))" using run_inv [OF assms(1-3)] by simp_all
  have only: "a = addr" if "connections t a = Some c" for a
  proof -
    have "(c, a) \<in> set (watchers t)" using inv(1) that by (simp add: transport_inv_def)
    with inv(2) show ?thesis using assms(4) by (rule eq_key_imp_eq_value)
  qed
  have "connections (ended c addr t) addr \<noteq> Some c" by (simp add: done_eq)
  moreover have "connections (ended c addr t) a = connections t a" if "a \<noteq> addr" for a
    using that by (simp add: done_eq)
  ultimately show ?thesis using only by metis
qed

end

interpretation spectral: connection_cache Spectral_Dial Spectral_done
  by unfold_locales (simp_all add: Spectral_Dial_def Spectral_done_def Let_def)

interpretation quic: connection_cache "\<lambda>op dial. QUIC_Dial op (\<lambda>_. dial)" QUIC_done
  by unfold_locales (simp_all add: QUIC_Dial_def QUIC_done_def Let_def)

section \<open>Properties\<close>

text \<open>
  C30. A transport keeps one connection per address and shares it: after a dial that succeeded, the
  next dial of that address opens a stream on the same connection without dialling, whatever
  dialling would give; if the stream cannot be opened the connection is forgotten, so that the dial
  after that one dials again. Other addresses are not affected.
\<close>

theorem Dial_shares_connection:
  fixes op :: "'c \<Rightarrow> go_error + 'st"
  assumes "Spectral_Dial op dial addr s = (Ok st, s')"
  shows "\<exists>c. connections s' addr = Some c \<and> op c = Inr st \<and>
    (\<forall>(op' :: 'c \<Rightarrow> go_error + 'st) dial'. Spectral_Dial op' dial' addr s' =
       (case op' c of
          Inr st' \<Rightarrow> (Ok st', s')
        | Inl e \<Rightarrow> (Err e, s'\<lparr>connections := (connections s')(addr := None)\<rparr>))) \<and>
    (\<forall>a. a \<noteq> addr \<longrightarrow> connections s' a = connections s a)"
  using assms
  by (cases rule: spectral.Dial_cases [of s addr op dial])
     (auto simp: spectral.on_hit spectral.on_hit_fail split: sum.split)

theorem Dial_shares_connection_witness:
  "\<exists>s'. Spectral_Dial (\<lambda>c. Inr (c, 0::nat)) (\<lambda>_. Inr (7::nat)) ''a'' NewSpectral = (Ok (7, 0), s') \<and>
    Spectral_Dial (\<lambda>c. Inr (c, 1::nat)) (\<lambda>_. Inl EOF) ''a'' s' = (Ok (7, 1), s')"
proof -
  obtain s' where s': "Spectral_Dial (\<lambda>c. Inr (c, 0::nat)) (\<lambda>_. Inr (7::nat)) ''a'' NewSpectral = (Ok (7, 0), s')"
    by (simp add: Spectral_Dial_def NewSpectral_def)
  with Dial_shares_connection [OF s'] show ?thesis by auto
qed

text \<open>
  C31. In every reachable state of a transport, each kept connection is watched by a goroutine for its
  address, and once that goroutine sees the connection end, no address leads to it any more, while a
  connection dialled in the meantime stays.
\<close>

theorem ended_connections_forgotten:
  assumes "transport_run Spectral_Dial Spectral_done NewSpectral t" "(c, addr) \<in> set (watchers t)"
  shows "transport_inv t \<and> (\<forall>a. connections (Spectral_done c addr t) a \<noteq> Some c) \<and>
    (\<forall>a d. d \<noteq> c \<longrightarrow> connections t a = Some d \<longrightarrow> connections (Spectral_done c addr t) a = Some d)"
proof -
  have init: "transport_inv (NewSpectral :: 'a transport)" "distinct (map fst (watchers (NewSpectral :: 'a transport)))"
    by (simp_all add: NewSpectral_def transport_inv_def)
  from spectral.run_inv [OF assms(1) init] spectral.done_forgets [OF assms(1) init assms(2)] show ?thesis
    by (auto simp: Spectral_done_def Let_def)
qed

theorem ended_connections_forgotten_witness:
  "\<exists>t. transport_run (Spectral_Dial :: (nat \<Rightarrow> go_error + nat) \<Rightarrow> _) Spectral_done NewSpectral t \<and>
    connections t ''a'' = Some 7 \<and> connections (Spectral_done 7 ''a'' t) ''a'' = None"
proof -
  let ?t = "snd (Spectral_Dial (\<lambda>c. Inr (0::nat)) (\<lambda>_. Inr (7::nat)) ''a'' NewSpectral)"
  have run: "transport_run (Spectral_Dial :: (nat \<Rightarrow> go_error + nat) \<Rightarrow> _) Spectral_done NewSpectral ?t"
    by (rule transport_run.dial [OF transport_run.start]) (simp add: NewSpectral_def)
  have "(7, ''a'') \<in> set (watchers ?t)" "connections ?t ''a'' = Some 7"
    by (simp_all add: Spectral_Dial_def NewSpectral_def)
  moreover from this ended_connections_forgotten [OF run, of 7 "''a''"]
  have "connections (Spectral_done 7 ''a'' ?t) ''a'' = None"
    by (simp add: Spectral_done_def)
  ultimately show ?thesis using run by blast
qed

text \<open>
  The two transports are the same cache: with dialling and opening a stream given, \<^verbatim>\<open>QUIC.Dial\<close>
  and \<^verbatim>\<open>Spectral.Dial\<close> return the same and change the map in the same way, and so do their
  goroutines. Only the settings handed to the QUIC dialler differ.
\<close>

lemma QUIC_equiv_Spectral:
  "QUIC_Dial op dial addr t = Spectral_Dial op (dial quic_dial_settings) addr t \<and>
   QUIC_done c addr t = Spectral_done c addr t"
  by (simp add: QUIC_Dial_def Spectral_Dial_def QUIC_done_def Spectral_done_def)

end
