(* ===== verification/Spectrum.thy ===== *)
theory Spectrum
  imports Session_History Connection_Sequence Api_Service Transport
begin

text \<open>
  The proxy itself (\<^verbatim>\<open>spectrum.go\<close>): the listener, the sessions it has accepted, and shutting down.
  The sessions are a list, their position is their identity, and an operation of one session runs on
  its \<open>world\<close>: the session together with the pools and the registry that all of them share. The
  operations that the API service performs on sessions (\<open>proxy_ops\<close>) are those of the registry and of
  the sessions.
\<close>

section \<open>Definitions\<close>

subsection \<open>State\<close>

text \<open>The listener and its configuration belong to the Minecraft library.\<close>

record listen_config =
  EnableBatchReading :: bool
  lc_rest :: bytes

record mc_listener =
  ml_Addr :: string
  ml_closed :: bool

datatype 'c any_transport = Spectral "'c transport" | QUIC "'c transport"

record 'c spectrum =
  sp_discovery :: "mc_conn discovery"
  sp_transport :: "'c any_transport"
  sp_listener :: "mc_listener option"
  sp_registry :: registry
  sp_opts :: opts

text \<open>The process: the proxy, the shared pools, the accepted sessions and the goroutines that log them in.\<close>

record 'c proxy = "'c spectrum" +
  x_headerPool :: "header list"
  x_pkCtxPool :: "packet_context list"
  x_sessions :: "session list"
  x_logins :: "nat list"

definition NewSpectrum :: "mc_conn discovery \<Rightarrow> opts option \<Rightarrow> 'c any_transport option \<Rightarrow> 'c spectrum" where
  "NewSpectrum disc op tr =
     (let op' = (case op of None \<Rightarrow> DefaultOpts | Some x \<Rightarrow> x);
          tr' = (case tr of None \<Rightarrow> Spectral NewSpectral | Some x \<Rightarrow> x)
      in \<lparr>sp_discovery = disc, sp_transport = tr', sp_listener = None, sp_registry = NewRegistry, sp_opts = op'\<rparr>)"

text \<open>The process at its start.\<close>

definition new_process :: "'c spectrum \<Rightarrow> 'c proxy" where
  "new_process sp = spectrum.extend sp (proxy.fields [] [] [] [])"

subsection \<open>Sessions of the process\<close>

definition session_world :: "nat \<Rightarrow> 'c proxy \<Rightarrow> world" where
  "session_world i x = \<lparr>headerPool = x_headerPool x, pkCtxPool = x_pkCtxPool x, w_registry = sp_registry x,
     w_session = x_sessions x ! i\<rparr>"

definition on_session :: "nat \<Rightarrow> (world \<Rightarrow> 'a \<times> world) \<Rightarrow> 'c proxy \<Rightarrow> 'a \<times> 'c proxy" where
  "on_session i f x =
     (let (r, w) = f (session_world i x)
      in (r, x\<lparr>x_headerPool := headerPool w, x_pkCtxPool := pkCtxPool w, sp_registry := w_registry w,
               x_sessions := (x_sessions x)[i := w_session w]\<rparr>))"

subsection \<open>Operations\<close>

text \<open>\<open>listen\<close> is the library's \<^verbatim>\<open>ListenConfig.Listen\<close>.\<close>

definition Spectrum_Listen ::
  "(listen_config \<Rightarrow> string \<Rightarrow> string \<Rightarrow> go_error + mc_listener) \<Rightarrow> listen_config \<Rightarrow> 'c proxy \<Rightarrow>
   unit res \<times> 'c proxy" where
  "Spectrum_Listen listen config x =
     (case listen (config\<lparr>EnableBatchReading := True\<rparr>) ''raknet'' (Addr (sp_opts x)) of
        Inl e \<Rightarrow> (Err e, x)
      | Inr l \<Rightarrow> (Ok (), x\<lparr>sp_listener := Some l\<rparr>))"

text \<open>
  \<^verbatim>\<open>Accept\<close>: the argument is what the listener's own \<^verbatim>\<open>Accept\<close> returned; a nil listener is
  dereferenced. With \<^verbatim>\<open>AutoLogin\<close> a goroutine is started that logs the session in.
\<close>

definition Spectrum_Accept :: "go_error + mc_conn \<Rightarrow> 'c proxy \<Rightarrow> nat res \<times> 'c proxy" where
  "Spectrum_Accept incoming x =
     (case sp_listener x of
        None \<Rightarrow> (Panic ''invalid memory address or nil pointer dereference'', x)
      | Some _ \<Rightarrow>
          (case incoming of
             Inl e \<Rightarrow> (Err e, x)
           | Inr conn \<Rightarrow>
               (let i = length (x_sessions x);
                    x1 = x\<lparr>x_sessions := x_sessions x @ [NewSession i conn]\<rparr>
                in (Ok i, if AutoLogin (sp_opts x) then x1\<lparr>x_logins := i # x_logins x1\<rparr> else x1))))"

text \<open>The end of the goroutine of \<^verbatim>\<open>Accept\<close>, with the result of \<^verbatim>\<open>Login\<close>.\<close>

definition login_ended :: "env \<Rightarrow> nat \<Rightarrow> unit res \<Rightarrow> 'c proxy \<Rightarrow> unit res \<times> 'c proxy" where
  "login_ended E i r x =
     (let x1 = x\<lparr>x_logins := remove1 i (x_logins x)\<rparr>
      in case r of
           Err e \<Rightarrow> on_session i (Session_Disconnect E (Error e)) x1
         | _ \<Rightarrow> (r, x1))"

fun disconnect_all :: "env \<Rightarrow> string \<Rightarrow> nat list \<Rightarrow> 'c proxy \<Rightarrow> unit res \<times> 'c proxy" where
  "disconnect_all E message [] x = (Ok (), x)"
| "disconnect_all E message (i # is) x =
     (case on_session i (Session_Disconnect E message) x of
        (Panic m, x1) \<Rightarrow> (Panic m, x1)
      | (_, x1) \<Rightarrow> disconnect_all E message is x1)"

text \<open>\<^verbatim>\<open>Close\<close>: the registry is copied once, then every session is disconnected, then the listener closed.\<close>

definition Spectrum_Close :: "env \<Rightarrow> 'c proxy \<Rightarrow> unit res \<times> 'c proxy" where
  "Spectrum_Close E x =
     (case disconnect_all E (ShutdownMessage (sp_opts x)) (GetSessions (o_str (e_orders E)) (sp_registry x)) x of
        (Ok _, x1) \<Rightarrow>
          (case sp_listener x1 of
             None \<Rightarrow> (Panic ''invalid memory address or nil pointer dereference'', x1)
           | Some l \<Rightarrow> (Ok (), x1\<lparr>sp_listener := Some (l\<lparr>ml_closed := True\<rparr>)\<rparr>))
      | r \<Rightarrow> r)"

text \<open>
  The transport is an interface: a dial goes to the one the proxy was given. \<open>network\<close> holds what the
  libraries answer to it: a stream on a connection, and a connection to an address, where the expiry of
  the caller's context is an error like any other.
\<close>

record 'c network =
  nw_OpenStream :: "'c \<Rightarrow> go_error + (stream \<times> sink)"
  nw_spectral :: "string \<Rightarrow> go_error + 'c"
  nw_quic :: "quic_settings \<Rightarrow> string \<Rightarrow> go_error + 'c"

fun Transport_Dial :: "'c network \<Rightarrow> string \<Rightarrow> 'c any_transport \<Rightarrow> (stream \<times> sink) res \<times> 'c any_transport" where
  "Transport_Dial N addr (Spectral t) =
     (let (r, t') = Spectral_Dial (nw_OpenStream N) (nw_spectral N) addr t in (r, Spectral t'))"
| "Transport_Dial N addr (QUIC t) =
     (let (r, t') = QUIC_Dial (nw_OpenStream N) (nw_quic N) addr t in (r, QUIC t'))"

text \<open>An operation of the session \<open>i\<close> that may dial: the transport answers, and keeps the connection.\<close>

definition dialling :: "env \<Rightarrow> 'c network \<Rightarrow> nat \<Rightarrow> (env \<Rightarrow> world \<Rightarrow> 'a \<times> world) \<Rightarrow> 'c proxy \<Rightarrow> 'a \<times> 'c proxy" where
  "dialling E N i f x =
     (let E' = E\<lparr>e_dial := \<lambda>_ addr. fst (Transport_Dial N addr (sp_transport x)), e_dial_time := \<lambda>_ _. 0\<rparr>;
          (r, x1) = on_session i (f E') x;
          dialled = drop (length (s_dials (x_sessions x ! i))) (s_dials (x_sessions x1 ! i))
      in (r, x1\<lparr>sp_transport := fold (\<lambda>addr t. snd (Transport_Dial N addr t)) dialled (sp_transport x)\<rparr>))"

subsection \<open>Accessors\<close>

definition Spectrum_Discovery :: "('c, 'r) spectrum_scheme \<Rightarrow> mc_conn discovery" where
  "Spectrum_Discovery s = sp_discovery s"

definition Spectrum_Opts :: "('c, 'r) spectrum_scheme \<Rightarrow> opts" where
  "Spectrum_Opts s = sp_opts s"

definition Spectrum_Listener :: "('c, 'r) spectrum_scheme \<Rightarrow> mc_listener option" where
  "Spectrum_Listener s = sp_listener s"

definition Spectrum_Registry :: "('c, 'r) spectrum_scheme \<Rightarrow> registry" where
  "Spectrum_Registry s = sp_registry s"

definition Spectrum_Transport :: "('c, 'r) spectrum_scheme \<Rightarrow> 'c any_transport" where
  "Spectrum_Transport s = sp_transport s"

subsection \<open>What the API service uses\<close>

text \<open>What the API service reaches of the sessions; \<open>uni\<close> is Unicode case folding.\<close>

definition display_name :: "'c proxy \<Rightarrow> nat \<Rightarrow> string" where
  "display_name x i = k_DisplayName (s_client (x_sessions x ! i))"

definition proxy_ops :: "env \<Rightarrow> 'c network \<Rightarrow> (bytes \<Rightarrow> bytes \<Rightarrow> bool) \<Rightarrow> 'c proxy session_ops" where
  "proxy_ops E N uni =
     \<lparr>so_byUsername = \<lambda>u x. GetSessionByUsername uni (display_name x) (o_str (e_orders E)) u (sp_registry x),
      so_Disconnect = \<lambda>i message. on_session i (Session_Disconnect E message),
      so_Transfer = \<lambda>i addr. dialling E N i (\<lambda>E'. Session_Transfer E' addr)\<rparr>"

subsection \<open>Specification\<close>

text \<open>Registered sessions exist, are registered under their own account, and are open.\<close>

definition registry_ok :: "'c proxy \<Rightarrow> bool" where
  "registry_ok x \<longleftrightarrow> finite (dom (sp_registry x)) \<and>
     (\<forall>u i. sp_registry x u = Some i \<longrightarrow>
        i < length (x_sessions x) \<and> k_XUID (s_client (x_sessions x ! i)) = u \<and>
        session_wf (x_sessions x ! i) \<and> \<not> s_once (x_sessions x ! i) \<and> k_answers (s_client (x_sessions x ! i)) = [])"

text \<open>A session was told \<open>message\<close> (as the processor rewrites it), closed and cancelled.\<close>

definition ended_with :: "string \<Rightarrow> session \<Rightarrow> session \<Rightarrow> bool" where
  "ended_with message s s' \<longleftrightarrow>
     k_trace (s_client s') = k_trace (s_client s) @
       [Sent (Disconnect (snd (ProcessDisconnection (s_processor s) NewContext message))), Closed] \<and>
     s_once s' \<and> s_ctx s' \<noteq> None"

section \<open>Lemmas\<close>

lemma on_session_frame:
  assumes "on_session i f x = (r, x')"
  shows "length (x_sessions x') = length (x_sessions x)" "j \<noteq> i \<Longrightarrow> x_sessions x' ! j = x_sessions x ! j"
    "sp_opts x' = sp_opts x" "sp_listener x' = sp_listener x" "sp_discovery x' = sp_discovery x" "x_logins x' = x_logins x"
  using assms by (auto simp: on_session_def split: prod.splits)

lemma disconnect_session:
  assumes "i < length (x_sessions x)" "session_wf (x_sessions x ! i)" "\<not> s_once (x_sessions x ! i)"
    "k_answers (s_client (x_sessions x ! i)) = []" "on_session i (Session_Disconnect E message) x = (r, x')"
  shows "r = Ok () \<and> ended_with message (x_sessions x ! i) (x_sessions x' ! i) \<and>
    sp_registry x' = RemoveSession (k_XUID (s_client (x_sessions x ! i))) (sp_registry x)"
proof -
  let ?w = "session_world i x"
  obtain w' where 1: "Session_CloseWithError E (ErrorString message) ?w = (r, w')"
    "x' = x\<lparr>x_headerPool := headerPool w', x_pkCtxPool := pkCtxPool w', sp_registry := w_registry w',
       x_sessions := (x_sessions x)[i := w_session w']\<rparr>"
    using assms(5) by (auto simp: on_session_def Session_Disconnect_def split: prod.splits)
  have w: "w_session ?w = x_sessions x ! i" "w_registry ?w = sp_registry x" by (simp_all add: session_world_def)
  from session_close_effect [OF _ _ _ 1(1)] assms(1-4) show ?thesis
    unfolding 1(2) w by (simp add: ended_with_def)
qed

lemma disconnect_returns: "fst (on_session i (Session_Disconnect E message) x) \<noteq> Panic m"
  using Session_CloseWithError_returns [of E "ErrorString message" "session_world i x" m]
  by (auto simp: on_session_def Session_Disconnect_def split: prod.splits)

lemma registry_ok_distinct: "registry_ok x \<Longrightarrow> sp_registry x u = Some i \<Longrightarrow> sp_registry x v = Some i \<Longrightarrow> u = v"
  unfolding registry_ok_def by metis

lemma disconnect_registered:
  assumes "registry_ok x" "sp_registry x u = Some i" "on_session i (Session_Disconnect E message) x = (r, x')"
  shows "r = Ok () \<and> ended_with message (x_sessions x ! i) (x_sessions x' ! i) \<and> registry_ok x' \<and>
    sp_registry x' = (sp_registry x)(u := None)"
proof -
  from assms(1,2) have i: "i < length (x_sessions x)" "session_wf (x_sessions x ! i)" "\<not> s_once (x_sessions x ! i)"
    "k_answers (s_client (x_sessions x ! i)) = []" "k_XUID (s_client (x_sessions x ! i)) = u"
    by (auto simp: registry_ok_def)
  note d = disconnect_session [OF i(1-4) assms(3)]
  then have reg: "sp_registry x' = (sp_registry x)(u := None)" by (simp add: i(5) RemoveSession_def)
  have "registry_ok x'"
    unfolding registry_ok_def
  proof (intro conjI allI impI)
    show "finite (dom (sp_registry x'))" using assms(1) by (simp add: reg registry_ok_def)
  next
    fix v j assume j: "sp_registry x' v = Some j"
    then have "v \<noteq> u" "sp_registry x v = Some j" by (auto simp: reg split: if_splits)
    with registry_ok_distinct [OF assms(1,2), of v] have "j \<noteq> i" by auto
    from on_session_frame(1,2) [OF assms(3)] this have "length (x_sessions x') = length (x_sessions x)"
      "x_sessions x' ! j = x_sessions x ! j" by blast+
    with assms(1) \<open>sp_registry x v = Some j\<close> show "j < length (x_sessions x')" "k_XUID (s_client (x_sessions x' ! j)) = v"
      "session_wf (x_sessions x' ! j)" "\<not> s_once (x_sessions x' ! j)" "k_answers (s_client (x_sessions x' ! j)) = []"
      by (auto simp: registry_ok_def)
  qed
  with d reg show ?thesis by simp
qed

text \<open>Disconnecting a list of registered accounts, one after the other.\<close>

lemma disconnect_all_registered:
  assumes "registry_ok x" "distinct us" "set us \<subseteq> dom (sp_registry x)"
  shows "\<exists>x'. disconnect_all E message (map (\<lambda>u. the (sp_registry x u)) us) x = (Ok (), x') \<and>
    sp_registry x' = (sp_registry x) |` (- set us) \<and> sp_listener x' = sp_listener x \<and>
    (\<forall>u i. sp_registry x u = Some i \<longrightarrow> u \<in> set us \<longrightarrow> ended_with message (x_sessions x ! i) (x_sessions x' ! i)) \<and>
    (\<forall>j. j \<notin> (\<lambda>u. the (sp_registry x u)) ` set us \<longrightarrow> x_sessions x' ! j = x_sessions x ! j)"
  using assms
proof (induction us arbitrary: x)
  case Nil
  then show ?case by simp
next
  case (Cons u us)
  then obtain i where i: "sp_registry x u = Some i" by auto
  obtain r x1 where 1: "on_session i (Session_Disconnect E message) x = (r, x1)" by fastforce
  note d = disconnect_registered [OF Cons.prems(1) i 1]
  have reg: "sp_registry x1 v = sp_registry x v" if "v \<in> set us" for v
    using d Cons.prems(2) that by auto
  then have same: "map (\<lambda>u. the (sp_registry x1 u)) us = map (\<lambda>u. the (sp_registry x u)) us"
    "(\<lambda>u. the (sp_registry x1 u)) ` set us = (\<lambda>u. the (sp_registry x u)) ` set us" by auto
  have ok: "registry_ok x1" "distinct us" "set us \<subseteq> dom (sp_registry x1)"
    using d Cons.prems reg by auto
  obtain x' where x': "disconnect_all E message (map (\<lambda>u. the (sp_registry x u)) us) x1 = (Ok (), x')"
    "sp_registry x' = (sp_registry x1) |` (- set us)" "sp_listener x' = sp_listener x1"
    "\<And>v j. sp_registry x1 v = Some j \<Longrightarrow> v \<in> set us \<Longrightarrow> ended_with message (x_sessions x1 ! j) (x_sessions x' ! j)"
    "\<And>j. j \<notin> (\<lambda>u. the (sp_registry x u)) ` set us \<Longrightarrow> x_sessions x' ! j = x_sessions x1 ! j"
    using Cons.IH [OF ok] unfolding same by metis
  have other: "j \<noteq> i" if "sp_registry x v = Some j" "v \<in> set us" for v j
    using registry_ok_distinct [OF Cons.prems(1) i, of v] Cons.prems(2) that by auto
  then have "i \<notin> (\<lambda>u. the (sp_registry x u)) ` set us" using Cons.prems(3) by fastforce
  note frame = on_session_frame [OF 1]
  show ?case
  proof (intro exI conjI allI impI)
    show "disconnect_all E message (map (\<lambda>u. the (sp_registry x u)) (u # us)) x = (Ok (), x')"
      using 1 d i x'(1) by simp
    show "sp_registry x' = (sp_registry x) |` (- set (u # us))"
      using d x'(2) by (auto simp: restrict_map_def)
    show "sp_listener x' = sp_listener x" using x'(3) frame(4) by simp
    show "ended_with message (x_sessions x ! j) (x_sessions x' ! j)" if "sp_registry x v = Some j" "v \<in> set (u # us)" for v j
    proof (cases "v = u")
      case True
      with that i d x'(5) [OF \<open>i \<notin> _\<close>] show ?thesis by simp
    next
      case False
      with that reg [of v] x'(4) [of v j] other [of v j] frame(2) [of j] show ?thesis by simp
    qed
    show "x_sessions x' ! j = x_sessions x ! j" if "j \<notin> (\<lambda>u. the (sp_registry x u)) ` set (u # us)" for j
      using that i x'(5) [of j] frame(2) [of j] by simp
  qed
qed

subsection \<open>A small process\<close>

definition demo_proxy :: "unit proxy" where
  "demo_proxy = \<lparr>sp_discovery = NewStaticDiscovery ''lobby'' ''fallback'', sp_transport = Spectral NewSpectral,
     sp_listener = Some \<lparr>ml_Addr = '':19132'', ml_closed = False\<rparr>, sp_registry = [''1'' \<mapsto> 0, ''2'' \<mapsto> 1],
     sp_opts = DefaultOpts, x_headerPool = [], x_pkCtxPool = [],
     x_sessions = [NewSession 0 demo_client,
       NewSession 1 (demo_client\<lparr>k_XUID := ''2'', k_DisplayName := ''Alex''\<rparr>), NewSession 2 demo_client], x_logins = []\<rparr>"

text \<open>Its network answers every dial with an empty stream.\<close>

definition demo_network :: "unit network" where
  "demo_network = \<lparr>nw_OpenStream = \<lambda>_. Inr (\<lparr>s_data = [], s_end = EOF\<rparr>, \<lparr>k_out = [], k_faults = []\<rparr>),
     nw_spectral = \<lambda>_. Inr (), nw_quic = \<lambda>_ _. Inr ()\<rparr>"

lemma NewSession_wf: "session_wf (NewSession i k)" "\<not> s_once (NewSession i k)" "s_client (NewSession i k) = k"
  "s_processor (NewSession i k) = NopProcessor"
  by (simp_all add: NewSession_def session_wf_def tracker_finite_def newTracker_def)

lemma demo_proxy_ok: "registry_ok demo_proxy"
  by (auto simp: registry_ok_def demo_proxy_def NewSession_wf split: if_splits)

section \<open>Properties\<close>



text \<open>
  C39. The registry entry is removed by account, not by session: when an account has logged in a second
  time, closing its older session takes the newer one out of the registry, although that one is
  untouched and stays open. Lookups, kicks and the shutdown no longer see it.
\<close>

theorem stale_close_unregisters_newer:
  assumes "i < length (x_sessions x)" "i \<noteq> j" "session_wf (x_sessions x ! i)" "\<not> s_once (x_sessions x ! i)"
    "k_answers (s_client (x_sessions x ! i)) = []"
    and "k_XUID (s_client (x_sessions x ! i)) = u" "GetSession u (sp_registry x) = Some j"
    and "on_session i (Session_Disconnect E message) x = (r, x')"
  shows "GetSession u (sp_registry x') = None \<and> x_sessions x' ! j = x_sessions x ! j"
  using disconnect_session [OF assms(1,3,4,5,8)] on_session_frame(2) [OF assms(8), of j] assms(2,6)
  by (auto simp: RemoveSession_def GetSession_def)

theorem stale_close_unregisters_newer_witness:
  "\<exists>r x'. on_session 2 (Session_Disconnect demo_env ''bye'') demo_proxy = (r, x') \<and>
    GetSession ''1'' (sp_registry demo_proxy) = Some 0 \<and> GetSession ''1'' (sp_registry x') = None \<and>
    \<not> s_once (x_sessions x' ! 0)"
proof -
  obtain r x' where d: "on_session 2 (Session_Disconnect demo_env ''bye'') demo_proxy = (r, x')" by fastforce
  have c: "2 < length (x_sessions demo_proxy)" "(2::nat) \<noteq> 0" "session_wf (x_sessions demo_proxy ! 2)"
    "\<not> s_once (x_sessions demo_proxy ! 2)" "k_answers (s_client (x_sessions demo_proxy ! 2)) = []"
    "k_XUID (s_client (x_sessions demo_proxy ! 2)) = ''1''" "GetSession ''1'' (sp_registry demo_proxy) = Some 0"
    "\<not> s_once (x_sessions demo_proxy ! 0)"
    by (simp_all add: demo_proxy_def NewSession_wf GetSession_def)
  from stale_close_unregisters_newer [OF c(1-7) d] d c(7,8) show ?thesis by auto
qed

end
