(* ===== verification/Proxy_Run.thy ===== *)
theory Proxy_Run
  imports Spectrum
begin

text \<open>
  The process as a whole: every interleaving of accepting players, of the steps of all their sessions,
  of dials through the shared transport, of API clients being served, and of the shutdown. \<open>proxy_inv\<close>
  is what holds between any two of these steps; the sessions' part of it comes from \<open>session_run\<close>, the
  registry's part from the history of a session, the transport's part from \<open>connection_cache\<close>, and the
  API service keeps it because the sessions' operations meet its contract \<open>session_service\<close>.
\<close>

section \<open>Definitions\<close>

fun transport_ok :: "'c any_transport \<Rightarrow> bool" where
  "transport_ok (Spectral t) = transport_inv t"
| "transport_ok (QUIC t) = transport_inv t"

text \<open>A connection of the transport has ended, and its goroutine has seen it.\<close>

fun Transport_done :: "'c \<Rightarrow> string \<Rightarrow> 'c any_transport \<Rightarrow> 'c any_transport" where
  "Transport_done c addr (Spectral t) = Spectral (Spectral_done c addr t)"
| "Transport_done c addr (QUIC t) = QUIC (QUIC_done c addr t)"

text \<open>
  The steps of the process. A session's step that dials goes through the transport; all others are steps
  of \<open>session_run\<close> that dial nothing. What the network answers may differ from step to step.
\<close>

inductive proxy_run :: "env \<Rightarrow> 'c proxy \<Rightarrow> 'c proxy \<Rightarrow> bool" for E x0 where
  start: "proxy_run E x0 x0"
| listen: "proxy_run E x0 x \<Longrightarrow> proxy_run E x0 (snd (Spectrum_Listen net config x))"
| accept: "proxy_run E x0 x \<Longrightarrow> proxy_run E x0 (snd (Spectrum_Accept incoming x))"
| login: "proxy_run E x0 x \<Longrightarrow> i < length (x_sessions x) \<Longrightarrow> proxy_run E x0 (snd (dialling E N i Login_start x))"
| logged_in: "proxy_run E x0 x \<Longrightarrow> i < length (x_sessions x) \<Longrightarrow> proxy_run E x0 (snd (login_ended E i r x))"
| transfer: "proxy_run E x0 x \<Longrightarrow> i < length (x_sessions x) \<Longrightarrow>
    proxy_run E x0 (snd (dialling E N i (\<lambda>E'. transfer_start (with_timeout d E') addr) x))"
| handle: "proxy_run E x0 x \<Longrightarrow> i < length (x_sessions x) \<Longrightarrow> j < length (s_conns (x_sessions x ! i)) \<Longrightarrow>
    proxy_run E x0 (snd (dialling E N i (\<lambda>E'. server_handle E' j res) x))"
| session: "proxy_run E x0 x \<Longrightarrow> i < length (x_sessions x) \<Longrightarrow> session_run E (session_world i x) w \<Longrightarrow>
    s_dials (w_session w) = s_dials (x_sessions x ! i) \<Longrightarrow> proxy_run E x0 (snd (on_session i (\<lambda>_. ((), w)) x))"
| api: "proxy_run E x0 x \<Longrightarrow>
    proxy_run E x0 (snd (snd (snd (API_handle closes c n (NewAPI (proxy_ops E N uni) auth) x))))"
| ended: "proxy_run E x0 x \<Longrightarrow> proxy_run E x0 (x\<lparr>sp_transport := Transport_done k addr (sp_transport x)\<rparr>)"
| shutdown: "proxy_run E x0 x \<Longrightarrow> proxy_run E x0 (snd (Spectrum_Close E x))"

definition session_inv :: "nat \<Rightarrow> session \<Rightarrow> bool" where
  "session_inv i s \<longleftrightarrow> s_id s = i \<and> one_open s \<and> (s_once s \<longrightarrow> s_ctx s \<noteq> None)"

definition proxy_inv :: "'c proxy \<Rightarrow> bool" where
  "proxy_inv x \<longleftrightarrow>
     (\<forall>i < length (x_sessions x). session_inv i (x_sessions x ! i)) \<and>
     finite (dom (sp_registry x)) \<and>
     (\<forall>u i. sp_registry x u = Some i \<longrightarrow> i < length (x_sessions x) \<and> k_XUID (s_client (x_sessions x ! i)) = u) \<and>
     transport_ok (sp_transport x)"

section \<open>Lemmas\<close>

lemma session_world_simps [simp]:
  "w_session (session_world i x) = x_sessions x ! i" "w_registry (session_world i x) = sp_registry x"
  by (simp_all add: session_world_def)

text \<open>A step of one session that keeps its history keeps the whole.\<close>

lemma on_session_inv:
  assumes "proxy_inv x" "i < length (x_sessions x)" "evolves (session_world i x) w" "one_open (w_session w)"
    and "f (session_world i x) = (r, w)"
  shows "proxy_inv (snd (on_session i f x))"
proof -
  let ?s = "x_sessions x ! i" and ?u = "k_XUID (s_client (x_sessions x ! i))"
  from assms(1,2) have s: "session_inv i ?s" by (simp add: proxy_inv_def)
  from assms(3) have w: "s_id (w_session w) = s_id ?s" "k_XUID (w_client w) = ?u"
    "s_once (w_session w) \<longrightarrow> s_once ?s \<or> s_ctx (w_session w) \<noteq> None"
    "s_ctx ?s \<noteq> None \<longrightarrow> s_ctx (w_session w) = s_ctx ?s" and own: "own_entry ?u (s_id ?s) (sp_registry x) (w_registry w)"
    by (auto simp: evolves_def k_evolves_def)
  have reg: "finite (dom (w_registry w))"
    using own assms(1) by (rule_tac finite_subset [of _ "insert ?u (dom (sp_registry x))"]) (auto simp: own_entry_def proxy_inv_def dom_def)
  have "sp_registry x v = Some j \<or> v = ?u \<and> j = i" if "w_registry w v = Some j" for v j
    using own s that by (cases "v = ?u") (auto simp: own_entry_def session_inv_def)
  then have lookup: "j < length (x_sessions x) \<and> k_XUID (s_client ((x_sessions x)[i := w_session w] ! j)) = v"
    if "w_registry w v = Some j" for v j
    using assms(1,2) w(2) that by (cases "j = i") (fastforce simp: proxy_inv_def)+
  have "session_inv i (w_session w)" using s w assms(4) by (auto simp: session_inv_def)
  with assms(1,2) reg lookup show ?thesis
    by (simp add: on_session_def assms(5) proxy_inv_def nth_list_update)
qed

lemma Transport_Dial_ok: "transport_ok t \<Longrightarrow> transport_ok (snd (Transport_Dial N addr t))"
  using spectral.Dial_inv by (cases t) (auto simp: case_prod_beta QUIC_equiv_Spectral)

lemma dialled_ok: "transport_ok t \<Longrightarrow> transport_ok (fold (\<lambda>addr t. snd (Transport_Dial N addr t)) addrs t)"
  by (induction addrs arbitrary: t) (simp_all add: Transport_Dial_ok)

lemma Transport_done_ok: "transport_ok t \<Longrightarrow> transport_ok (Transport_done c addr t)"
  by (cases t) (auto simp: spectral.done_inv quic.done_inv)

lemma proxy_inv_transport: "proxy_inv x \<Longrightarrow> transport_ok t \<Longrightarrow> proxy_inv (x\<lparr>sp_transport := t\<rparr>)"
  by (simp add: proxy_inv_def)

lemma dialling_inv:
  assumes "proxy_inv x" "i < length (x_sessions x)"
    and "\<And>E. one_open (x_sessions x ! i) \<Longrightarrow>
      evolves (session_world i x) (snd (f E (session_world i x))) \<and> one_open (w_session (snd (f E (session_world i x))))"
  shows "proxy_inv (snd (dialling E N i f x))"
proof -
  let ?E = "E\<lparr>e_dial := \<lambda>_ addr. fst (Transport_Dial N addr (sp_transport x)), e_dial_time := \<lambda>_ _. 0\<rparr>"
  have "one_open (x_sessions x ! i)" using assms(1,2) by (simp add: proxy_inv_def session_inv_def)
  note f = assms(3) [OF this, of ?E]
  have "proxy_inv (snd (on_session i (f ?E) x))"
    by (rule on_session_inv [where f = "f ?E", OF assms(1,2) conjunct1 [OF f] conjunct2 [OF f] prod.collapse [symmetric]])
  moreover have "transport_ok (sp_transport x)" using assms(1) by (simp add: proxy_inv_def)
  ultimately show ?thesis
    by (simp add: dialling_def case_prod_beta Let_def proxy_inv_transport dialled_ok)
qed

lemma disconnect_inv:
  assumes "proxy_inv x" "i < length (x_sessions x)"
  shows "proxy_inv (snd (on_session i (Session_Disconnect E message) x))"
proof (rule on_session_inv [OF assms])
  let ?w = "session_world i x" and ?e = "ErrorString message"
  show "Session_Disconnect E message ?w = (fst (Session_CloseWithError E ?e ?w), snd (Session_CloseWithError E ?e ?w))"
    by (simp add: Session_Disconnect_def)
  show "evolves ?w (snd (Session_CloseWithError E ?e ?w))" by (rule Session_CloseWithError_evolves [OF prod.collapse [symmetric]])
  show "one_open (w_session (snd (Session_CloseWithError E ?e ?w)))"
    using assms by (simp add: Session_CloseWithError_one_open proxy_inv_def session_inv_def)
qed

lemma transfer_inv:
  assumes "proxy_inv x" "i < length (x_sessions x)"
  shows "proxy_inv (snd (dialling E N i (\<lambda>E'. Session_Transfer E' addr) x))"
  by (rule dialling_inv [where f = "\<lambda>E'. Session_Transfer E' addr", OF assms])
     (simp add: TransferContext_evolves [OF prod.collapse [symmetric]] Session_Transfer_def TransferContext_one_open)

lemma lookup_inv:
  assumes "orders_ok (e_orders E)" "proxy_inv x" "so_byUsername (proxy_ops E N uni) u x = Some i"
  shows "i < length (x_sessions x)"
proof -
  have "finite (dom (sp_registry x))" "key_order (o_str (e_orders E))"
    using assms(1,2) by (auto simp: proxy_inv_def orders_ok_def key_order_def)
  from GetSessionByUsername_Some [OF this, of uni "display_name x" u i] assms(2,3) show ?thesis
    by (auto simp: proxy_ops_def proxy_inv_def)
qed

text \<open>The sessions of the process meet the contract of the API service.\<close>

interpretation proxy_service: session_service "proxy_ops E N uni" "\<lambda>x. orders_ok (e_orders E) \<and> proxy_inv x" for E N uni
  by unfold_locales (auto simp: proxy_ops_def intro: disconnect_inv transfer_inv dest: lookup_inv [unfolded proxy_ops_def])

lemma disconnect_all_inv:
  "proxy_inv x \<Longrightarrow> set is \<subseteq> {..<length (x_sessions x)} \<Longrightarrow> proxy_inv (snd (disconnect_all E message is x))"
proof (induction "is" arbitrary: x)
  case (Cons i js)
  obtain r x1 where 1: "on_session i (Session_Disconnect E message) x = (r, x1)" by fastforce
  have "proxy_inv x1" using disconnect_inv [of x i E message] Cons.prems 1 by simp
  with Cons.IH [of x1] Cons.prems on_session_frame(1) [OF 1] 1 show ?case by (cases r) auto
qed simp

lemma Spectrum_Close_inv:
  assumes "orders_ok (e_orders E)" "proxy_inv x"
  shows "proxy_inv (snd (Spectrum_Close E x))"
proof -
  let ?is = "GetSessions (o_str (e_orders E)) (sp_registry x)"
  have "set ?is \<subseteq> {..<length (x_sessions x)}"
    using assms by (auto simp: GetSessions_def orders_ok_def proxy_inv_def)
  note inv = disconnect_all_inv [OF assms(2) this, of E "ShutdownMessage (sp_opts x)"]
  obtain r x1 where 1: "disconnect_all E (ShutdownMessage (sp_opts x)) ?is x = (r, x1)" by fastforce
  with inv have "proxy_inv x1" by simp
  then show ?thesis using 1
    by (cases r) (auto simp: Spectrum_Close_def proxy_inv_def split: option.split)
qed

lemma NewSession_inv: "session_inv i (NewSession i conn)"
  by (simp add: session_inv_def one_open_def NewSession_def session_wf_def tracker_finite_def newTracker_def)

lemma Spectrum_Accept_inv: "proxy_inv x \<Longrightarrow> proxy_inv (snd (Spectrum_Accept incoming x))"
proof -
  assume x: "proxy_inv x"
  have "proxy_inv (x\<lparr>x_sessions := x_sessions x @ [NewSession (length (x_sessions x)) conn]\<rparr>)" for conn
    using x NewSession_inv by (auto simp: proxy_inv_def nth_append less_Suc_eq)
  then show ?thesis using x
    by (auto simp: Spectrum_Accept_def Let_def proxy_inv_def split: option.split sum.split)
qed

lemma proxy_run_inv:
  assumes "proxy_run E x0 x" "proxy_inv x0" "orders_ok (e_orders E)"
  shows "proxy_inv x"
  using assms(1)
proof induction
  case (listen x net config)
  then show ?case by (simp add: Spectrum_Listen_def proxy_inv_def split: sum.split)
next
  case (login x i N)
  show ?case
    by (rule dialling_inv [OF login.IH login.hyps(2)])
       (simp add: Login_start_def login_start_evolves [OF prod.collapse [symmetric]] login_start_one_open)
next
  case (logged_in x i r)
  have "proxy_inv (x\<lparr>x_logins := remove1 i (x_logins x)\<rparr>)" using logged_in.IH by (simp add: proxy_inv_def)
  with logged_in.hyps(2) show ?case by (cases r) (auto simp: login_ended_def intro: disconnect_inv)
next
  case (transfer x i N d addr)
  show ?case
    by (rule dialling_inv [OF transfer.IH transfer.hyps(2)])
       (simp add: transfer_start_evolves [OF prod.collapse [symmetric]] transfer_start_one_open [OF _ prod.collapse [symmetric]])
next
  case (handle x i j N res)
  show ?case
    by (rule dialling_inv [OF handle.IH handle.hyps(2)])
       (simp add: server_handle_evolves server_handle_one_open handle.hyps(3))
next
  case (session x i w)
  from session_run_evolves [OF session.hyps(3)] session_run_one_open [OF session.hyps(3)] session.IH session.hyps(2)
  show ?case by (intro on_session_inv) (auto simp: proxy_inv_def session_inv_def)
next
  case (api x closes c n N uni auth)
  with proxy_service.API_handle_keeps [of E x] assms(3) show ?case by blast
next
  case (ended x k addr)
  then show ?case by (simp add: proxy_inv_def Transport_done_ok)
qed (use assms in \<open>simp_all add: Spectrum_Accept_inv Spectrum_Close_inv\<close>)

section \<open>Properties\<close>

text \<open>
  C8. In every state that the process can reach from its start, whatever the players, the servers, the
  API clients and the network do: a registered session is one that was accepted and is registered
  under its own account, no session is registered twice, every session has at most one open connection
  to a server, a closed session is cancelled, and every connection of the transport is watched.
\<close>

theorem process_invariant:
  assumes "proxy_run E (new_process (NewSpectrum disc op None)) x" "orders_ok (e_orders E)"
  shows "(\<forall>u i. GetSession u (sp_registry x) = Some i \<longrightarrow>
       i < length (x_sessions x) \<and> k_XUID (s_client (x_sessions x ! i)) = u) \<and>
    (\<forall>u v i. GetSession u (sp_registry x) = Some i \<longrightarrow> GetSession v (sp_registry x) = Some i \<longrightarrow> u = v) \<and>
    (\<forall>i < length (x_sessions x). one_open (x_sessions x ! i) \<and>
       (s_once (x_sessions x ! i) \<longrightarrow> s_ctx (x_sessions x ! i) \<noteq> None)) \<and>
    transport_ok (sp_transport x)"
proof -
  have "proxy_inv (new_process (NewSpectrum disc op None))"
    by (simp add: proxy_inv_def new_process_def spectrum.defs proxy.defs NewSpectrum_def NewRegistry_def NewSpectral_def transport_inv_def)
  from proxy_run_inv [OF assms(1) this assms(2)] have inv: "proxy_inv x" .
  then have reg: "\<forall>u i. GetSession u (sp_registry x) = Some i \<longrightarrow>
       i < length (x_sessions x) \<and> k_XUID (s_client (x_sessions x ! i)) = u"
    by (simp add: proxy_inv_def GetSession_def)
  then have "\<forall>u v i. GetSession u (sp_registry x) = Some i \<longrightarrow> GetSession v (sp_registry x) = Some i \<longrightarrow> u = v"
    by metis
  with reg inv show ?thesis by (simp add: proxy_inv_def session_inv_def)
qed

theorem process_invariant_witness:
  "\<exists>E x. proxy_run E (new_process (NewSpectrum (NewStaticDiscovery ''lobby'' ''fallback'') None None) :: unit proxy) x \<and>
    GetSession ''1'' (sp_registry x) = Some 0 \<and> k_XUID (s_client (x_sessions x ! 0)) = ''1'' \<and> one_open (x_sessions x ! 0)"
proof -
  obtain ord where ord: "orders_ok (e_orders (demo_env\<lparr>e_orders := ord\<rparr>))" using orders_exist by auto
  let ?E = "demo_env\<lparr>e_orders := ord\<rparr>"
  let ?x0 = "new_process (NewSpectrum (NewStaticDiscovery ''lobby'' ''fallback'') None None) :: unit proxy"
  let ?x1 = "snd (Spectrum_Listen (\<lambda>_ _ addr. Inr \<lparr>ml_Addr = addr, ml_closed = False\<rparr>) \<lparr>EnableBatchReading = False, lc_rest = []\<rparr> ?x0)"
  let ?x2 = "snd (Spectrum_Accept (Inr demo_client) ?x1)"
  let ?y = "snd (on_session 0 (\<lambda>_. ((), login_register (session_world 0 ?x2))) ?x2)"
  have s2: "x_sessions ?x2 = [NewSession 0 demo_client]"
    by (simp add: Spectrum_Accept_def Spectrum_Listen_def new_process_def spectrum.defs proxy.defs NewSpectrum_def DefaultOpts_def)
  have run: "proxy_run ?E ?x0 ?y"
  proof (rule proxy_run.session)
    show "proxy_run ?E ?x0 ?x2" by (rule proxy_run.accept [OF proxy_run.listen [OF proxy_run.start]])
    show "session_run ?E (session_world 0 ?x2) (login_register (session_world 0 ?x2))"
      by (rule session_run.registered [OF session_run.start])
  qed (simp_all add: s2 login_register_def)
  have x: "GetSession ''1'' (sp_registry ?y) = Some 0" "length (x_sessions ?y) = 1"
    by (simp_all add: on_session_def login_register_def AddSession_def GetSession_def s2 NewSession_def)
  with process_invariant [OF run ord] run show ?thesis by (metis less_one)
qed

end
