(* ===== verification/Progress.thy ===== *)
theory Progress
  imports Connection_Sequence Handler
begin

text \<open>
  A transfer does complete. The other theories show what holds whenever the connection sequence has
  been run through; here the server's side is given, as the frames that it sends (\<open>arrives\<close>), and
  the reads of the session are shown to get through them: no handler fails, the callback of the
  transfer runs, and the player is spawned on the new server.
\<close>

section \<open>Definitions\<close>

text \<open>
  The payload of a frame that the connection decodes as \<open>x\<close>: after the flag byte a raw payload, or the
  header of a packet that the protocol knows and its fields, whatever the header object held before and
  whatever the identifier of the shield is by then.
\<close>

fun arrives :: "mclib \<Rightarrow> proto \<Rightarrow> bytes \<Rightarrow> any \<Rightarrow> bool" where
  "arrives L P [] x = False"
| "arrives L P (flags # body) x \<longleftrightarrow>
     length body + 1 < 2 ^ 32 \<and>
     (case (if flags AND flagPacketCompressed \<noteq> 0 then snappy_Decode L body else Ok body) of
        Ok b \<Rightarrow>
          (case x of
             Raw b' \<Rightarrow> flags AND flagPacketDecode = 0 \<and> b' = b
           | Pk pk \<Rightarrow> flags AND flagPacketDecode \<noteq> 0 \<and>
               (\<forall>h0. \<exists>h fields zero. mc_HeaderRead L h0 b = (Ok (), h, fields) \<and>
                  proto_Packets P False (h_PacketID h) = Some zero \<and>
                  (\<forall>shield. fst (Marshal L (proto_NewReader P shield False) zero fields) = Ok pk)))
      | _ \<Rightarrow> False)"

text \<open>A packet that the protocol's writers can encode.\<close>

definition encodes :: "mclib \<Rightarrow> proto \<Rightarrow> packet \<Rightarrow> bool" where
  "encodes L P pk \<longleftrightarrow>
     (\<forall>shield h. \<exists>pk' b. Marshal L (proto_NewWriter P shield) pk (mc_HeaderWrite L h) = (Ok pk', b) \<and> length b < 2 ^ 31)"

text \<open>What is received completes the connection sequence with its last packet.\<close>

definition completes :: "bool \<Rightarrow> any list \<Rightarrow> bool" where
  "completes modern xs \<longleftrightarrow> q_phase (fold (seq_step modern) xs seq_init) = Connected \<and>
     q_phase (fold (seq_step modern) (butlast xs) seq_init) \<noteq> Connected"

text \<open>A connection in the middle of the sequence whose writes go through.\<close>

definition writable :: "'cb conn \<Rightarrow> bool" where
  "writable c \<longleftrightarrow> c_ctx c = None \<and> writer_wf (c_writer c) \<and> k_faults (w_w (c_writer c)) = []"

definition pending :: "mclib \<Rightarrow> proto \<Rightarrow> 'cb option \<Rightarrow> 'cb conn \<Rightarrow> bool" where
  "pending L P cb c \<longleftrightarrow> writable c \<and> conn_inv L c \<and> \<not> c_connected c \<and> \<not> c_spawned c \<and> \<not> c_syncProtocol c \<and>
     c_protocol c = P \<and> c_pool c = proto_Packets P False \<and> c_onConnect c = cb"

section \<open>Lemmas\<close>

subsection \<open>One frame\<close>

fun_cases arrivesE: "arrives L P p x"

lemma read_arrives:
  assumes "arrives L P p x" "c_protocol c = P" "c_pool c = proto_Packets P False"
    "c_reader c = \<lparr>s_data = frame p @ rest, s_end = e\<rparr>"
  shows "\<exists>g'. read L (g, c) = (Ok x, g', c\<lparr>c_reader := \<lparr>s_data = rest, s_end = e\<rparr>\<rparr>)"
proof -
  from assms(1) obtain flags body where p: "p = flags # body" by (rule arrivesE)
  with assms(1) have "length p < 2 ^ 32" by simp
  then have frame: "Reader_ReadPacket (c_reader c) = (Ok (flags # body), \<lparr>s_data = rest, s_end = e\<rparr>)"
    using frames.dec_enc [of p rest e] assms(4) p by simp
  obtain b where b: "(if flags AND flagPacketCompressed \<noteq> 0 then snappy_Decode L body else Ok body) = Ok b"
    using assms(1) p by (auto split: res.splits)
  obtain h0 g1 where g: "headerPool_Get g = (h0, g1)" by fastforce
  show ?thesis
  proof (cases x)
    case (Raw b')
    with assms(1) p b show ?thesis by (simp add: read_def frame)
  next
    case (Pk pk)
    with assms(1) p b obtain h fields zero where h: "mc_HeaderRead L h0 b = (Ok (), h, fields)"
      "proto_Packets P False (h_PacketID h) = Some zero" "flags AND flagPacketDecode \<noteq> 0"
      "\<And>shield. fst (Marshal L (proto_NewReader P shield False) zero fields) = Ok pk"
      by auto metis
    obtain r rest' where m: "Marshal L (proto_NewReader P (c_shieldID c) False) zero fields = (r, rest')" by fastforce
    with h(4) have "r = Ok pk" by (metis fst_conv)
    with h m b assms(2,3) g Pk show ?thesis by (simp add: read_def frame decode_server_packet_def)
  qed
qed

lemma WritePacket_writable:
  assumes "writable c" "snappy_codec L" "encodes L (c_protocol c) pk"
  shows "\<exists>g' wr. WritePacket L pk (g, c) = (Ok (), g', c\<lparr>c_writer := wr\<rparr>) \<and> writable (c\<lparr>c_writer := wr\<rparr>)"
proof -
  obtain h g1 where h: "headerPool_Get g = (h, g1)" by fastforce
  obtain pk' b where b: "Marshal L (proto_NewWriter (c_protocol c) (c_shieldID c)) pk
      (mc_HeaderWrite L (h\<lparr>h_PacketID := pk_ID L pk\<rparr>)) = (Ok pk', b)" "length b < 2 ^ 31"
    using assms(3) unfolding encodes_def by blast
  from write_compressing_delivers [OF _ _ assms(2) b(2), of c 0] assms(1) obtain wr where
    "write_compressing L 0 b c = (Ok (), c\<lparr>c_writer := wr\<rparr>)" "writer_wf wr" "k_faults (w_w wr) = []"
    by (auto simp: writable_def)
  with assms(1) b(1) h show ?thesis by (auto simp: WritePacket_def writable_def)
qed

text \<open>The two handlers that request the chunk radius.\<close>

lemma pending_deferred [simp]: "pending L P cb (deferPacket x c) = pending L P cb c" "c_reader (deferPacket x c) = c_reader c"
  by (simp_all add: pending_def writable_def deferPacket_def conn_inv_def)

lemma request_pending:
  assumes "pending L P cb c" "snappy_codec L" "encodes L P (RequestChunkRadius 16)"
    and "c_ctx c' = c_ctx c" "c_writer c' = c_writer c" "c_protocol c' = c_protocol c"
  obtains g' wr where "WritePacket L (RequestChunkRadius 16) (g, c') = (Ok (), g', c'\<lparr>c_writer := wr\<rparr>)"
    "writable (c'\<lparr>c_writer := wr\<rparr>)"
  using WritePacket_writable [of c' L "RequestChunkRadius 16" g] assms by (auto simp: pending_def writable_def)

lemma handleStartGame_pending:
  assumes "snappy_codec L" "encodes L P (RequestChunkRadius 16)" "pending L P cb c"
  shows "\<exists>g' c'. handleStartGame sg L (g, c) = (Ok (), g', c') \<and> c_reader c' = c_reader c \<and>
    (conn_inv L c' \<longrightarrow> pending L P cb c')"
proof (cases "conn_modern c")
  case True
  with assms(3) show ?thesis
    by (auto simp: handleStartGame_def conn_modern_def expect_def pending_def writable_def)
next
  case False
  let ?c = "expect [mc_IDChunkRadiusUpdated L] c"
  obtain g' wr where "WritePacket L (RequestChunkRadius 16) (g, ?c) = (Ok (), g', ?c\<lparr>c_writer := wr\<rparr>)"
    "writable (?c\<lparr>c_writer := wr\<rparr>)"
    by (rule request_pending [OF assms(3,1,2), of ?c]) (simp_all add: expect_def)
  with False assms(3) show ?thesis
    by (simp add: handleStartGame_def conn_modern_def) (auto simp: expect_def writable_def pending_def)
qed

lemma handleItemRegistry_pending:
  assumes "snappy_codec L" "encodes L P (RequestChunkRadius 16)" "pending L P cb c"
  shows "\<exists>g' c'. handleItemRegistry items L (g, c) = (Ok (), g', c') \<and> c_reader c' = c_reader c \<and>
    (conn_inv L c' \<longrightarrow> pending L P cb c')"
proof -
  let ?c = "(expect [mc_IDChunkRadiusUpdated L] c)\<lparr>c_gameData := (c_gameData c)\<lparr>gd_Items := items\<rparr>,
    c_shieldID := find_shield items (c_shieldID c)\<rparr>"
  obtain g' wr where "WritePacket L (RequestChunkRadius 16) (g, ?c) = (Ok (), g', ?c\<lparr>c_writer := wr\<rparr>)"
    "writable (?c\<lparr>c_writer := wr\<rparr>)"
    by (rule request_pending [OF assms(3,1,2), of ?c]) (simp_all add: expect_def)
  with assms(3) show ?thesis
    by (simp add: handleItemRegistry_def Let_def expect_def) (simp add: pending_def)
qed

text \<open>Everything but the play status that is waited for: handled without failing, and still pending.\<close>

lemma handle_pending:
  assumes "ids_ok L" "snappy_codec L" "encodes L P (RequestChunkRadius 16)" "pending L P cb c"
    and "\<not> (conn_phase L c = AwaitPlayStatus \<and> (\<exists>st. pk = PlayStatus st))"
  shows "\<exists>g' c'. handle_expected run L pk (g, c) = (Ok (), g', c') \<and> c_reader c' = c_reader c \<and>
    (conn_inv L c' \<longrightarrow> pending L P cb c')"
proof -
  have inv: "conn_inv L c" and nc: "\<not> c_connected c" using assms(4) by (simp_all add: pending_def)
  note d = ids_ok_IDs [OF assms(1)] ids_ok_distinct [OF assms(1)] ids_ok_distinct [OF assms(1), symmetric]
  show ?thesis
  proof (cases rule: packet_kind_cases [of pk])
    case (1 rid uid)
    with assms(4) show ?thesis
      by (auto simp: handle_expected_def handleConnectionResponse_def conn_upd_defs pending_def writable_def)
  next
    case (2 sg)
    with handleStartGame_pending [OF assms(2-4), of sg g] assms(4) show ?thesis by (simp add: handle_expected_def d)
  next
    case (3 items)
    with handleItemRegistry_pending [OF assms(2-4), of items g] assms(4) show ?thesis by (simp add: handle_expected_def d)
  next
    case (4 rad)
    with assms(4) show ?thesis
      by (auto simp: handle_expected_def handleChunkRadiusUpdated_def conn_upd_defs pending_def writable_def)
  next
    case (5 st)
    with assms(5) nc have "mc_IDPlayStatus L \<notin> set (c_expectedIds c)"
      by (cases rule: conn_inv_cases [OF inv assms(1)]) (auto simp: d)
    with 5 assms(4) show ?thesis by (simp add: handle_expected_def d)
  next
    case 6
    with assms(4) show ?thesis by (simp add: handle_expected_other)
  qed
qed

subsection \<open>Dialling and requesting\<close>

lemma DoConnect_writable:
  assumes "writable c" "snappy_codec L" "ci_ClientData (c_client c) = Ok cd" "ci_IdentityData (c_client c) = Ok idd"
    "encodes L (c_protocol c) (ConnectionRequest (ci_RemoteAddr (c_client c)) cd idd (proto_ID (c_protocol c)) (c_cache c))"
  shows "\<exists>g' wr. DoConnect L (g, c) = (Ok (), g', c\<lparr>c_writer := wr\<rparr>) \<and> writable (c\<lparr>c_writer := wr\<rparr>)"
  using WritePacket_writable [OF assms(1,2,5), of g] assms(1,3,4) by (simp add: DoConnect_def writable_def)

lemma session_dial_new:
  assumes "one_open (w_session w)" "s_ctx (w_session w) = None" "e_dial E (length (s_dials (w_session w))) addr = Ok io"
    and "i = length (s_conns (w_session w))"
  obtains w' where "session_dial E addr w = (Ok i, w')" "length (s_conns (w_session w')) = Suc i"
    "s_conns (w_session w') ! i = NewConn (e_lib E) io (k_info (w_client w)) (SyncProtocol (e_opts E)) (s_cache (w_session w))"
    "s_serverConn (w_session w') = Some i" "s_serverAddr (w_session w') = addr" "w_registry w' = w_registry w"
    "s_dials (w_session w') = s_dials (w_session w) @ [addr]" "w_client w' = w_client w"
    "s_processor (w_session w') = s_processor (w_session w)" "s_id (w_session w') = s_id (w_session w)"
proof (cases "s_serverConn (w_session w)")
  case None
  with assms that show thesis by (simp add: session_dial_def Let_def)
next
  case (Some j)
  obtain r1 w1 where 1: "with_conn j (CloseWithError (transfer_callback E) (ErrorString ''closed by application'')) w = (r1, w1)"
    by fastforce
  then obtain c' ns where "r1 = Ok ()" "w1 = upd_s (\<lambda>s. s\<lparr>s_notices := s_notices s @ ns, s_conns := (s_conns s)[j := c']\<rparr>) w"
    by (rule with_conn_close)
  with 1 assms Some that show thesis by (simp add: session_dial_def Conn_Close_def [abs_def] Let_def nth_append)
qed

lemma DoConnect_world:
  fixes w :: world
  assumes "DoConnect L (w, c) = (r, w', c')"
  shows "\<exists>hs. w' = w\<lparr>headerPool := hs\<rparr>"
proof -
  have "\<exists>hs. w = w\<lparr>headerPool := hs\<rparr>" by (rule exI [of _ "headerPool w"]) simp
  with assms show ?thesis by (auto simp: DoConnect_def split: option.splits res.splits dest: WritePacket_world)
qed

text \<open>
  A transfer up to the registered callback: the session points to the new connection, on which the
  request has been sent.
\<close>

lemma Session_Transfer_starts:
  assumes "one_open (w_session w)" "s_ctx (w_session w) = None" "i = length (s_conns (w_session w))"
    and "ProcessPreTransfer (s_processor (w_session w)) NewContext (s_serverAddr (w_session w)) addr0 = (ctx, origin, addr)"
      "\<not> Context_Cancelled ctx"
    and "e_dial E (length (s_dials (w_session w))) addr = Ok (rd, k)" "e_dial_time E (length (s_dials (w_session w))) addr \<le> minute"
    and "k_faults k = []" "snappy_codec (e_lib E)" "\<not> SyncProtocol (e_opts E)" "P = mc_DefaultProtocol (e_lib E)"
    and "ci_ClientData (k_info (w_client w)) = Ok cd" "ci_IdentityData (k_info (w_client w)) = Ok idd"
      "encodes (e_lib E) P (ConnectionRequest (ci_RemoteAddr (k_info (w_client w))) cd idd (proto_ID P) (s_cache (w_session w)))"
  obtains w' wr where "Session_Transfer E addr0 w = (Ok (), w')" "length (s_conns (w_session w')) = Suc i"
    "s_conns (w_session w') ! i = dialled_conn (e_lib E) (rd, k) (k_info (w_client w)) False (s_cache (w_session w)) wr
       (Some \<lparr>cb_origin = origin, cb_addr = addr\<rparr>)" "writer_wf wr" "k_faults (w_w wr) = []"
    "s_serverConn (w_session w') = Some i" "s_serverAddr (w_session w') = addr" "w_registry w' = w_registry w"
    "s_dials (w_session w') = s_dials (w_session w) @ [addr]"
proof -
  let ?E = "with_timeout minute E" and ?L = "e_lib E"
  let ?w0 = "upd_k (sendMetadata True) (upd_s (\<lambda>s. s\<lparr>s_notices := s_notices s @ [NotedPreTransfer (s_serverAddr (w_session w)) addr0]\<rparr>) w)"
  have info: "k_info (w_client ?w0) = k_info (w_client w)" by (simp add: sendMetadata_def)
  let ?c = "NewConn ?L (rd, k) (k_info (w_client w)) False (s_cache (w_session w)) :: callback conn"
  have "one_open (w_session ?w0)" "s_ctx (w_session ?w0) = None" "i = length (s_conns (w_session ?w0))"
    "e_dial ?E (length (s_dials (w_session ?w0))) addr = Ok (rd, k)"
    using assms(1-3,6,7) by (simp_all add: with_timeout_def)
  from session_dial_new [OF this(1,2,4,3)] obtain w1 where 1: "session_dial ?E addr ?w0 = (Ok i, w1)"
    "length (s_conns (w_session w1)) = Suc i" "s_conns (w_session w1) ! i = ?c"
    "s_serverConn (w_session w1) = Some i" "s_serverAddr (w_session w1) = addr" "w_registry w1 = w_registry w"
    "s_dials (w_session w1) = s_dials (w_session w) @ [addr]"
    using assms(10) info by auto
  have c: "writable ?c" "c_client ?c = k_info (w_client w)" "c_protocol ?c = P" "c_cache ?c = s_cache (w_session w)"
    using assms(8,11) by (simp_all add: NewConn_def expect_def writable_def Let_def) (simp add: NewWriter_def)
  from DoConnect_writable [OF c(1) assms(9), of cd idd w1] assms(12-14) c obtain w2 wr where
    2: "DoConnect ?L (w1, ?c) = (Ok (), w2, ?c\<lparr>c_writer := wr\<rparr>)" "writable (?c\<lparr>c_writer := wr\<rparr>)" by auto
  obtain hs where w2: "w2 = w1\<lparr>headerPool := hs\<rparr>" using DoConnect_world [OF 2(1)] by blast
  let ?w2 = "upd_s (\<lambda>s. s\<lparr>s_conns := (s_conns s)[i := ?c\<lparr>c_writer := wr\<rparr>]\<rparr>) w2"
  have t: "transfer_start ?E addr0 w = (Ok (i, \<lparr>cb_origin = origin, cb_addr = addr\<rparr>), ?w2)"
    using 1(1,3) 2(1) assms(4,5) by (simp add: transfer_start_def with_conn_def Let_def)
  have wr: "writer_wf wr" "k_faults (w_w wr) = []" using 2(2) by (auto simp: writable_def)
  show thesis
  proof (rule that [OF _ _ _ wr])
    show "Session_Transfer E addr0 w = (Ok (), transfer_register (i, \<lparr>cb_origin = origin, cb_addr = addr\<rparr>) ?w2)"
      by (simp add: Session_Transfer_def TransferContext_def t)
  qed (use 1 w2 in \<open>simp_all add: transfer_register_def with_conn_def OnConnect_def dialled_conn_def\<close>)
qed

subsection \<open>The whole sequence\<close>

lemma seq_step_connected:
  "q_phase (seq_step m x q) = Connected \<longleftrightarrow>
   q_phase q = Connected \<or> q_phase q = AwaitPlayStatus \<and> (\<exists>st. x = Pk (PlayStatus st))"
proof (cases x)
  case (Pk pk)
  then show ?thesis
    by (cases "q_phase q"; cases pk) (simp_all add: seq_step.simps Let_def)
qed simp

lemma fold_seq_connected: "q_phase q = Connected \<Longrightarrow> q_phase (fold (seq_step m) xs q) = Connected"
  using seq_fold_mono [of q m xs] by simp

context connect_callback
begin

lemma pass_pending:
  assumes "ids_ok L" "snappy_codec L" "encodes L P (RequestChunkRadius 16)" "pending L P cb c" "arrives L P p x"
    and "c_reader c = \<lparr>s_data = frame p @ rest, s_end = e\<rparr>"
    and "q_phase (seq_step (conn_modern c) x (conn_seq L c)) \<noteq> Connected"
  shows "\<exists>g' c'. ReadPacket_pass run L pick (g, c) = Inr (g', c') \<and>
    pending L P cb c' \<and> c_reader c' = \<lparr>s_data = rest, s_end = e\<rparr> \<and>
    conn_seq L c' = seq_step (conn_modern c) x (conn_seq L c)"
proof -
  let ?c = "c\<lparr>c_reader := \<lparr>s_data = rest, s_end = e\<rparr>\<rparr>"
  have c: "c_ctx c = None" "\<not> c_spawned c" "\<not> c_syncProtocol c" "c_protocol c = P" "c_pool c = proto_Packets P False"
    using assms(4) by (simp_all add: pending_def writable_def)
  have pend: "pending L P cb ?c" using assms(4) by (simp add: pending_def writable_def conn_inv_def)
  have same: "conn_seq L ?c = conn_seq L c" "conn_modern ?c = conn_modern c" "conn_inv L ?c" "conn_phase L ?c = conn_phase L c"
    using pend by (simp_all add: conn_seq_def conn_phase_def conn_modern_def pending_def)
  obtain g1 where read: "read L (g, c) = (Ok x, g1, ?c)" using read_arrives [OF assms(5) c(4,5) assms(6)] by blast
  show ?thesis
  proof (cases x)
    case (Raw b)
    with read c pend same show ?thesis
      by (intro exI [of _ g1] exI [of _ "deferPacket (Raw b) ?c"])
         (auto simp: ReadPacket_pass_def pending_def writable_def deferPacket_def conn_inv_def conn_seq_def conn_phase_def)
  next
    case (Pk pk)
    have "\<not> (conn_phase L ?c = AwaitPlayStatus \<and> (\<exists>st. pk = PlayStatus st))"
      using assms(7) Pk same by (auto simp: seq_step_connected conn_seq_def)
    from handle_pending [OF assms(1-3) pend this, of run g1] obtain g2 c2 where
      2: "handle_expected run L pk (g1, ?c) = (Ok (), g2, c2)" "c_reader c2 = c_reader ?c"
        "conn_inv L c2 \<longrightarrow> pending L P cb c2" by blast
    from handle_expected_refines [OF assms(1) same(3) 2(1)] same Pk
    have "conn_seq L c2 = seq_step (conn_modern c) x (conn_seq L c)" "conn_inv L c2" by simp_all
    with 2 read Pk c show ?thesis
      by (intro exI [of _ g2] exI [of _ c2]) (simp add: ReadPacket_pass_def handlePacket_def)
  qed
qed

lemma ReadPacket_all_pending:
  assumes "ids_ok L" "snappy_codec L" "encodes L P (RequestChunkRadius 16)"
  shows "list_all2 (arrives L P) ps xs \<Longrightarrow> pending L P cb c \<Longrightarrow>
    c_reader c = \<lparr>s_data = concat (map frame ps) @ rest, s_end = e\<rparr> \<Longrightarrow>
    q_phase (fold (seq_step (conn_modern c)) xs (conn_seq L c)) \<noteq> Connected \<Longrightarrow>
    \<exists>g' c'. (\<forall>fuel. ReadPacket run L pick (length xs + fuel) (g, c) = ReadPacket run L pick fuel (g', c')) \<and>
      pending L P cb c' \<and> c_reader c' = \<lparr>s_data = rest, s_end = e\<rparr> \<and>
      conn_seq L c' = fold (seq_step (conn_modern c)) xs (conn_seq L c)"
proof (induction arbitrary: g c rule: list_all2_induct)
  case Nil
  then show ?case by (intro exI [of _ g] exI [of _ c]) simp
next
  case (Cons p ps x xs)
  let ?rest = "concat (map frame ps) @ rest"
  have rd: "c_reader c = \<lparr>s_data = frame p @ ?rest, s_end = e\<rparr>" using Cons.prems(2) by simp
  have "q_phase (seq_step (conn_modern c) x (conn_seq L c)) \<noteq> Connected"
    using Cons.prems(3) fold_seq_connected by fastforce
  from pass_pending [OF assms Cons.prems(1) Cons.hyps(1) rd this, of pick g] obtain g1 c1 where
    1: "ReadPacket_pass run L pick (g, c) = Inr (g1, c1)" "pending L P cb c1"
      "c_reader c1 = \<lparr>s_data = ?rest, s_end = e\<rparr>" "conn_seq L c1 = seq_step (conn_modern c) x (conn_seq L c)" by blast
  have m: "conn_modern c1 = conn_modern c" using 1(2) Cons.prems(1) by (simp add: pending_def conn_modern_def)
  from Cons.IH [OF 1(2,3), of g1] Cons.prems(3) obtain g2 c2 where
    "\<And>fuel. ReadPacket run L pick (length xs + fuel) (g1, c1) = ReadPacket run L pick fuel (g2, c2)" "pending L P cb c2"
    "c_reader c2 = \<lparr>s_data = rest, s_end = e\<rparr>" "conn_seq L c2 = fold (seq_step (conn_modern c)) (x # xs) (conn_seq L c)"
    unfolding m 1(4) by auto
  with 1(1) show ?case by (intro exI [of _ g2] exI [of _ c2]) (simp add: ReadPacket.simps(2) del: ReadPacket_Suc)
qed

end

subsection \<open>The callback\<close>

lemma DoSpawn_writable:
  assumes "writable c" "\<not> c_spawned c" "snappy_codec L"
    "encodes L (c_protocol c) (ClientCacheStatus (ci_CacheEnabled (c_client c)))"
    "encodes L (c_protocol c) (SetLocalPlayerAsInitialised (c_runtimeID c))"
  shows "\<exists>g' wr. DoSpawn L (g, c) = (Ok (), g', c\<lparr>c_spawned := True, c_writer := wr\<rparr>)"
proof -
  have c: "writable (c\<lparr>c_spawned := True\<rparr>)" "c_ctx c = None" using assms(1) by (simp_all add: writable_def)
  obtain g1 wr1 where 1: "WritePacket L (ClientCacheStatus (ci_CacheEnabled (c_client c))) (g, c\<lparr>c_spawned := True\<rparr>) =
      (Ok (), g1, c\<lparr>c_spawned := True, c_writer := wr1\<rparr>)" "writable (c\<lparr>c_spawned := True, c_writer := wr1\<rparr>)"
    using WritePacket_writable [OF c(1) assms(3), of "ClientCacheStatus (ci_CacheEnabled (c_client c))" g] assms(4) by auto
  obtain g2 wr2 where "WritePacket L (SetLocalPlayerAsInitialised (c_runtimeID c)) (g1, c\<lparr>c_spawned := True, c_writer := wr1\<rparr>) =
      (Ok (), g2, c\<lparr>c_spawned := True, c_writer := wr2\<rparr>)"
    using WritePacket_writable [OF 1(2) assms(3), of "SetLocalPlayerAsInitialised (c_runtimeID c)" g1] assms(5) by auto
  with 1 c assms(2) show ?thesis by (auto simp: DoSpawn_def)
qed

lemma transfer_callback_succeeds:
  assumes "writable c" "\<not> c_spawned c" "snappy_codec (e_lib E)"
    "encodes (e_lib E) (c_protocol c) (ClientCacheStatus (ci_CacheEnabled (c_client c)))"
    "encodes (e_lib E) (c_protocol c) (SetLocalPlayerAsInitialised (c_runtimeID c))"
  shows "\<exists>w' wr. transfer_callback E cb None (w, c) = (Ok (), w', c\<lparr>c_spawned := True, c_writer := wr\<rparr>) \<and>
    s_notices (w_session w') = s_notices (w_session w) @ [NotedPostTransfer (cb_origin cb) (cb_addr cb)] \<and>
    \<not> s_inFallback (w_session w')"
proof -
  let ?p = "Play (s_animation (w_session w)) (c_gameData c) (w_client w)"
  let ?w2 = "sendGameData E (c_gameData c) (upd_s (\<lambda>s. s\<lparr>s_animation := fst ?p, s_client := snd ?p\<rparr>) w)"
  obtain w3 wr where 3: "DoSpawn (e_lib E) (?w2, c) = (Ok (), w3, c\<lparr>c_spawned := True, c_writer := wr\<rparr>)"
    using DoSpawn_writable [OF assms, of ?w2] by blast
  from DoSpawn_world [OF 3] have "s_notices (w_session w3) = s_notices (w_session w)" by auto
  with 3 show ?thesis
    by (simp add: transfer_callback_def Let_def case_prod_beta) blast
qed

text \<open>The play status at the end: the callback spawns the player, and the read goes on to what was deferred.\<close>

lemma ReadPacket_completing:
  assumes "ids_ok (e_lib E)" "snappy_codec (e_lib E)" "pending (e_lib E) P (Some cb) c"
    and "arrives (e_lib E) P p (Pk (PlayStatus st))" "c_reader c = \<lparr>s_data = frame p @ rest, s_end = e\<rparr>"
    and "conn_phase (e_lib E) c = AwaitPlayStatus"
    and "encodes (e_lib E) P (ClientCacheStatus (ci_CacheEnabled (c_client c)))"
      "encodes (e_lib E) P (SetLocalPlayerAsInitialised (c_runtimeID c))"
    and "c_deferred c @ [Pk (PlayStatus st)] = x # xs"
  shows "\<exists>w' c'. ReadPacket (transfer_callback E) (e_lib E) pick (Suc (Suc fuel)) (w, c) = Some (Ok x, w', c') \<and>
    c_connected c' \<and> c_spawned c' \<and> c_ctx c' = None \<and> c_deferred c' = xs \<and>
    c_reader c' = \<lparr>s_data = rest, s_end = e\<rparr> \<and>
    s_notices (w_session w') = s_notices (w_session w) @ [NotedPostTransfer (cb_origin cb) (cb_addr cb)] \<and>
    \<not> s_inFallback (w_session w')"
proof -
  let ?L = "e_lib E"
  have c: "c_ctx c = None" "\<not> c_spawned c" "\<not> c_syncProtocol c" "c_protocol c = P" "c_pool c = proto_Packets P False"
    "\<not> c_connected c" "c_onConnect c = Some cb" "conn_inv ?L c"
    using assms(3) by (simp_all add: pending_def writable_def)
  have id: "c_expectedIds c = [mc_IDPlayStatus ?L]"
    using assms(6) by (cases rule: conn_inv_cases [OF c(8) assms(1)]) simp_all
  let ?c = "c\<lparr>c_reader := \<lparr>s_data = rest, s_end = e\<rparr>\<rparr>"
  let ?c2 = "(deferPacket (Pk (PlayStatus st)) ?c)\<lparr>c_connected := True\<rparr>"
  obtain w1 where read: "read ?L (w, c) = (Ok (Pk (PlayStatus st)), w1, ?c)"
    using read_arrives [OF assms(4) c(4,5) assms(5)] by blast
  then have n: "s_notices (w_session w1) = s_notices (w_session w)" by (auto dest: read_world)
  have "writable ?c2" "\<not> c_spawned ?c2" using assms(3) by (simp_all add: pending_def writable_def deferPacket_def)
  from transfer_callback_succeeds [OF this assms(2), of cb w1] assms(7,8) c(4)
  obtain w' wr where t: "transfer_callback E cb None (w1, ?c2) = (Ok (), w', ?c2\<lparr>c_spawned := True, c_writer := wr\<rparr>)"
    "s_notices (w_session w') = s_notices (w_session w1) @ [NotedPostTransfer (cb_origin cb) (cb_addr cb)]"
    "\<not> s_inFallback (w_session w')" by (auto simp: deferPacket_def)
  have h: "handlePacket (transfer_callback E) ?L (PlayStatus st) (w1, ?c) = (Ok (), w', ?c2\<lparr>c_spawned := True, c_writer := wr\<rparr>)"
    using t(1) c id ids_ok_IDs(4) [OF assms(1)]
    by (simp add: handlePacket_def handle_expected_def handlePlayStatus_def Let_def) (simp add: deferPacket_def)
  show ?thesis
    using read h c t(2,3) n assms(9) by (simp add: deferPacket_def)
qed

lemma length_frames: "length ps \<le> length (concat (map frame ps))"
  by (induction ps) (simp_all add: frame_def)

text \<open>From the dial to the spawn, with fuel for every frame and two calls more.\<close>

lemma ReadPacket_transfer:
  assumes "ids_ok (e_lib E)" "snappy_codec (e_lib E)" "pending (e_lib E) P (Some cb) c"
    and "c_reader c = \<lparr>s_data = concat (map frame ps) @ rest, s_end = e\<rparr>" "conn_seq (e_lib E) c = seq_init"
    and "list_all2 (arrives (e_lib E) P) ps xs" "completes (conn_modern c) xs"
    and "encodes (e_lib E) P (RequestChunkRadius 16)" "\<forall>b. encodes (e_lib E) P (ClientCacheStatus b)"
      "\<forall>rid. encodes (e_lib E) P (SetLocalPlayerAsInitialised rid)"
    and "length xs < fuel"
  shows "\<exists>x w' c'. ReadPacket (transfer_callback E) (e_lib E) pick fuel (w, c) = Some (Ok x, w', c') \<and>
    c_connected c' \<and> c_spawned c' \<and> c_ctx c' = None \<and>
    x # c_deferred c' = q_deferred (fold (seq_step (conn_modern c)) xs seq_init) \<and>
    c_reader c' = \<lparr>s_data = rest, s_end = e\<rparr> \<and>
    (\<exists>ns. s_notices (w_session w') = ns @ [NotedPostTransfer (cb_origin cb) (cb_addr cb)]) \<and> \<not> s_inFallback (w_session w')"
proof -
  let ?L = "e_lib E" and ?step = "seq_step (conn_modern c)"
  have "xs \<noteq> []" using assms(7) by (auto simp: completes_def seq_init_def)
  then obtain ys y where xs: "xs = ys @ [y]" by (metis append_butlast_last_id)
  with assms(6) obtain qs q where ps: "ps = qs @ [q]" "list_all2 (arrives ?L P) qs ys" "arrives ?L P q y"
    by (auto simp: list_all2_append2 list_all2_Cons2)
  have "q_phase (fold ?step ys (conn_seq ?L c)) \<noteq> Connected" using assms(5,7) xs by (simp add: completes_def)
  from transfer.ReadPacket_all_pending [where E = E and pick = pick and g = w and rest = "frame q @ rest" and e = e,
      OF assms(1,2,8) ps(2) assms(3) _ this] assms(4,5) ps(1) obtain w1 c1 where
    1: "\<And>fuel. ReadPacket (transfer_callback E) ?L pick (length ys + fuel) (w, c) = ReadPacket (transfer_callback E) ?L pick fuel (w1, c1)"
      "pending ?L P (Some cb) c1" "c_reader c1 = \<lparr>s_data = frame q @ rest, s_end = e\<rparr>" "conn_seq ?L c1 = fold ?step ys seq_init"
    by auto
  have "q_phase (fold ?step ys seq_init) = conn_phase ?L c1" by (simp add: conn_seq_def flip: 1(4))
  with assms(7) xs obtain st where y: "y = Pk (PlayStatus st)" "conn_phase ?L c1 = AwaitPlayStatus"
    by (auto simp: completes_def seq_step_connected)
  obtain x xs' where x: "c_deferred c1 @ [Pk (PlayStatus st)] = x # xs'" by (cases "c_deferred c1") auto
  have q: "q_deferred (fold ?step xs seq_init) = x # xs'"
  proof -
    have "fold ?step xs seq_init = ?step y (conn_seq ?L c1)" by (simp add: xs 1(4))
    with x y show ?thesis by (simp add: seq_step.simps conn_seq_def Let_def)
  qed
  define n where "n = fuel - length xs - 1"
  then have "fuel = length ys + Suc (Suc n)" using assms(11) xs by simp
  then have fuel: "ReadPacket (transfer_callback E) ?L pick fuel (w, c) =
      ReadPacket (transfer_callback E) ?L pick (Suc (Suc n)) (w1, c1)" by (simp only: 1(1))
  have "\<exists>w' c'. ReadPacket (transfer_callback E) ?L pick (Suc (Suc n)) (w1, c1) = Some (Ok x, w', c') \<and>
      c_connected c' \<and> c_spawned c' \<and> c_ctx c' = None \<and> c_deferred c' = xs' \<and> c_reader c' = \<lparr>s_data = rest, s_end = e\<rparr> \<and>
      s_notices (w_session w') = s_notices (w_session w1) @ [NotedPostTransfer (cb_origin cb) (cb_addr cb)] \<and>
      \<not> s_inFallback (w_session w')"
    by (rule ReadPacket_completing [OF assms(1,2) 1(2) ps(3) [unfolded y(1)] 1(3) y(2) _ _ x]) (use assms(9,10) in blast)+
  then show ?thesis unfolding fuel q by blast
qed

text \<open>The same in the world of the session.\<close>

lemma server_read_transfer:
  assumes "ids_ok (e_lib E)" "snappy_codec (e_lib E)" "P = mc_DefaultProtocol (e_lib E)"
    and "c = dialled_conn (e_lib E) (\<lparr>s_data = concat (map frame ps) @ rest, s_end = e\<rparr>, k) client False cache wr (Some cb)"
    and "writer_wf wr" "k_faults (w_w wr) = []"
    and "list_all2 (arrives (e_lib E) P) ps xs" "completes (conn_modern c) xs"
    and "encodes (e_lib E) P (RequestChunkRadius 16)" "\<forall>b. encodes (e_lib E) P (ClientCacheStatus b)"
      "\<forall>rid. encodes (e_lib E) P (SetLocalPlayerAsInitialised rid)"
    and "i < length (s_conns (w_session w))" "s_conns (w_session w) ! i = c"
  shows "\<exists>x w'. server_read E pick i w = (Ok x, w') \<and>
    c_connected (s_conns (w_session w') ! i) \<and> c_spawned (s_conns (w_session w') ! i) \<and>
    x # c_deferred (s_conns (w_session w') ! i) = q_deferred (fold (seq_step (conn_modern c)) xs seq_init) \<and>
    s_data (c_reader (s_conns (w_session w') ! i)) = rest \<and>
    last (s_notices (w_session w')) = NotedPostTransfer (cb_origin cb) (cb_addr cb) \<and> \<not> s_inFallback (w_session w')"
proof -
  have c: "pending (e_lib E) P (Some cb) c" "conn_seq (e_lib E) c = seq_init"
    "c_reader c = \<lparr>s_data = concat (map frame ps) @ rest, s_end = e\<rparr>"
    using dialled_conn_init [OF assms(1)] assms(5,6)
    by (simp_all add: assms(3,4) pending_def writable_def)
       (simp_all add: dialled_conn_def NewConn_def expect_def Let_def)
  have "length xs < Suc (length (s_data (c_reader c)))"
    using length_frames [of ps] list_all2_lengthD [OF assms(7)] c(3) by simp
  from ReadPacket_transfer [OF assms(1,2) c(1,3,2) assms(7-11) this, of pick w] obtain x w1 c1 where
    1: "ReadPacket (transfer_callback E) (e_lib E) pick (Suc (length (s_data (c_reader c)))) (w, c) = Some (Ok x, w1, c1)"
      "c_connected c1" "c_spawned c1" "x # c_deferred c1 = q_deferred (fold (seq_step (conn_modern c)) xs seq_init)"
      "s_data (c_reader c1) = rest" "last (s_notices (w_session w1)) = NotedPostTransfer (cb_origin cb) (cb_addr cb)"
      "\<not> s_inFallback (w_session w1)" by auto
  have "s_conns (w_session w1) = s_conns (w_session w)" using ReadPacket_keeps [OF 1(1)] by (simp add: keeps_def)
  with 1 assms(12,13) show ?thesis by (simp add: server_read_def with_conn_def)
qed

section \<open>Properties\<close>

text \<open>
  C5. A transfer completes: when the new server sends the connection sequence, with anything in between,
  and writing to it does not fail, the next read of the session's server loop gets through it. The
  callback of the transfer has run by then: the player is spawned on the new server, the processor is
  told of the success, a fallback is over; and the read returns the first of the deferred packets,
  with the others to follow.
\<close>

theorem transfer_completes:
  assumes "ids_ok (e_lib E)" "snappy_codec (e_lib E)" "P = mc_DefaultProtocol (e_lib E)"
    and "c = dialled_conn (e_lib E) (\<lparr>s_data = concat (map frame ps) @ rest, s_end = e\<rparr>, k) client False cache wr (Some cb)"
    and "writer_wf wr" "k_faults (w_w wr) = []"
    and "list_all2 (arrives (e_lib E) P) ps xs" "completes (conn_modern c) xs"
    and "encodes (e_lib E) P (RequestChunkRadius 16)" "\<forall>b. encodes (e_lib E) P (ClientCacheStatus b)"
      "\<forall>rid. encodes (e_lib E) P (SetLocalPlayerAsInitialised rid)"
    and "i < length (s_conns (w_session w))" "s_conns (w_session w) ! i = c"
  shows "\<exists>x w'. server_read E pick i w = (Ok x, w') \<and>
    c_connected (s_conns (w_session w') ! i) \<and> c_spawned (s_conns (w_session w') ! i) \<and>
    x # c_deferred (s_conns (w_session w') ! i) = q_deferred (fold (seq_step (conn_modern c)) xs seq_init) \<and>
    s_data (c_reader (s_conns (w_session w') ! i)) = rest \<and>
    last (s_notices (w_session w')) = NotedPostTransfer (cb_origin cb) (cb_addr cb) \<and> \<not> s_inFallback (w_session w')"
  by (rule server_read_transfer [OF assms])

text \<open>A transfer of the demonstration session, whose server sends another packet in between.\<close>

definition demo_payloads :: "bytes list" where
  "demo_payloads = (1 # server_body demo_lib demo_writer
     \<lparr>h_PacketID = 501, h_SenderSubClient = 0, h_TargetSubClient = 0\<rparr> (ConnectionResponse 7 9)) #
     map (\<lambda>i. 1 # le32 i @ [0, 0]) [9, 11, 162, 70, 2]"

lemma demo_arrives: "list_all2 (arrives demo_lib demo_proto) demo_payloads demo_received"
proof -
  have vanilla: "arrives demo_lib demo_proto (1 # le32 i @ [0, 0]) (Pk pk)" if "demo_pool i = Some pk" "\<not> spectrum_packet pk"
    "\<And>io buf. Marshal demo_lib io pk buf = (Ok pk, buf)" for i pk
    using that by (simp add: demo_lib_def demo_HeaderRead_def demo_r32_le32 demo_proto_def)
  let ?h = "\<lparr>h_PacketID = 501, h_SenderSubClient = 0, h_TargetSubClient = 0\<rparr>" and ?pk = "ConnectionResponse 7 9"
  obtain x where x: "server_body demo_lib demo_writer ?h ?pk = mc_HeaderWrite demo_lib ?h @ x"
    "\<And>rest. Marshal demo_lib demo_reader (ConnectionResponse 0 0) (x @ rest) = (Ok ?pk, rest)"
    using server_body_eq [OF demo_io_codec, of ?pk "ConnectionResponse 0 0" demo_lib ?h]
    by (auto simp: factory_of_def registered_from_server_def spectrum_id_defs)
  have len: "length (server_body demo_lib demo_writer ?h ?pk) < 2 ^ 31"
    by (simp add: server_body_def demo_lib_def Marshal_def ConnectionResponse_Marshal_def demo_writer_def demo_w64_def)
  have "mc_HeaderRead demo_lib h0 (server_body demo_lib demo_writer ?h ?pk) = (Ok (), ?h, x)" for h0
    using demo_header_codec x(1) by (simp add: header_codec_def header_ok_def)
  with x(2) [of "[]"] len have "arrives demo_lib demo_proto (1 # server_body demo_lib demo_writer ?h ?pk) (Pk ?pk)"
    by (simp add: demo_proto_def demo_pool_def registered_from_server_def spectrum_id_defs)
  moreover have "arrives demo_lib demo_proto (1 # le32 9 @ [0, 0]) (Pk (OtherPacket 9 []))"
    "arrives demo_lib demo_proto (1 # le32 11 @ [0, 0]) (Pk (StartGame demo_start_game))"
    "arrives demo_lib demo_proto (1 # le32 162 @ [0, 0]) (Pk (ItemRegistry [\<lparr>it_Name = ''minecraft:shield'', it_RuntimeID = 355\<rparr>]))"
    "arrives demo_lib demo_proto (1 # le32 70 @ [0, 0]) (Pk (ChunkRadiusUpdated 8))"
    "arrives demo_lib demo_proto (1 # le32 2 @ [0, 0]) (Pk (PlayStatus PlayStatusPlayerSpawn))"
    by - (rule vanilla; simp add: demo_pool_simps Marshal_def demo_lib_def)+
  ultimately show ?thesis
    by (simp del: arrives.simps add: demo_payloads_def demo_received_def)
qed

lemma demo_completes: "completes True demo_received"
  by (simp add: completes_def demo_received_def seq_init_def seq_step.simps)

lemma demo_encodes: "encodes demo_lib demo_proto (RequestChunkRadius r)" "encodes demo_lib demo_proto (ClientCacheStatus b)"
  "encodes demo_lib demo_proto (SetLocalPlayerAsInitialised rid)"
  by (simp_all add: encodes_def demo_lib_def Marshal_def)

lemma demo_encodes_request: "length cache < 1000 \<Longrightarrow>
  encodes demo_lib demo_proto (ConnectionRequest ''10.0.0.1'' [1] [2] (proto_ID demo_proto) cache)"
  by (simp add: encodes_def demo_lib_def Marshal_def ConnectionRequest_Marshal_def demo_proto_def demo_writer_def
      demo_wbytes_def demo_w32_def str_bytes_def)

theorem transfer_completes_witness:
  "\<exists>x w'. server_read demo_env True 0 (upd_s (\<lambda>s. s\<lparr>s_conns := [dialled_conn demo_lib
        (\<lparr>s_data = concat (map frame demo_payloads), s_end = EOF\<rparr>, \<lparr>k_out = [], k_faults = []\<rparr>) demo_client_info False []
        (NewWriter \<lparr>k_out = [], k_faults = []\<rparr>) (Some \<lparr>cb_origin = ''a'', cb_addr = ''b''\<rparr>)]\<rparr>) demo_world) = (Ok x, w') \<and>
    c_spawned (s_conns (w_session w') ! 0) \<and> last (s_notices (w_session w')) = NotedPostTransfer ''a'' ''b''"
proof -
  let ?cb = "\<lparr>cb_origin = ''a'', cb_addr = ''b''\<rparr>" and ?wr = "NewWriter \<lparr>k_out = [], k_faults = []\<rparr>"
  let ?c = "dialled_conn (e_lib demo_env) (\<lparr>s_data = concat (map frame demo_payloads) @ [], s_end = EOF\<rparr>, \<lparr>k_out = [], k_faults = []\<rparr>)
    demo_client_info False [] ?wr (Some ?cb)"
  let ?w = "upd_s (\<lambda>s. s\<lparr>s_conns := [?c]\<rparr>) demo_world"
  have P: "demo_proto = mc_DefaultProtocol (e_lib demo_env)" by (simp add: demo_lib_def)
  have m: "conn_modern ?c"
    by (simp add: conn_modern_def dialled_conn_def NewConn_def expect_def demo_lib_def demo_proto_def Let_def)
  have lib: "ids_ok (e_lib demo_env)" "snappy_codec (e_lib demo_env)" by (simp_all add: demo_ids_ok demo_snappy_codec)
  have wr: "writer_wf ?wr" "k_faults (w_w ?wr) = []" by (simp, simp add: NewWriter_def)
  have "list_all2 (arrives (e_lib demo_env) demo_proto) demo_payloads demo_received" "completes (conn_modern ?c) demo_received"
    "encodes (e_lib demo_env) demo_proto (RequestChunkRadius 16)" "\<forall>b. encodes (e_lib demo_env) demo_proto (ClientCacheStatus b)"
    "\<forall>rid. encodes (e_lib demo_env) demo_proto (SetLocalPlayerAsInitialised rid)"
    "0 < length (s_conns (w_session ?w))" "s_conns (w_session ?w) ! 0 = ?c"
    using demo_arrives demo_completes m by (simp_all add: demo_encodes)
  from transfer_completes [OF lib P refl wr this, of True] show ?thesis by auto
qed

end
