(* ===== verification/Login_Progress.thy ===== *)
theory Login_Progress
  imports Progress
begin

text \<open>
  A login does complete. While \<^verbatim>\<open>LoginContext\<close> waits in \<^verbatim>\<open>WaitConnect\<close>, the server loop is inside
  \<^verbatim>\<open>ReadPacket\<close>, whose passes (\<open>server_pass\<close>) work through the connection sequence. No callback is
  registered in a login: the last packet only makes the connection connected, the wait ends, and
  \<^verbatim>\<open>LoginContext\<close> starts the game, spawns the player and registers the session.
\<close>

section \<open>Definitions\<close>

text \<open>So many passes of the server loop's read, with nothing else in between.\<close>

fun server_passes :: "env \<Rightarrow> bool \<Rightarrow> nat \<Rightarrow> nat \<Rightarrow> world \<Rightarrow> world" where
  "server_passes E pick i 0 w = w"
| "server_passes E pick i (Suc n) w = server_passes E pick i n (snd (server_pass E pick i w))"

text \<open>A world in which only the pool of headers and the connection at position \<open>i\<close> have changed.\<close>

definition put_conn :: "nat \<Rightarrow> callback conn \<Rightarrow> header list \<Rightarrow> world \<Rightarrow> world" where
  "put_conn i c hs w = upd_s (\<lambda>s. s\<lparr>s_conns := (s_conns s)[i := c]\<rparr>) (w\<lparr>headerPool := hs\<rparr>)"

section \<open>Lemmas\<close>

lemma put_conn_simps [simp]:
  "w_client (put_conn i c hs w) = w_client w" "w_registry (put_conn i c hs w) = w_registry w"
  "s_processor (w_session (put_conn i c hs w)) = s_processor (w_session w)"
  "s_notices (w_session (put_conn i c hs w)) = s_notices (w_session w)"
  "s_id (w_session (put_conn i c hs w)) = s_id (w_session w)"
  "length (s_conns (w_session (put_conn i c hs w))) = length (s_conns (w_session w))"
  "i < length (s_conns (w_session w)) \<Longrightarrow> s_conns (w_session (put_conn i c hs w)) ! i = c"
  "put_conn i c' hs' (put_conn i c hs w) = put_conn i c' hs' w"
  by (simp_all add: put_conn_def upd_s_def)

lemma put_conn_same: "s_conns (w_session w) ! i = c \<Longrightarrow> put_conn i c (headerPool w) w = w"
  by (auto simp: put_conn_def upd_s_def)

lemma server_passes_add: "server_passes E pick i (m + n) w = server_passes E pick i n (server_passes E pick i m w)"
  by (induction m arbitrary: w) simp_all

subsection \<open>Passes without a callback\<close>

lemma handle_expected_world:
  fixes w :: world
  assumes "handle_expected run L pk (w, c) = (r, w', c')" "c_onConnect c = None"
  shows "\<exists>hs. w' = w\<lparr>headerPool := hs\<rparr>"
proof -
  have same: "\<exists>hs. w = w\<lparr>headerPool := hs\<rparr>" by (rule exI [of _ "headerPool w"]) simp
  show ?thesis
  proof (cases rule: packet_kind_cases [of pk])
    case 6
    with assms same show ?thesis by (simp add: handle_expected_other)
  qed (use assms same in \<open>auto simp: handle_expected_def handleConnectionResponse_def handleStartGame_def
      handleItemRegistry_def handleChunkRadiusUpdated_def handlePlayStatus_def conn_upd_defs Let_def
      split: if_splits prod.splits res.splits dest!: WritePacket_world\<close>)
qed

lemma pass_world:
  fixes w :: world
  assumes "ReadPacket_pass run L pick (w, c) = Inr (w', c')" "c_onConnect c = None" "\<not> c_syncProtocol c"
  shows "\<exists>hs. w' = w\<lparr>headerPool := hs\<rparr>"
proof -
  obtain r1 w1 c1 where 1: "read L (w, c) = (r1, w1, c1)" by (metis prod.exhaust)
  then obtain hs where w1: "w1 = w\<lparr>headerPool := hs\<rparr>" using read_world by blast
  have c1: "c_onConnect c1 = None" "\<not> c_syncProtocol c1" using read_frame [OF 1] assms(2,3) by simp_all
  have c: "\<not> c_spawned c" "c_ctx c = None"
    using assms(1) by (auto simp: ReadPacket_pass_def split: if_splits list.splits)
  show ?thesis
  proof (cases "\<exists>pk. r1 = Ok (Pk pk)")
    case True
    then obtain pk where pk: "r1 = Ok (Pk pk)" by blast
    obtain r2 w2 c2 where 2: "handle_expected run L pk (w1, c1) = (r2, w2, c2)" by (metis prod.exhaust)
    with assms(1) 1 pk c c1 have "w' = w2" by (cases r2) (auto simp: ReadPacket_pass_def handlePacket_def)
    with handle_expected_world [OF 2 c1(1)] w1 show ?thesis by auto
  next
    case False
    with assms(1) 1 c w1 show ?thesis
      by (auto simp: ReadPacket_pass_def split: any.splits res.splits)
  qed
qed

lemma server_pass_put:
  assumes "ReadPacket_pass (transfer_callback E) (e_lib E) pick (w, s_conns (w_session w) ! i) = Inr (w', c')"
    and "pending (e_lib E) P None (s_conns (w_session w) ! i)"
  shows "\<exists>hs. server_pass E pick i w = (None, put_conn i c' hs w)"
proof -
  obtain hs where "w' = w\<lparr>headerPool := hs\<rparr>" using pass_world [OF assms(1)] assms(2) by (auto simp: pending_def)
  with assms(1) show ?thesis by (auto simp: server_pass_def with_conn_def put_conn_def)
qed

lemma passes_pending:
  assumes "ids_ok (e_lib E)" "snappy_codec (e_lib E)" "encodes (e_lib E) P (RequestChunkRadius 16)"
  shows "list_all2 (arrives (e_lib E) P) ps xs \<Longrightarrow> i < length (s_conns (w_session w)) \<Longrightarrow>
    c = s_conns (w_session w) ! i \<Longrightarrow> pending (e_lib E) P None c \<Longrightarrow>
    c_reader c = \<lparr>s_data = concat (map frame ps) @ rest, s_end = e\<rparr> \<Longrightarrow>
    q_phase (fold (seq_step (conn_modern c)) xs (conn_seq (e_lib E) c)) \<noteq> Connected \<Longrightarrow>
    \<exists>hs c'. server_passes E pick i (length xs) w = put_conn i c' hs w \<and> pending (e_lib E) P None c' \<and>
      c_reader c' = \<lparr>s_data = rest, s_end = e\<rparr> \<and>
      conn_seq (e_lib E) c' = fold (seq_step (conn_modern c)) xs (conn_seq (e_lib E) c)"
proof (induction arbitrary: w c rule: list_all2_induct)
  case Nil
  then show ?case by (intro exI [of _ "headerPool w"] exI [of _ c]) (simp add: put_conn_same)
next
  case (Cons p ps x xs)
  let ?L = "e_lib E" and ?rest = "concat (map frame ps) @ rest"
  have rd: "c_reader c = \<lparr>s_data = frame p @ ?rest, s_end = e\<rparr>" using Cons.prems(4) by simp
  have "q_phase (seq_step (conn_modern c) x (conn_seq ?L c)) \<noteq> Connected"
    using Cons.prems(5) fold_seq_connected by fastforce
  from transfer.pass_pending [where E = E and pick = pick and g = w, OF assms Cons.prems(3) Cons.hyps(1) rd this]
  obtain w1 c1 where 1: "ReadPacket_pass (transfer_callback E) ?L pick (w, c) = Inr (w1, c1)" "pending ?L P None c1"
    "c_reader c1 = \<lparr>s_data = ?rest, s_end = e\<rparr>" "conn_seq ?L c1 = seq_step (conn_modern c) x (conn_seq ?L c)" by blast
  have m: "conn_modern c1 = conn_modern c" using 1(2) Cons.prems(3) by (simp add: pending_def conn_modern_def)
  obtain hs where pass: "server_pass E pick i w = (None, put_conn i c1 hs w)"
    using server_pass_put 1(1) Cons.prems(2,3) by blast
  from Cons.IH [of "put_conn i c1 hs w" c1] Cons.prems(1,5) 1(2,3) show ?case
    by (auto simp: pass m 1(4))
qed

text \<open>The last packet: connected, and nothing else happens.\<close>

lemma pass_connects:
  assumes "ids_ok (e_lib E)" "i < length (s_conns (w_session w))" "c = s_conns (w_session w) ! i"
    and "pending (e_lib E) P None c" "arrives (e_lib E) P p (Pk (PlayStatus st))"
    and "c_reader c = \<lparr>s_data = frame p @ rest, s_end = e\<rparr>" "conn_phase (e_lib E) c = AwaitPlayStatus"
  shows "\<exists>hs. server_pass E pick i w = (None, put_conn i (c\<lparr>c_reader := \<lparr>s_data = rest, s_end = e\<rparr>,
    c_deferred := c_deferred c @ [Pk (PlayStatus st)], c_connected := True\<rparr>) hs w)"
proof -
  let ?L = "e_lib E" and ?c = "c\<lparr>c_reader := \<lparr>s_data = rest, s_end = e\<rparr>\<rparr>"
  have c: "c_ctx c = None" "\<not> c_spawned c" "\<not> c_syncProtocol c" "c_protocol c = P" "c_pool c = proto_Packets P False"
    "\<not> c_connected c" "c_onConnect c = None" "conn_inv ?L c"
    using assms(4) by (simp_all add: pending_def writable_def)
  have "c_expectedIds c = [mc_IDPlayStatus ?L]"
    using assms(7) by (cases rule: conn_inv_cases [OF c(8) assms(1)]) simp_all
  moreover obtain w1 where "read ?L (w, c) = (Ok (Pk (PlayStatus st)), w1, ?c)"
    using read_arrives [OF assms(5) c(4,5) assms(6)] by blast
  ultimately have "ReadPacket_pass (transfer_callback E) ?L pick (w, c) =
      Inr (w1, c\<lparr>c_reader := \<lparr>s_data = rest, s_end = e\<rparr>, c_deferred := c_deferred c @ [Pk (PlayStatus st)], c_connected := True\<rparr>)"
    using c ids_ok_IDs(4) [OF assms(1)]
    by (simp add: ReadPacket_pass_def handlePacket_def handle_expected_def handlePlayStatus_def deferPacket_def Let_def)
  with assms(3,4) show ?thesis using server_pass_put by blast
qed

lemma passes_connect:
  assumes "ids_ok (e_lib E)" "snappy_codec (e_lib E)" "encodes (e_lib E) P (RequestChunkRadius 16)"
    and "list_all2 (arrives (e_lib E) P) ps xs" "completes (conn_modern c) xs" "conn_seq (e_lib E) c = seq_init"
    and "i < length (s_conns (w_session w))" "c = s_conns (w_session w) ! i" "pending (e_lib E) P None c"
    and "c_reader c = \<lparr>s_data = concat (map frame ps) @ rest, s_end = e\<rparr>"
  obtains c' hs where "server_passes E pick i (length xs) w = put_conn i c' hs w" "writable c'" "c_protocol c' = P"
    "c_connected c'" "\<not> c_spawned c'" "c_deferred c' = q_deferred (fold (seq_step (conn_modern c)) xs seq_init)"
    "c_reader c' = \<lparr>s_data = rest, s_end = e\<rparr>"
proof -
  let ?L = "e_lib E" and ?step = "seq_step (conn_modern c)"
  have "xs \<noteq> []" using assms(5) by (auto simp: completes_def seq_init_def)
  then obtain ys y where xs: "xs = ys @ [y]" by (metis append_butlast_last_id)
  with assms(4) obtain qs q where ps: "ps = qs @ [q]" "list_all2 (arrives ?L P) qs ys" "arrives ?L P q y"
    by (auto simp: list_all2_append2 list_all2_Cons2)
  have "q_phase (fold ?step ys (conn_seq ?L c)) \<noteq> Connected" using assms(5,6) xs by (simp add: completes_def)
  from passes_pending [OF assms(1-3) ps(2) assms(7-9) _ this, of "frame q @ rest" e pick] assms(6,10) ps(1) obtain hs1 c1 where
    1: "server_passes E pick i (length ys) w = put_conn i c1 hs1 w" "pending ?L P None c1"
      "c_reader c1 = \<lparr>s_data = frame q @ rest, s_end = e\<rparr>" "conn_seq ?L c1 = fold ?step ys seq_init" by auto
  have "q_phase (fold ?step ys seq_init) = conn_phase ?L c1" by (simp add: conn_seq_def flip: 1(4))
  with assms(5) xs obtain st where y: "y = Pk (PlayStatus st)" "conn_phase ?L c1 = AwaitPlayStatus"
    by (auto simp: completes_def seq_step_connected)
  let ?c = "c1\<lparr>c_reader := \<lparr>s_data = rest, s_end = e\<rparr>, c_deferred := c_deferred c1 @ [Pk (PlayStatus st)], c_connected := True\<rparr>"
  obtain hs where "server_pass E pick i (put_conn i c1 hs1 w) = (None, put_conn i ?c hs w)"
    using pass_connects [OF assms(1) _ _ 1(2) ps(3) [unfolded y(1)] 1(3) y(2), of i "put_conn i c1 hs1 w" pick] assms(7) by auto
  with 1(1) xs have "server_passes E pick i (length xs) w = put_conn i ?c hs w"
    using server_passes_add [of E pick i "length ys" 1 w] by simp
  moreover have "fold ?step xs seq_init = ?step y (conn_seq ?L c1)" by (simp add: xs 1(4))
  ultimately show thesis
    using 1(2) y by (intro that [of ?c hs]) (simp_all add: pending_def writable_def seq_step.simps conn_seq_def Let_def)
qed

subsection \<open>The two ends of a login\<close>

lemma Login_starts:
  assumes "one_open (w_session w)" "s_ctx (w_session w) = None" "i = length (s_conns (w_session w))"
    and "Discover (e_discovery E) (w_client w) = Ok addr"
    and "e_dial E (length (s_dials (w_session w))) addr = Ok (rd, k)" "e_dial_time E (length (s_dials (w_session w))) addr \<le> minute"
    and "k_faults k = []" "snappy_codec (e_lib E)" "\<not> SyncProtocol (e_opts E)" "P = mc_DefaultProtocol (e_lib E)"
    and "ci_ClientData (k_info (w_client w)) = Ok cd" "ci_IdentityData (k_info (w_client w)) = Ok idd"
      "encodes (e_lib E) P (ConnectionRequest (ci_RemoteAddr (k_info (w_client w))) cd idd (proto_ID P) (s_cache (w_session w)))"
  obtains w' wr where "Login_start E w = (Ok i, w')" "i < length (s_conns (w_session w'))"
    "s_conns (w_session w') ! i = dialled_conn (e_lib E) (rd, k) (k_info (w_client w)) False (s_cache (w_session w)) wr None"
    "writer_wf wr" "k_faults (w_w wr) = []" "w_client w' = w_client w"
    "s_processor (w_session w') = s_processor (w_session w)" "s_id (w_session w') = s_id (w_session w)"
proof -
  let ?E = "with_timeout minute E" and ?L = "e_lib E"
  let ?c = "NewConn ?L (rd, k) (k_info (w_client w)) False (s_cache (w_session w)) :: callback conn"
  have "e_dial ?E (length (s_dials (w_session w))) addr = Ok (rd, k)" using assms(5,6) by (simp add: with_timeout_def)
  from session_dial_new [OF assms(1,2) this assms(3)] obtain w1 where 1: "session_dial ?E addr w = (Ok i, w1)"
    "length (s_conns (w_session w1)) = Suc i" "s_conns (w_session w1) ! i = ?c" "s_serverConn (w_session w1) = Some i"
    and kept: "w_client w1 = w_client w" "s_processor (w_session w1) = s_processor (w_session w)" "s_id (w_session w1) = s_id (w_session w)"
    using assms(9) by auto
  have c: "writable ?c" "c_client ?c = k_info (w_client w)" "c_protocol ?c = P" "c_cache ?c = s_cache (w_session w)" "c_onConnect ?c = None"
    using assms(7,10) by (simp_all add: NewConn_def expect_def writable_def Let_def) (simp add: NewWriter_def)
  from DoConnect_writable [OF c(1) assms(8), of cd idd w1] assms(11-13) c obtain w2 wr where
    2: "DoConnect ?L (w1, ?c) = (Ok (), w2, ?c\<lparr>c_writer := wr\<rparr>)" "writable (?c\<lparr>c_writer := wr\<rparr>)" by auto
  obtain hs where w2: "w2 = w1\<lparr>headerPool := hs\<rparr>" using DoConnect_world [OF 2(1)] by blast
  have wr: "writer_wf wr" "k_faults (w_w wr) = []" using 2(2) by (auto simp: writable_def)
  show thesis
  proof (rule that [OF _ _ _ wr])
    show "Login_start E w = (Ok i, put_conn i (?c\<lparr>c_writer := wr\<rparr>) hs w1)"
      using 1(1,3) 2(1) w2 assms(4) by (simp add: Login_start_def login_start_def with_conn_def put_conn_def with_timeout_def)
  qed (use 1 kept c(5) in \<open>simp_all add: put_conn_def dialled_conn_def\<close>)
qed

lemma login_spawns:
  assumes "i < length (s_conns (w_session w))" "c = s_conns (w_session w) ! i" "writable c" "\<not> c_spawned c"
    and "snappy_codec (e_lib E)" "\<forall>b. encodes (e_lib E) (c_protocol c) (ClientCacheStatus b)"
      "\<forall>rid. encodes (e_lib E) (c_protocol c) (SetLocalPlayerAsInitialised rid)"
    and "k_answers (w_client w) = []" "ProcessStartGame (s_processor (w_session w)) NewContext (c_gameData c) = (ctx, gd)"
  obtains w' wr where "login_spawn E i None w = (Ok (), w')"
    "s_conns (w_session w') ! i = c\<lparr>c_spawned := True, c_writer := wr\<rparr>"
    "k_trace (w_client w') = k_trace (w_client w) @ [StartedGame gd]" "k_XUID (w_client w') = k_XUID (w_client w)"
    "s_id (w_session w') = s_id (w_session w)" "w_registry w' = w_registry w"
proof -
  obtain k where k: "k_StartGame gd (w_client w) = (None, k)" "k_trace k = k_trace (w_client w) @ [StartedGame gd]"
    "k_XUID k = k_XUID (w_client w)"
    using assms(8) by (simp add: k_StartGame_def k_call.simps)
  let ?w = "upd_k (\<lambda>_. k) (upd_s (\<lambda>s. s\<lparr>s_notices := s_notices s @ [NotedStartGame]\<rparr>) w)"
  obtain w1 wr where 1: "DoSpawn (e_lib E) (?w, c) = (Ok (), w1, c\<lparr>c_spawned := True, c_writer := wr\<rparr>)"
    using DoSpawn_writable [OF assms(3,4,5)] assms(6,7) by blast
  then obtain hs where w1: "w1 = ?w\<lparr>headerPool := hs\<rparr>" using DoSpawn_world by blast
  show thesis
  proof (rule that)
    show "login_spawn E i None w = (Ok (), put_conn i (c\<lparr>c_spawned := True, c_writer := wr\<rparr>) hs ?w)"
      using 1 w1 k(1) assms(2,9) by (simp add: login_spawn_def with_conn_def put_conn_def)
  qed (use k assms(1) in simp_all)
qed

lemma session_run_passes:
  assumes "session_run E w0 w" "one_open (w_session w0)" "i < length (s_conns (w_session w))"
  shows "session_run E w0 (server_passes E pick i n w)"
  using assms(1,3)
proof (induction n arbitrary: w)
  case (Suc n)
  from pass_call.with_conn_one_open [OF session_run_one_open [OF Suc.prems(1) assms(2)] Suc.prems(2), of E "e_lib E" pick]
  have "i < length (s_conns (w_session (snd (server_pass E pick i w))))" using Suc.prems(2) by (simp add: server_pass_def)
  with Suc.IH [OF session_run.pass [OF Suc.prems]] show ?case by simp
qed simp

section \<open>Properties\<close>

text \<open>
  C6. A login completes: when discovery and dial succeed and the server sends the connection sequence,
  with anything in between, then after as many passes of the server loop's read as packets have come
  the wait of the login is over; it starts the game of the player with the processor's version of the
  server's game data, spawns the player on the server and registers the session. Every packet that the
  sequence did not consume is kept for the loop, in order. All of it is a run of the session.
\<close>

theorem login_completes:
  assumes "one_open (w_session w)" "s_ctx (w_session w) = None" "i = length (s_conns (w_session w))"
    and "Discover (e_discovery E) (w_client w) = Ok addr"
    and "e_dial E (length (s_dials (w_session w))) addr = Ok (\<lparr>s_data = concat (map frame ps) @ rest, s_end = e\<rparr>, k)"
      "e_dial_time E (length (s_dials (w_session w))) addr \<le> minute" "k_faults k = []"
    and "ids_ok (e_lib E)" "snappy_codec (e_lib E)" "\<not> SyncProtocol (e_opts E)" "P = mc_DefaultProtocol (e_lib E)"
    and "ci_ClientData (k_info (w_client w)) = Ok cd" "ci_IdentityData (k_info (w_client w)) = Ok idd"
      "encodes (e_lib E) P (ConnectionRequest (ci_RemoteAddr (k_info (w_client w))) cd idd (proto_ID P) (s_cache (w_session w)))"
      "encodes (e_lib E) P (RequestChunkRadius 16)" "\<forall>b. encodes (e_lib E) P (ClientCacheStatus b)"
      "\<forall>rid. encodes (e_lib E) P (SetLocalPlayerAsInitialised rid)"
    and "list_all2 (arrives (e_lib E) P) ps xs" "completes (776 \<le> sint (proto_ID P)) xs" "k_answers (w_client w) = []"
  shows "\<exists>w1 w2 w3 gd. Login_start E w = (Ok i, w1) \<and> w2 = server_passes E pick i (length xs) w1 \<and>
    None \<in> set (WaitConnect deadline (s_conns (w_session w2) ! i)) \<and> login_spawn E i None w2 = (Ok (), w3) \<and>
    session_run E w (login_register w3) \<and> c_spawned (s_conns (w_session w3) ! i) \<and>
    c_deferred (s_conns (w_session w3) ! i) = q_deferred (fold (seq_step (776 \<le> sint (proto_ID P))) xs seq_init) \<and>
    gd = snd (ProcessStartGame (s_processor (w_session w)) NewContext (c_gameData (s_conns (w_session w2) ! i))) \<and>
    k_trace (w_client w3) = k_trace (w_client w) @ [StartedGame gd] \<and>
    GetSession (k_XUID (w_client w)) (w_registry (login_register w3)) = Some (s_id (w_session w))"
proof -
  let ?L = "e_lib E"
  obtain w1 wr where 1: "Login_start E w = (Ok i, w1)" "i < length (s_conns (w_session w1))"
    "s_conns (w_session w1) ! i = dialled_conn ?L (\<lparr>s_data = concat (map frame ps) @ rest, s_end = e\<rparr>, k)
       (k_info (w_client w)) False (s_cache (w_session w)) wr None" (is "?c = _")
    "writer_wf wr" "k_faults (w_w wr) = []" "w_client w1 = w_client w"
    "s_processor (w_session w1) = s_processor (w_session w)" "s_id (w_session w1) = s_id (w_session w)"
    by (rule Login_starts [OF assms(1-7) assms(9-14)])
  have c: "pending ?L P None ?c" "conn_seq ?L ?c = seq_init" "conn_modern ?c = (776 \<le> sint (proto_ID P))"
    "c_reader ?c = \<lparr>s_data = concat (map frame ps) @ rest, s_end = e\<rparr>"
    using dialled_conn_init [OF assms(8)] 1(4,5)
    by (simp_all add: 1(3) assms(11) pending_def writable_def)
       (simp_all add: dialled_conn_def NewConn_def expect_def conn_modern_def Let_def)
  have m: "completes (conn_modern ?c) xs" using assms(19) c(3) by simp
  obtain c2 hs where
    2: "server_passes E pick i (length xs) w1 = put_conn i c2 hs w1" "writable c2" "c_protocol c2 = P" "c_connected c2" "\<not> c_spawned c2"
      "c_deferred c2 = q_deferred (fold (seq_step (776 \<le> sint (proto_ID P))) xs seq_init)"
    unfolding c(3) [symmetric] by (rule passes_connect [OF assms(8,9,15,18) m c(2) 1(2) refl c(1,4), of pick])
  let ?w2 = "put_conn i c2 hs w1"
  obtain ctx gd where gd: "ProcessStartGame (s_processor (w_session ?w2)) NewContext (c_gameData c2) = (ctx, gd)" by fastforce
  have w2: "i < length (s_conns (w_session ?w2))" "c2 = s_conns (w_session ?w2) ! i" "k_answers (w_client ?w2) = []"
    using 1(2,6) assms(20) by simp_all
  have enc: "\<forall>b. encodes ?L (c_protocol c2) (ClientCacheStatus b)" "\<forall>rid. encodes ?L (c_protocol c2) (SetLocalPlayerAsInitialised rid)"
    using assms(16,17) 2(3) by simp_all
  obtain w3 wr3 where 3: "login_spawn E i None ?w2 = (Ok (), w3)" "s_conns (w_session w3) ! i = c2\<lparr>c_spawned := True, c_writer := wr3\<rparr>"
    "k_trace (w_client w3) = k_trace (w_client ?w2) @ [StartedGame gd]" "k_XUID (w_client w3) = k_XUID (w_client ?w2)"
    "s_id (w_session w3) = s_id (w_session ?w2)"
    by (rule login_spawns [OF w2(1,2) 2(2,5) assms(9) enc w2(3) gd])
  have wait: "None \<in> set (WaitConnect d (s_conns (w_session ?w2) ! i))" for d using 2(2,4) 1(2) by (simp add: WaitConnect_def)
  have "session_run E w w1"
    using session_run.login [OF session_run.start, of E w "e_dial (with_timeout minute E)"] 1(1)
    by (simp add: Login_start_def with_timeout_def)
  from session_run_passes [OF this assms(1) 1(2)] have "session_run E w ?w2" by (simp flip: 2(1))
  from session_run.finish [OF this w2(1) wait] 3(1) have "session_run E w w3" by simp
  then have run: "session_run E w (login_register w3)" by (rule session_run.registered)
  have "GetSession (k_XUID (w_client w)) (w_registry (login_register w3)) = Some (s_id (w_session w))"
    using 3(4,5) 1(6,8) by (simp add: login_register_def AddSession_def GetSession_def)
  with 1 2(1,6) 3 wait run gd show ?thesis by (intro exI [of _ w1] exI [of _ ?w2] exI [of _ w3] exI [of _ gd]) simp
qed

theorem login_completes_witness:
  "\<exists>E w1 w3. Login_start E demo_world = (Ok 0, w1) \<and>
    login_spawn E 0 None (server_passes E True 0 (length demo_received) w1) = (Ok (), w3) \<and>
    c_spawned (s_conns (w_session w3) ! 0) \<and> GetSession ''1'' (w_registry (login_register w3)) = Some 0"
proof -
  let ?k = "\<lparr>k_out = [], k_faults = []\<rparr>" and ?rd = "\<lparr>s_data = concat (map frame demo_payloads) @ [], s_end = EOF\<rparr>"
  let ?E = "demo_env\<lparr>e_dial := \<lambda>n addr. Ok (?rd, ?k)\<rparr>" and ?n = "length (s_dials (w_session demo_world))"
  have w: "one_open (w_session demo_world)" "s_ctx (w_session demo_world) = None" "0 = length (s_conns (w_session demo_world))"
    by (simp_all add: NewSession_def one_open_def session_wf_def tracker_finite_def newTracker_def)
  have dial: "Discover (e_discovery ?E) (w_client demo_world) = Ok ''lobby''" "e_dial ?E ?n ''lobby'' = Ok (?rd, ?k)"
    "e_dial_time ?E ?n ''lobby'' \<le> minute" "k_faults ?k = []"
    by (simp_all add: NewStaticDiscovery_def demo_env_def minute_def)
  have lib: "ids_ok (e_lib ?E)" "snappy_codec (e_lib ?E)" "\<not> SyncProtocol (e_opts ?E)" "demo_proto = mc_DefaultProtocol (e_lib ?E)"
    by (simp_all add: demo_ids_ok demo_snappy_codec DefaultOpts_def) (simp add: demo_lib_def)
  have req: "ci_ClientData (k_info (w_client demo_world)) = Ok [1]" "ci_IdentityData (k_info (w_client demo_world)) = Ok [2]"
    "encodes (e_lib ?E) demo_proto (ConnectionRequest (ci_RemoteAddr (k_info (w_client demo_world))) [1] [2] (proto_ID demo_proto) (s_cache (w_session demo_world)))"
    using demo_encodes_request [of "[]"] by (simp_all add: NewSession_def demo_client_info_def)
  have enc: "encodes (e_lib ?E) demo_proto (RequestChunkRadius 16)" "\<forall>b. encodes (e_lib ?E) demo_proto (ClientCacheStatus b)"
    "\<forall>rid. encodes (e_lib ?E) demo_proto (SetLocalPlayerAsInitialised rid)" by (simp_all add: demo_encodes)
  have seq: "list_all2 (arrives (e_lib ?E) demo_proto) demo_payloads demo_received" "completes (776 \<le> sint (proto_ID demo_proto)) demo_received"
    "k_answers (w_client demo_world) = []" using demo_arrives demo_completes by (simp_all add: demo_proto_def NewSession_def)
  have "k_XUID (w_client demo_world) = ''1''" "s_id (w_session demo_world) = 0" by (simp_all add: NewSession_def)
  with login_completes [OF w dial lib req enc seq, of True None] show ?thesis by (metis (no_types))
qed

end
