(* ===== verification/Spec2Isabelle.thy ===== *)
theory Spec2Isabelle
  imports Proxy_Run Login_Progress Client_Batch
begin

text \<open>
  \<^bold>\<open>Spectrum\<close> is a proxy for Minecraft: players connect to it, it connects each of them to a downstream
  server and can move them to another one without their noticing. This development models the whole
  of it and proves what its parts promise each other.

  \<^bold>\<open>The program and how its parts interact.\<close> \<^verbatim>\<open>spectrum.go\<close> accepts players and makes a session for
  each. A session (\<^verbatim>\<open>session/session.go\<close>) asks the discovery for a server, dials it through a
  transport, and starts three goroutines (\<^verbatim>\<open>session/handler.go\<close>): one forwards what the server sends to
  the player, one forwards the player's batches to the server, one reports latencies. The connection
  to the server (\<^verbatim>\<open>server/conn.go\<close>) first goes through a connection sequence, during which everything
  that is not part of it is deferred; a transfer dials another server, and the callback it registers
  runs when the new sequence completes: it plays an animation, clears what the tracker
  remembers of the old server from the player's screen, and spawns the player. When a server fails, the
  session falls back to another one. Logged-in sessions are in the registry, through which the API
  service (\<^verbatim>\<open>api/\<close>) kicks and transfers players on behalf of authenticated clients. All connections
  carry frames (\<^verbatim>\<open>protocol/\<close>).

  \<^bold>\<open>Theories.\<close> Each opens with what it holds; the definitions keep the names of the code.
  \<^item> \<open>Prelude\<close>: machine integers, byte orders, errors and outcomes (\<open>res\<close>: a value, an error or a
    panic), readers and sinks, and the locale \<open>stream_code\<close> of self-delimiting codes.
  \<^item> \<open>Framing\<close>: \<^verbatim>\<open>protocol/reader.go\<close>, \<^verbatim>\<open>protocol/writer.go\<close>.
  \<^item> \<open>Api_Packet\<close>, \<open>Api_Service\<close>: \<^verbatim>\<open>api/packet/\<close>, and \<^verbatim>\<open>api/\<close> with its loop, handlers, authentication and
    \<^verbatim>\<open>Dial\<close>.
  \<^item> \<open>Minecraft\<close>: the data types of the Minecraft library that the code uses, and the library itself as a
    record of parameters (\<open>mclib\<close>). \<open>Client_Conn\<close>: the player's connection of that library, with a script
    of its answers and a trace of what was sent.
  \<^item> \<open>Server_Packet\<close>: \<^verbatim>\<open>server/packet/\<close>. \<open>Server_Conn\<close>: \<^verbatim>\<open>server/conn.go\<close>. \<open>Server_Wire\<close>: what travels over
    such a connection, with the server's side as specification. \<open>Connection_Sequence\<close>: the connection
    sequence with the session's own callback.
  \<^item> \<open>Processor\<close>, \<open>Registry\<close>, \<open>Tracker\<close>, \<open>Animations\<close>, \<open>Session\<close>, \<open>Handler\<close>: the files of \<^verbatim>\<open>session/\<close> and
    \<^verbatim>\<open>session/animation/\<close>. \<open>Config\<close>: \<^verbatim>\<open>util/\<close> and \<^verbatim>\<open>server/discovery.go\<close>. \<open>Transport\<close>: \<^verbatim>\<open>transport/\<close>.
  \<^item> \<open>Session_History\<close>: what every step of a session keeps of its past, and the end of its goroutines.
    \<open>Progress\<close>, \<open>Login_Progress\<close>: transfers and logins complete. \<open>Client_Batch\<close>: a batch of the player under an arbitrary processor.
  \<^item> \<open>Spectrum\<close>: \<^verbatim>\<open>spectrum.go\<close>, the dispatch to the transport, and the operations of sessions that the API
    performs. \<open>Proxy_Run\<close>: the whole process as a step relation, with its invariant.

  \<^bold>\<open>State and operations.\<close> A struct is a record, an interface a record of functions or a datatype of
  its implementations, a method a function on the record that returns the outcome and the new state. A
  channel that is only closed is a flag and a cancelled context its cause. What several objects share
  is threaded through: the header pool and the packet contexts are in \<open>world\<close>, which also holds the
  registry and the session. The connections that a session has dialled are a list, \<^verbatim>\<open>serverConn\<close> is a
  position in it. A mutex makes an operation one step. Goroutines are step relations: \<open>session_run\<close>
  interleaves the turns of the three loops of a session, its login and transfers (each cut where other
  goroutines can run in between, \<^verbatim>\<open>ReadPacket\<close> also after each packet, \<open>server_pass\<close>) and the calls of the application; \<open>api_reach\<close>, \<open>transport_run\<close>,
  \<open>pool_run\<close> and \<open>conn_run\<close> do the same for their components, and \<open>proxy_run\<close> interleaves the sessions
  of all players with the listener, the API service, the transport and the shutdown. The operations of a
  session act on the process through \<open>on_session\<close>, those that may dial through \<open>dialling\<close>, where the
  transport answers and keeps the connection. Functions stored in fields are values
  (\<open>callback\<close>) that an interpreter executes (\<open>transfer_callback\<close>), under the contract \<open>connect_callback\<close>.

  \<^bold>\<open>What the lemmas show.\<close> \<open>Framing\<close>, \<open>Api_Packet\<close> and \<open>Server_Wire\<close>: what one side writes the other
  reads back, with compression and batches. \<open>Server_Conn\<close> and \<open>Connection_Sequence\<close>: the connection
  sequence refines a specification over six phases, and by it every packet is consumed or deferred in
  order. \<open>Tracker\<close> and \<open>Session\<close>: the tracker covers the player's screen and a transfer empties it.
  \<open>Handler\<close>: forwarding in both directions loses and reorders nothing, and of the connections of a
  session at most one is open. \<open>Session\<close>, \<open>Spectrum\<close>, \<open>Api_Service\<close>: closing happens once and
  completely, API requests need authentication and are carried out in order. \<open>Session_History\<close> and
  \<open>Proxy_Run\<close>: under every interleaving the history of a session is only added to, its goroutines end with its
  context, and the registry refers to accepted sessions by their own accounts. \<open>Progress\<close>: given a server that keeps to the protocol, a transfer reaches the spawn; with
  the API in front of it that is the theorem at the end of this theory. \<open>Login_Progress\<close>: so does a login,
  with the passes of \<^verbatim>\<open>ReadPacket\<close> as steps of their own while the login waits. The interfaces are locales with
  their providers as interpretations: \<open>stream_code\<close> (frames, API packets, batch items), \<open>connect_callback\<close>
  (the callback of a transfer), \<open>conn_call\<close> and \<open>conn_history\<close> (calls on a connection), \<open>connection_cache\<close>
  (both transports) and \<open>session_service\<close> (what the API may do to sessions). Where the code does not do
  what its comments say, or panics, the lemma states what it does.

  \<^bold>\<open>Fuel and bounds.\<close> \<^verbatim>\<open>ReadPacket\<close> calls itself once per packet of the connection sequence; each call
  reads at least a frame header, so the number of bytes left on the stream and one more is enough
  (\<open>ReadPacket_terminates\<close>), and \<open>server_read\<close> passes that much. The loops over chunk coordinates get ten
  turns, which is one more than they make (\<open>level_chunks_cover\<close>). All other functions terminate without
  fuel. Lengths below 4 GiB are assumed where a 32-bit length field is written.

  \<^bold>\<open>Parameters.\<close> The Minecraft library, snappy, the set library's iteration order, Unicode case folding
  outside ASCII, the trigonometric functions and the outcomes of the network are parameters; the laws used
  of them (\<open>header_codec\<close>, \<open>snappy_codec\<close>, \<open>io_codec\<close>, \<open>ids_ok\<close>, \<open>orders_ok\<close>) are named and hold for
  the library \<open>demo_lib\<close>.

  \<^bold>\<open>Not modelled\<close>: the log (\<^verbatim>\<open>logError\<close> is modelled by what it would log), socket options, real time
  (a dial has a duration that the deadlines of \<^verbatim>\<open>Transfer\<close> and \<^verbatim>\<open>Login\<close> bound, other deadlines are outcomes,
  pauses are recorded), and preemption inside a turn of a loop other than at the cuts above.
\<close>

section \<open>Lemmas\<close>

lemma kick_returns:
  "\<forall>pk\<in>set [ApiKick reason username]. \<forall>h w m w'.
     handlers (NewAPI (proxy_ops E N uni) auth) (api_ID pk) = Some h \<longrightarrow> h pk w \<noteq> (Panic m, w')"
proof -
  have "on_session i (Session_Disconnect E reason) x \<noteq> (Panic m, x')" for i m and x x' :: "'a proxy"
    using disconnect_returns [of i E reason x m] by (metis fst_conv)
  then show ?thesis
    by (auto simp: NewAPI_handlers api_id_const_defs proxy_ops_def split: if_splits option.splits)
qed

lemma dispatch_kick:
  assumes "so_byUsername ops username w = Some s"
  shows "fold (dispatch (handlers (NewAPI ops auth))) [ApiKick reason username] w = snd (so_Disconnect ops s reason w)"
  using assms by (simp add: dispatch_def NewAPI_handlers api_id_const_defs)

text \<open>A transfer that a registered session carries out through the transport.\<close>

lemma dialling_transfer:
  assumes "j < length (x_sessions x)" "one_open (x_sessions x ! j)" "s_ctx (x_sessions x ! j) = None"
    and "s_processor (x_sessions x ! j) = NopProcessor" "i = length (s_conns (x_sessions x ! j))" "ci = k_info (s_client (x_sessions x ! j))"
    and "Transport_Dial N addr (sp_transport x) = (Ok (rd, k), t)" "k_faults k = []"
    and "snappy_codec (e_lib E)" "\<not> SyncProtocol (e_opts E)" "P = mc_DefaultProtocol (e_lib E)"
    and "ci_ClientData ci = Ok cd" "ci_IdentityData ci = Ok idd"
      "encodes (e_lib E) P (ConnectionRequest (ci_RemoteAddr ci) cd idd (proto_ID P) (s_cache (x_sessions x ! j)))"
  shows "\<exists>x1 wr. dialling E N j (\<lambda>E'. Session_Transfer E' addr) x = (Ok (), x1) \<and> sp_transport x1 = t \<and>
    s_serverAddr (x_sessions x1 ! j) = addr \<and> i < length (s_conns (x_sessions x1 ! j)) \<and>
    s_conns (x_sessions x1 ! j) ! i = dialled_conn (e_lib E) (rd, k) ci False (s_cache (x_sessions x ! j)) wr
      (Some \<lparr>cb_origin = s_serverAddr (x_sessions x ! j), cb_addr = addr\<rparr>) \<and>
    writer_wf wr \<and> k_faults (w_w wr) = [] \<and> sp_registry x1 = sp_registry x \<and>
    (\<forall>m. m \<noteq> j \<longrightarrow> x_sessions x1 ! m = x_sessions x ! m)"
proof -
  let ?w = "session_world j x"
  let ?E = "E\<lparr>e_dial := \<lambda>_ addr. fst (Transport_Dial N addr (sp_transport x)), e_dial_time := \<lambda>_ _. 0\<rparr>"
  have w: "one_open (w_session ?w)" "s_ctx (w_session ?w) = None" "i = length (s_conns (w_session ?w))"
    "ProcessPreTransfer (s_processor (w_session ?w)) NewContext (s_serverAddr (w_session ?w)) addr =
      (NewContext, s_serverAddr (w_session ?w), addr)" "\<not> Context_Cancelled NewContext"
    "e_dial ?E (length (s_dials (w_session ?w))) addr = Ok (rd, k)" "e_dial_time ?E (length (s_dials (w_session ?w))) addr \<le> minute"
    "k_faults k = []" "snappy_codec (e_lib ?E)" "\<not> SyncProtocol (e_opts ?E)" "P = mc_DefaultProtocol (e_lib ?E)"
    "ci_ClientData (k_info (w_client ?w)) = Ok cd" "ci_IdentityData (k_info (w_client ?w)) = Ok idd"
    "encodes (e_lib ?E) P (ConnectionRequest (ci_RemoteAddr (k_info (w_client ?w))) cd idd (proto_ID P) (s_cache (w_session ?w)))"
    using assms by (simp_all add: NopProcessor_def NewContext_def Context_Cancelled_def minute_def)
  obtain w' wr where w': "Session_Transfer ?E addr ?w = (Ok (), w')" "length (s_conns (w_session w')) = Suc i"
    "s_conns (w_session w') ! i = dialled_conn (e_lib E) (rd, k) ci False (s_cache (x_sessions x ! j)) wr
      (Some \<lparr>cb_origin = s_serverAddr (x_sessions x ! j), cb_addr = addr\<rparr>)" "writer_wf wr" "k_faults (w_w wr) = []"
    "s_serverAddr (w_session w') = addr" "w_registry w' = sp_registry x"
    "s_dials (w_session w') = s_dials (x_sessions x ! j) @ [addr]"
    by (rule Session_Transfer_starts [OF w]) (use assms(6) in simp)
  with assms(1,7) show ?thesis
    by (auto simp: dialling_def on_session_def)
qed

section \<open>Properties that span components\<close>

text \<open>
  C15. A kick over the API, from the bytes of the client to the player: if the token is accepted and a
  player of that name (up to case) is logged in, then one such player is disconnected with the given
  reason and leaves the registry, all other sessions stay exactly as they are, and the API client
  receives a success response and is closed and forgotten.
\<close>

theorem api_kick_disconnects:
  assumes "orders_ok (e_orders E)" "registry_ok x" "\<forall>f. auth = Some f \<longrightarrow> f tok"
    and "list_all (\<lambda>pk. sendable pk \<and> api_received pk = pk) [ApiConnectionRequest tok, ApiKick reason username]"
    and "c = newClient \<lparr>s_data = concat (map (\<lambda>pk. frame (api_payload pk))
               [ApiConnectionRequest tok, ApiKick reason username]), s_end = e\<rparr> \<lparr>k_out = [], k_faults = []\<rparr> api_packets"
    and "GetSession u (sp_registry x) = Some j" "EqualFold uni (display_name x j) username"
  shows "\<exists>i v c' a' x'. API_handle (\<lambda>_. False) c n (NewAPI (proxy_ops E N uni) auth) x = (Ok (), c', a', x') \<and>
    GetSession v (sp_registry x) = Some i \<and> EqualFold uni (display_name x i) username \<and>
    ended_with reason (x_sessions x ! i) (x_sessions x' ! i) \<and> sp_registry x' = RemoveSession v (sp_registry x) \<and>
    (\<forall>j. j \<noteq> i \<longrightarrow> x_sessions x' ! j = x_sessions x ! j) \<and>
    k_out (w_w (cl_writer c')) = frame (api_payload (ApiConnectionResponse ResponseSuccess)) \<and>
    cl_closed c' \<and> clients a' n = None"
proof -
  let ?get = "GetSessionByUsername uni (display_name x) (o_str (e_orders E)) username (sp_registry x)"
  have ord: "finite (dom (sp_registry x))" "key_order (o_str (e_orders E))"
    using assms(1,2) by (auto simp: registry_ok_def orders_ok_def key_order_def)
  with GetSessionByUsername_None [OF ord, of uni "display_name x" username] assms(6,7)
  obtain i where i: "?get = Some i" by (auto simp: GetSession_def)
  with GetSessionByUsername_Some [OF ord] obtain v where
    v: "sp_registry x v = Some i" "EqualFold uni (display_name x i) username" by blast
  obtain r x' where d: "on_session i (Session_Disconnect E reason) x = (r, x')" by fastforce
  note eff = disconnect_registered [OF assms(2) v(1) d] and frame = on_session_frame [OF d]
  have "fold (dispatch (handlers (NewAPI (proxy_ops E N uni) auth))) [ApiKick reason username] x = x'"
    using dispatch_kick [of "proxy_ops E N uni" username x i auth reason] i d by (simp add: proxy_ops_def)
  with API_handle_serves [where w = x and i = n, OF served_all [OF kick_returns [of reason username E N uni]] assms(3) assms(4) refl assms(5)]
  obtain c' a' where "API_handle (\<lambda>_. False) c n (NewAPI (proxy_ops E N uni) auth) x = (Ok (), c', a', x')"
    "k_out (w_w (cl_writer c')) = frame (api_payload (ApiConnectionResponse ResponseSuccess))"
    "cl_closed c'" "clients a' n = None" by metis
  with v eff frame(2) show ?thesis
    by (intro exI [of _ i] exI [of _ v] exI [of _ c'] exI [of _ a'] exI [of _ x'])
       (simp add: GetSession_def RemoveSession_def)
qed

theorem api_kick_disconnects_witness:
  "\<exists>E N i c' a' x'. API_handle (\<lambda>_. False)
      (newClient \<lparr>s_data = concat (map (\<lambda>pk. frame (api_payload pk))
         [ApiConnectionRequest ''key'', ApiKick ''bye'' ''alex'']), s_end = EOF\<rparr> \<lparr>k_out = [], k_faults = []\<rparr> api_packets)
      0 (NewAPI (proxy_ops E N (\<lambda>_ _. False)) (Some (\<lambda>t. t = ''key''))) demo_proxy = (Ok (), c', a', x') \<and>
    ended_with ''bye'' (x_sessions demo_proxy ! i) (x_sessions x' ! i)"
proof -
  obtain ord where ord: "orders_ok (e_orders (demo_env\<lparr>e_orders := ord\<rparr>))" using orders_exist by auto
  have pks: "list_all (\<lambda>pk. sendable pk \<and> api_received pk = pk) [ApiConnectionRequest ''key'', ApiKick ''bye'' ''alex'']"
    by (simp add: sendable_def api_payload_eq WriteString_def)
  have reg: "GetSession ''2'' (sp_registry demo_proxy) = Some 1" by (simp add: demo_proxy_def GetSession_def)
  have name: "EqualFold (\<lambda>_ _. False) (display_name demo_proxy 1) ''alex''"
    by (simp add: display_name_def demo_proxy_def NewSession_wf EqualFold_def str_bytes_def char_byte_def is_upper_def)
  from api_kick_disconnects [OF ord demo_proxy_ok demo_accepts pks refl reg name, of EOF 0 demo_network] show ?thesis by blast
qed

text \<open>
  C2. A transfer over the API, from the bytes of the API client to the spawn on the new server. If the token
  is accepted, the named player is logged in, the transport reaches the server and that server goes
  through the connection sequence, then the API client gets its response, the player's session points
  to the new server, no other session is touched, and the next read of the player's server loop spawns
  the player there and reports the success of the transfer to the processor.
\<close>

theorem api_transfer_spawns_player:
  assumes "orders_ok (e_orders E)" "proxy_inv x" "\<forall>f. auth = Some f \<longrightarrow> f tok"
    and "list_all (\<lambda>pk. sendable pk \<and> api_received pk = pk) [ApiConnectionRequest tok, ApiTransfer addr username]"
    and "c = newClient \<lparr>s_data = concat (map (\<lambda>pk. frame (api_payload pk))
               [ApiConnectionRequest tok, ApiTransfer addr username]), s_end = e\<rparr> \<lparr>k_out = [], k_faults = []\<rparr> api_packets"
    and "GetSessionByUsername uni (display_name x) (o_str (e_orders E)) username (sp_registry x) = Some j"
    and "s_ctx (x_sessions x ! j) = None" "s_processor (x_sessions x ! j) = NopProcessor"
      "i = length (s_conns (x_sessions x ! j))" "ci = k_info (s_client (x_sessions x ! j))"
    and "Transport_Dial N addr (sp_transport x) = (Ok (\<lparr>s_data = concat (map frame ps) @ rest, s_end = e'\<rparr>, k), t)" "k_faults k = []"
    and "ids_ok (e_lib E)" "snappy_codec (e_lib E)" "\<not> SyncProtocol (e_opts E)" "P = mc_DefaultProtocol (e_lib E)"
    and "ci_ClientData ci = Ok cd" "ci_IdentityData ci = Ok idd"
      "encodes (e_lib E) P (ConnectionRequest (ci_RemoteAddr ci) cd idd (proto_ID P) (s_cache (x_sessions x ! j)))"
      "encodes (e_lib E) P (RequestChunkRadius 16)" "\<forall>b. encodes (e_lib E) P (ClientCacheStatus b)"
      "\<forall>rid. encodes (e_lib E) P (SetLocalPlayerAsInitialised rid)"
    and "list_all2 (arrives (e_lib E) P) ps xs" "completes (776 \<le> sint (proto_ID P)) xs"
  shows "\<exists>c' a' x1 y w'. API_handle (\<lambda>_. False) c n (NewAPI (proxy_ops E N uni) auth) x = (Ok (), c', a', x1) \<and>
    k_out (w_w (cl_writer c')) = frame (api_payload (ApiConnectionResponse ResponseSuccess)) \<and>
    sp_transport x1 = t \<and> s_serverAddr (x_sessions x1 ! j) = addr \<and> (\<forall>m. m \<noteq> j \<longrightarrow> x_sessions x1 ! m = x_sessions x ! m) \<and>
    server_read E pick i (session_world j x1) = (Ok y, w') \<and> c_spawned (s_conns (w_session w') ! i) \<and>
    last (s_notices (w_session w')) = NotedPostTransfer (s_serverAddr (x_sessions x ! j)) addr"
proof -
  let ?ops = "proxy_ops E N uni" and ?pk = "ApiTransfer addr username"
  have find: "so_byUsername ?ops username x = Some j" using assms(6) by (simp add: proxy_ops_def)
  have j: "j < length (x_sessions x)" using lookup_inv [OF assms(1,2) find] .
  then have "one_open (x_sessions x ! j)" using assms(2) by (simp add: proxy_inv_def session_inv_def)
  from dialling_transfer [OF j this assms(7-12) assms(14-19)] obtain x1 wr where
    x1: "dialling E N j (\<lambda>E'. Session_Transfer E' addr) x = (Ok (), x1)" "sp_transport x1 = t"
      "s_serverAddr (x_sessions x1 ! j) = addr" "i < length (s_conns (x_sessions x1 ! j))"
      "s_conns (x_sessions x1 ! j) ! i = dialled_conn (e_lib E) (\<lparr>s_data = concat (map frame ps) @ rest, s_end = e'\<rparr>, k) ci False
         (s_cache (x_sessions x ! j)) wr (Some \<lparr>cb_origin = s_serverAddr (x_sessions x ! j), cb_addr = addr\<rparr>)"
      "writer_wf wr" "k_faults (w_w wr) = []" "\<forall>m. m \<noteq> j \<longrightarrow> x_sessions x1 ! m = x_sessions x ! m" by blast
  have h: "handlers (NewAPI ?ops auth) (api_ID ?pk) = Some (handle_transfer ?ops)" "handle_transfer ?ops ?pk x = (Ok (), x1)"
    using find x1(1) by (simp_all add: NewAPI_handlers api_id_const_defs) (simp add: proxy_ops_def)
  then have "served (handlers (NewAPI ?ops auth)) [?pk] x" "fold (dispatch (handlers (NewAPI ?ops auth))) [?pk] x = x1"
    by (simp_all add: dispatch_def del: handle_transfer.simps)
  with API_handle_serves [where i = n, OF this(1) assms(3,4) refl assms(5)] obtain c' a' where
    api: "API_handle (\<lambda>_. False) c n (NewAPI ?ops auth) x = (Ok (), c', a', x1)"
      "k_out (w_w (cl_writer c')) = frame (api_payload (ApiConnectionResponse ResponseSuccess))" by metis
  let ?c = "s_conns (x_sessions x1 ! j) ! i"
  have "conn_modern ?c = (776 \<le> sint (proto_ID P))"
    using assms(16) by (simp add: x1(5) conn_modern_def dialled_conn_def NewConn_def expect_def Let_def)
  then have m: "completes (conn_modern ?c) xs" using assms(24) by simp
  from server_read_transfer [where w = "session_world j x1" and i = i and pick = pick,
      OF assms(13,14,16) x1(5,6,7) assms(23) m assms(20-22)] x1(4)
  obtain y w' where "server_read E pick i (session_world j x1) = (Ok y, w')" "c_spawned (s_conns (w_session w') ! i)"
    "last (s_notices (w_session w')) = NotedPostTransfer (s_serverAddr (x_sessions x ! j)) addr" by auto
  with api x1(2,3,8) show ?thesis by blast
qed

lemma demo_proxy_inv: "proxy_inv demo_proxy"
proof -
  have "session_inv i (x_sessions demo_proxy ! i)" if "i < length (x_sessions demo_proxy)" for i
    using that NewSession_inv [of 2 demo_client] by (auto simp: demo_proxy_def less_Suc_eq numeral_3_eq_3 numeral_2_eq_2 NewSession_inv)
  then show ?thesis
    by (auto simp: proxy_inv_def) (auto simp: demo_proxy_def NewSession_wf NewSpectral_def transport_inv_def split: if_splits)
qed

theorem api_transfer_spawns_player_witness:
  "\<exists>E N c' a' x1 y w'. API_handle (\<lambda>_. False)
      (newClient \<lparr>s_data = concat (map (\<lambda>pk. frame (api_payload pk))
         [ApiConnectionRequest ''key'', ApiTransfer ''arena'' ''steve'']), s_end = EOF\<rparr> \<lparr>k_out = [], k_faults = []\<rparr> api_packets)
      0 (NewAPI (proxy_ops E N (\<lambda>_ _. False)) (Some (\<lambda>t. t = ''key''))) demo_proxy = (Ok (), c', a', x1) \<and>
    s_serverAddr (x_sessions x1 ! 0) = ''arena'' \<and>
    server_read E True 0 (session_world 0 x1) = (Ok y, w') \<and> c_spawned (s_conns (w_session w') ! 0)"
proof -
  obtain ord where ord: "orders_ok (e_orders (demo_env\<lparr>e_orders := ord\<rparr>))" using orders_exist by auto
  let ?E = "demo_env\<lparr>e_orders := ord\<rparr>" and ?uni = "\<lambda>_ _. False"
  let ?k = "\<lparr>k_out = [], k_faults = []\<rparr>" and ?rd = "\<lparr>s_data = concat (map frame demo_payloads) @ [], s_end = EOF\<rparr>"
  let ?N = "demo_network\<lparr>nw_OpenStream := \<lambda>_. Inr (?rd, ?k)\<rparr>"
  let ?get = "GetSessionByUsername ?uni (display_name demo_proxy) (o_str (e_orders ?E)) ''steve'' (sp_registry demo_proxy)"
  have reg: "sp_registry demo_proxy = [''1'' \<mapsto> 0, ''2'' \<mapsto> 1]" by (simp add: demo_proxy_def)
  have key: "finite (dom (sp_registry demo_proxy))" "key_order (o_str (e_orders ?E))"
    using ord by (auto simp: reg orders_ok_def key_order_def)
  have name: "EqualFold ?uni (display_name demo_proxy 0) ''steve''" "\<not> EqualFold ?uni (display_name demo_proxy 1) ''steve''"
    by (simp_all add: display_name_def demo_proxy_def NewSession_wf demo_client_def EqualFold_def str_bytes_def char_byte_def is_upper_def)
  have find: "?get = Some 0"
  proof (cases ?get)
    case None
    from iffD1 [OF GetSessionByUsername_None [OF key] None, rule_format, of "''1''" 0] name(1) show ?thesis by (simp add: reg)
  next
    case (Some i)
    with GetSessionByUsername_Some [OF key, of ?uni "display_name demo_proxy" "''steve''" i] name reg show ?thesis
      by (auto split: if_splits)
  qed
  have pks: "list_all (\<lambda>pk. sendable pk \<and> api_received pk = pk) [ApiConnectionRequest ''key'', ApiTransfer ''arena'' ''steve'']"
    by (simp add: sendable_def api_payload_eq WriteString_def)
  have s: "x_sessions demo_proxy ! 0 = NewSession 0 demo_client" "sp_transport demo_proxy = Spectral NewSpectral"
    by (simp_all add: demo_proxy_def)
  obtain t where dial: "Transport_Dial ?N ''arena'' (sp_transport demo_proxy) = (Ok (?rd, ?k), t)"
    by (simp add: s demo_network_def Spectral_Dial_def NewSpectral_def)
  have lib: "ids_ok (e_lib ?E)" "snappy_codec (e_lib ?E)" "\<not> SyncProtocol (e_opts ?E)" "demo_proto = mc_DefaultProtocol (e_lib ?E)"
    "k_faults ?k = []" by (simp_all add: demo_ids_ok demo_snappy_codec DefaultOpts_def) (simp add: demo_lib_def)
  have p: "s_ctx (x_sessions demo_proxy ! 0) = None" "s_processor (x_sessions demo_proxy ! 0) = NopProcessor"
    "0 = length (s_conns (x_sessions demo_proxy ! 0))" "demo_client_info = k_info (s_client (x_sessions demo_proxy ! 0))"
    "s_cache (x_sessions demo_proxy ! 0) = []"
    by (simp_all add: s NewSession_def)
  have req: "ci_ClientData demo_client_info = Ok [1]" "ci_IdentityData demo_client_info = Ok [2]"
    "encodes (e_lib ?E) demo_proto (ConnectionRequest (ci_RemoteAddr demo_client_info) [1] [2] (proto_ID demo_proto) (s_cache (x_sessions demo_proxy ! 0)))"
    using demo_encodes_request [of "[]"] by (simp_all add: p(5) demo_client_info_def)
  have enc: "encodes (e_lib ?E) demo_proto (RequestChunkRadius 16)" "\<forall>b. encodes (e_lib ?E) demo_proto (ClientCacheStatus b)"
    "\<forall>rid. encodes (e_lib ?E) demo_proto (SetLocalPlayerAsInitialised rid)" by (simp_all add: demo_encodes)
  have seq: "list_all2 (arrives (e_lib ?E) demo_proto) demo_payloads demo_received" "completes (776 \<le> sint (proto_ID demo_proto)) demo_received"
    using demo_arrives demo_completes by (simp_all add: demo_proto_def)
  from api_transfer_spawns_player [OF ord demo_proxy_inv demo_accepts pks refl find p(1-4) dial lib(5,1-4) req enc seq, of EOF 0 True]
  show ?thesis by blast
qed

end
